theory Spec2Isabelle
  imports Main "HOL-Library.Char_ord" "HOL-Library.List_Lexorder"
begin

section \<open>The Spotify seeders of the music marketplace backend\<close>

text \<open>
  A shallow embedding of \<^verbatim>\<open>spotify-seeder.js\<close> (class \<^verbatim>\<open>SpotifySeeder\<close> and \<^verbatim>\<open>main\<close>) and
  of \<^verbatim>\<open>album-cover-seeder.js\<close> (class \<^verbatim>\<open>AlbumCoverSeeder\<close>).

  Every asynchronous method becomes a function from the state of the world to an outcome and
  the new state: the outcome is \<open>Inl\<close> of the error the method throws or \<open>Inr\<close> of the value
  it returns. The state is returned in both cases, since what a method wrote before it threw
  stays written. The external world (the Spotify API, the clock, which operation fails when)
  is the immutable record \<open>env\<close>.
\<close>

subsection \<open>Values received from the Spotify API\<close>

text \<open>
  A property read from a JSON object is absent (\<^verbatim>\<open>undefined\<close>), \<^verbatim>\<open>null\<close> or a value.
  Properties that the seeders read without a guard and store in a required column are
  given their plain type.
\<close>

datatype 'a js = Undefined | Null | Val 'a

record image =
  im_url :: string
  im_width :: nat
  im_height :: nat

record artist_data =
  a_id :: string
  a_name :: string
  a_spotify_url :: "string js"   \<comment> \<open>\<^verbatim>\<open>external_urls?.spotify\<close>\<close>
  a_popularity :: "nat js"

record album_data =
  b_id :: string
  b_name :: string
  b_album_type :: string
  b_total_tracks :: nat
  b_release_date :: string
  b_release_date_precision :: string
  b_spotify_url :: "string js"   \<comment> \<open>\<^verbatim>\<open>external_urls?.spotify\<close>\<close>
  b_images :: "image list option" \<comment> \<open>\<open>None\<close>: the property is absent or null\<close>

record track_data =
  t_id :: string
  t_name :: string
  t_track_number :: nat
  t_disc_number :: nat
  t_duration_ms :: nat
  t_popularity :: "nat js"
  t_preview_url :: "string js"
  t_spotify_url :: "string js"   \<comment> \<open>\<^verbatim>\<open>external_urls?.spotify\<close>\<close>
  t_isrc :: "string js"          \<comment> \<open>\<^verbatim>\<open>external_ids?.isrc\<close>\<close>
  t_explicit :: bool
  t_available_markets :: "string list option"
  t_artists :: "artist_data list"
  t_album :: album_data

record added_by =
  ab_id :: "string js"
  ab_display_name :: "string js"

record track_item =
  ti_track :: track_data
  ti_added_at :: string
  ti_added_by :: "added_by option"  \<comment> \<open>\<open>None\<close>: the property is absent or null\<close>

record playlist_data =
  p_id :: string
  p_name :: string
  p_description :: "string js"
  p_owner_id :: string
  p_owner_name :: "string js"
  p_owner_url :: "string js"
  p_public :: "bool js"
  p_collaborative :: bool
  p_spotify_url :: "string js"
  p_tracks_total :: nat
  p_tracks_items :: "track_item list"

record token_response =
  access_token :: string
  expires_in :: nat

record image_response =
  content_type :: "string option"   \<comment> \<open>\<^verbatim>\<open>headers['content-type']\<close>\<close>
  data_length :: nat

subsection \<open>Rows of the relational store\<close>

text \<open>
  The tables are those of the migration the seeder was written against
  (\<^verbatim>\<open>20250813234402_setup_tables\<close>). Local identifiers are drawn from a counter;
  timestamps are milliseconds, as \<^verbatim>\<open>Date.now()\<close> counts them.
\<close>

record artist =
  ar_id :: nat
  ar_spotify_id :: string
  ar_name :: string
  ar_spotify_url :: "string option"
  ar_popularity :: "nat option"
  ar_created_at :: nat
  ar_updated_at :: nat

record album =
  al_id :: nat
  al_spotify_id :: string
  al_name :: string
  al_album_type :: string
  al_total_tracks :: nat
  al_release_date :: string
  al_release_date_precision :: string
  al_spotify_url :: "string option"
  al_created_at :: nat
  al_updated_at :: nat

record track =
  tr_id :: nat
  tr_spotify_id :: string
  tr_name :: string
  tr_album_id :: nat
  tr_track_number :: nat
  tr_disc_number :: nat
  tr_duration_ms :: nat
  tr_popularity :: "nat option"
  tr_preview_url :: "string option"
  tr_spotify_url :: "string option"
  tr_isrc :: "string option"
  tr_explicit :: bool
  tr_available_markets :: "string option"
  tr_created_at :: nat
  tr_updated_at :: nat

record album_artist =
  aa_album_id :: nat
  aa_artist_id :: nat

record track_artist =
  ta_track_id :: nat
  ta_artist_id :: nat

record playlist =
  pl_id :: nat
  pl_spotify_id :: string
  pl_name :: string
  pl_description :: "string option"
  pl_owner_id :: string
  pl_owner_name :: string
  pl_owner_url :: "string option"
  pl_public :: bool
  pl_collaborative :: bool
  pl_total_tracks :: nat
  pl_spotify_url :: "string option"
  pl_created_at :: nat
  pl_updated_at :: nat

record playlist_track =
  pt_playlist_id :: nat
  pt_track_id :: nat
  pt_position :: nat
  pt_added_at :: string
  pt_added_by_id :: "string option"
  pt_added_by_name :: "string option"

record media =
  m_id :: nat
  m_album_id :: nat
  m_type :: string
  m_filename :: string
  m_blob_url :: string
  m_spotify_url :: "string option"
  m_height :: "nat option"
  m_width :: "nat option"
  m_file_size :: "nat option"
  m_mime_type :: "string option"

record store =
  db_artists :: "artist list"
  db_albums :: "album list"
  db_tracks :: "track list"
  db_album_artists :: "album_artist list"
  db_track_artists :: "track_artist list"
  db_playlists :: "playlist list"
  db_playlist_tracks :: "playlist_track list"
  db_media :: "media list"
  db_next_id :: nat

subsection \<open>The world: operations on the outside, errors, logs\<close>

text \<open>
  Every request to the Spotify API, the blob store or the relational store, and every
  \<^verbatim>\<open>setTimeout\<close>, is recorded in the trace in the order it is issued, whether it succeeds or
  fails.
\<close>

datatype io_op =
    TokenExchange
  | GetPlaylist string
  | GetPlaylistTracks string nat nat   \<comment> \<open>playlist id, limit, offset\<close>
  | GetAlbum string
  | Download string
  | BlobUpload string
  | ContainerExists
  | ContainerCreate
  | Sleep nat
  | DbConnect
  | DbDisconnect
  | PlaylistUpsert string
  | ArtistUpsert string
  | AlbumUpsert string
  | TrackUpsert string
  | AlbumArtistUpsert nat nat
  | TrackArtistUpsert nat nat
  | TrackFindUnique string
  | PlaylistTrackUpsert nat nat nat
  | MediaFindFirst nat
  | MediaCreate nat
  | AlbumFindMany

datatype error =
  HttpStatus nat | NoResponse | StoreError | UniqueViolation | TypeError | ValidationError

text \<open>The lines written with \<^verbatim>\<open>console.error\<close>, one constructor for each place that writes one.\<close>

datatype log_line =
    LogTokenError error
  | LogFetchPlaylistError error
  | LogUpsertArtistError string error
  | LogUpsertAlbumError string error
  | LogAlbumArtistError error
  | LogUpsertTrackError string error
  | LogTrackArtistError error
  | LogCoverError error
  | LogUpsertPlaylistError string error
  | LogPlaylistTrackError error
  | LogProcessTracksError error
  | LogSeedingError error
  | LogScriptError error
  | LogMissingCredentials
  | LogMissingDatabaseUrl
  | LogMissingStorage
  | LogEnsureContainerError error
  | LogProcessAlbumError string error
  | LogFetchAlbumsError error
  | LogCoverSeedingError error

text \<open>The counters of \<^verbatim>\<open>AlbumCoverSeeder.stats\<close>; an entry of \<^verbatim>\<open>stats.errors\<close> names the album.\<close>

datatype stat_error =
    SpotifyFetchFailed string
  | NoCoverAvailable string
  | Raised string error

record stats =
  st_total :: nat
  st_processed :: nat
  st_success :: nat
  st_skipped :: nat
  st_failed :: nat
  st_errors :: "stat_error list"

record world =
  trace :: "io_op list"
  errlog :: "log_line list"
  db :: store
  accessToken :: "string option"   \<comment> \<open>\<^verbatim>\<open>this.accessToken\<close>\<close>
  tokenExpiry :: "nat option"      \<comment> \<open>\<^verbatim>\<open>this.tokenExpiry\<close>\<close>
  seeder_stats :: stats            \<comment> \<open>\<^verbatim>\<open>this.stats\<close>\<close>

text \<open>
  The outside world. \<open>fault e n op\<close> is the error with which operation \<open>op\<close> fails when it
  is the \<open>n\<close>-th operation issued (\<open>None\<close>: it succeeds); the responses are those the API
  gives; \<open>clock e n\<close> is \<^verbatim>\<open>Date.now()\<close> after \<open>n\<close> operations.
\<close>

record env =
  fault :: "nat \<Rightarrow> io_op \<Rightarrow> error option"
  clock :: "nat \<Rightarrow> nat"
  token_resp :: "nat \<Rightarrow> token_response"
  playlist_resp :: "string \<Rightarrow> playlist_data"
  page_resp :: "string \<Rightarrow> nat \<Rightarrow> nat \<Rightarrow> track_item list"  \<comment> \<open>playlist id, limit, offset\<close>
  album_resp :: "string \<Rightarrow> album_data"
  image_resp :: "string \<Rightarrow> image_response"
  container_exists :: bool
  container_url :: string
  uuidv4 :: "nat \<Rightarrow> string"

text \<open>The process environment variables read by the two scripts.\<close>

record config =
  SPOTIFY_CLIENT_ID :: "string option"
  SPOTIFY_CLIENT_SECRET :: "string option"
  DATABASE_URL :: "string option"
  AZURE_STORAGE_CONNECTION_STRING :: "string option"
  storage_init_ok :: bool   \<comment> \<open>\<^verbatim>\<open>BlobServiceClient.fromConnectionString\<close> did not throw\<close>

definition RATE_LIMIT_DELAY :: nat where
  "RATE_LIMIT_DELAY = 1000"

definition MAX_TRACKS_PER_REQUEST :: nat where
  "MAX_TRACKS_PER_REQUEST = 100"

definition PLAYLIST_ID :: string where
  "PLAYLIST_ID = ''6WQ2yb15wZ6fST8PAWrYrw''"

definition perform :: "env \<Rightarrow> io_op \<Rightarrow> world \<Rightarrow> error option \<times> world" where
  "perform e op w = (fault e (length (trace w)) op, w\<lparr>trace := trace w @ [op]\<rparr>)"

definition sleep :: "nat \<Rightarrow> world \<Rightarrow> world" where
  "sleep ms w = w\<lparr>trace := trace w @ [Sleep ms]\<rparr>"

definition now :: "env \<Rightarrow> world \<Rightarrow> nat" where
  "now e w = clock e (length (trace w))"

definition log_error :: "log_line \<Rightarrow> world \<Rightarrow> world" where
  "log_error l w = w\<lparr>errlog := errlog w @ [l]\<rparr>"

text \<open>JavaScript truthiness of a string variable: unset and the empty string are falsy.\<close>

definition truthy :: "string option \<Rightarrow> bool" where
  "truthy v = (case v of None \<Rightarrow> False | Some s \<Rightarrow> s \<noteq> [])"

subsection \<open>\<^verbatim>\<open>getAccessToken\<close> (the same in both seeders)\<close>

text \<open>
  \<^verbatim>\<open>this.accessToken && this.tokenExpiry && Date.now() < this.tokenExpiry\<close>: the token
  must be a non-empty string and the expiry a number other than 0.
\<close>

definition cachedToken :: "env \<Rightarrow> world \<Rightarrow> string option" where
  "cachedToken e w =
     (case accessToken w of
        None \<Rightarrow> None
      | Some t \<Rightarrow>
          (case tokenExpiry w of
             None \<Rightarrow> None
           | Some x \<Rightarrow> if t \<noteq> [] \<and> x \<noteq> 0 \<and> now e w < x then Some t else None))"

definition getAccessToken :: "env \<Rightarrow> world \<Rightarrow> (error + string) \<times> world" where
  "getAccessToken e w =
     (case cachedToken e w of
        Some t \<Rightarrow> (Inr t, w)
      | None \<Rightarrow>
          (case perform e TokenExchange w of
             (Some err, w1) \<Rightarrow> (Inl err, log_error (LogTokenError err) w1)
           | (None, w1) \<Rightarrow>
               (let r = token_resp e (length (trace w))
                in (Inr (access_token r),
                    w1\<lparr>accessToken := Some (access_token r),
                       tokenExpiry := Some (now e w1 + expires_in r * 1000)\<rparr>))))"

subsection \<open>\<^verbatim>\<open>SpotifySeeder.fetchPlaylist\<close>\<close>

text \<open>
  The \<^verbatim>\<open>while (offset < totalTracks)\<close> loop. It does not terminate when \<open>limit\<close> is 0 and no
  request fails, so it is a partial function: \<open>None\<close> is the run that never returns.
\<close>

partial_function (option) fetch_loop ::
  "env \<Rightarrow> string \<Rightarrow> nat \<Rightarrow> nat \<Rightarrow> nat \<Rightarrow> track_item list \<Rightarrow> world
     \<Rightarrow> ((error + track_item list) \<times> world) option" where
  "fetch_loop e playlistId limit totalTracks offset allTracks w =
     (if offset < totalTracks then
        (let r = perform e (GetPlaylistTracks playlistId limit offset) w; w1 = snd r in
         case fst r of
           Some err \<Rightarrow> Some (Inl err, w1)
         | None \<Rightarrow>
             fetch_loop e playlistId limit totalTracks (offset + limit)
               (allTracks @ page_resp e playlistId limit offset)
               (if offset + limit < totalTracks then sleep RATE_LIMIT_DELAY w1 else w1))
      else Some (Inr allTracks, w))"

definition fetchPlaylist ::
  "env \<Rightarrow> string \<Rightarrow> nat \<Rightarrow> world \<Rightarrow> ((error + playlist_data) \<times> world) option" where
  "fetchPlaylist e playlistId limit w =
     (case getAccessToken e w of
        (Inl err, w1) \<Rightarrow> Some (Inl err, log_error (LogFetchPlaylistError err) w1)
      | (Inr token, w1) \<Rightarrow>
          (case perform e (GetPlaylist playlistId) w1 of
             (Some err, w2) \<Rightarrow> Some (Inl err, log_error (LogFetchPlaylistError err) w2)
           | (None, w2) \<Rightarrow>
               (let playlist = playlist_resp e playlistId;
                    totalTracks = p_tracks_total playlist
                in case fetch_loop e playlistId limit totalTracks 0 [] w2 of
                     None \<Rightarrow> None
                   | Some (Inl err, w3) \<Rightarrow> Some (Inl err, log_error (LogFetchPlaylistError err) w3)
                   | Some (Inr allTracks, w3) \<Rightarrow>
                       Some (Inr (playlist\<lparr>p_tracks_items := allTracks,
                                          p_tracks_total := length allTracks\<rparr>), w3))))"

subsection \<open>The relational store as the seeders use it\<close>

text \<open>
  What the client library writes for a property of the \<^verbatim>\<open>create\<close> or \<^verbatim>\<open>update\<close> object:
  a property whose value is \<^verbatim>\<open>undefined\<close> is left out of the statement, so a created
  row gets the column's default (NULL) and an updated row keeps what it had; \<^verbatim>\<open>null\<close>
  writes NULL.
\<close>

fun col :: "'a js \<Rightarrow> 'a option" where
  "col Undefined = None"
| "col Null = None"
| "col (Val v) = Some v"

fun upd :: "'a js \<Rightarrow> 'a option \<Rightarrow> 'a option" where
  "upd Undefined old = old"
| "upd Null old = None"
| "upd (Val v) old = Some v"

text \<open>\<^verbatim>\<open>x || null\<close> on a string: absent, null and the empty string give null.\<close>

fun or_null :: "string js \<Rightarrow> string js" where
  "or_null (Val s) = (if s = [] then Null else Val s)"
| "or_null _ = Null"

fun join :: "string \<Rightarrow> string list \<Rightarrow> string" where
  "join sep [] = []"
| "join sep [x] = x"
| "join sep (x # y # ys) = x @ sep @ join sep (y # ys)"

text \<open>\<^verbatim>\<open>trackData.available_markets?.join(',') || null\<close>\<close>

definition markets :: "string list option \<Rightarrow> string js" where
  "markets m = (case m of None \<Rightarrow> Null | Some xs \<Rightarrow> or_null (Val (join '','' xs)))"

text \<open>
  \<^verbatim>\<open>upsert({where, update, create})\<close> on a table: the row that satisfies the unique
  \<^verbatim>\<open>where\<close> is updated in place, or a new row is created with a fresh identifier.
\<close>

fun update_first :: "('r \<Rightarrow> bool) \<Rightarrow> ('r \<Rightarrow> 'r) \<Rightarrow> 'r list \<Rightarrow> 'r list" where
  "update_first p f [] = []"
| "update_first p f (r # rs) = (if p r then f r # rs else r # update_first p f rs)"

definition upsert_row ::
  "('r \<Rightarrow> bool) \<Rightarrow> ('r \<Rightarrow> 'r) \<Rightarrow> (nat \<Rightarrow> 'r) \<Rightarrow> 'r list \<Rightarrow> nat \<Rightarrow> 'r \<times> 'r list \<times> nat" where
  "upsert_row p update create rows n =
     (case find p rows of
        Some r \<Rightarrow> (update r, update_first p update rows, n)
      | None \<Rightarrow> (create n, rows @ [create n], Suc n))"

subsection \<open>\<^verbatim>\<open>SpotifySeeder\<close>: entity upserts\<close>

definition upsertArtist :: "env \<Rightarrow> artist_data \<Rightarrow> world \<Rightarrow> (error + artist) \<times> world" where
  "upsertArtist e artistData w =
     (case perform e (ArtistUpsert (a_id artistData)) w of
        (Some err, w1) \<Rightarrow> (Inl err, log_error (LogUpsertArtistError (a_name artistData) err) w1)
      | (None, w1) \<Rightarrow>
          (case upsert_row (\<lambda>r. ar_spotify_id r = a_id artistData)
                  (\<lambda>r. r\<lparr>ar_name := a_name artistData,
                          ar_spotify_url := upd (a_spotify_url artistData) (ar_spotify_url r),
                          ar_popularity := upd (a_popularity artistData) (ar_popularity r),
                          ar_updated_at := now e w\<rparr>)
                  (\<lambda>n. \<lparr>ar_id = n,
                         ar_spotify_id = a_id artistData,
                         ar_name = a_name artistData,
                         ar_spotify_url = col (a_spotify_url artistData),
                         ar_popularity = col (a_popularity artistData),
                         ar_created_at = now e w,
                         ar_updated_at = now e w\<rparr>)
                  (db_artists (db w1)) (db_next_id (db w1)) of
             (artist, rows, n) \<Rightarrow>
               (Inr artist, w1\<lparr>db := (db w1)\<lparr>db_artists := rows, db_next_id := n\<rparr>\<rparr>)))"

definition upsertAlbum :: "env \<Rightarrow> album_data \<Rightarrow> world \<Rightarrow> (error + album) \<times> world" where
  "upsertAlbum e albumData w =
     (case perform e (AlbumUpsert (b_id albumData)) w of
        (Some err, w1) \<Rightarrow> (Inl err, log_error (LogUpsertAlbumError (b_name albumData) err) w1)
      | (None, w1) \<Rightarrow>
          (case upsert_row (\<lambda>r. al_spotify_id r = b_id albumData)
                  (\<lambda>r. r\<lparr>al_name := b_name albumData,
                          al_album_type := b_album_type albumData,
                          al_total_tracks := b_total_tracks albumData,
                          al_release_date := b_release_date albumData,
                          al_release_date_precision := b_release_date_precision albumData,
                          al_spotify_url := upd (b_spotify_url albumData) (al_spotify_url r),
                          al_updated_at := now e w\<rparr>)
                  (\<lambda>n. \<lparr>al_id = n,
                         al_spotify_id = b_id albumData,
                         al_name = b_name albumData,
                         al_album_type = b_album_type albumData,
                         al_total_tracks = b_total_tracks albumData,
                         al_release_date = b_release_date albumData,
                         al_release_date_precision = b_release_date_precision albumData,
                         al_spotify_url = col (b_spotify_url albumData),
                         al_created_at = now e w,
                         al_updated_at = now e w\<rparr>)
                  (db_albums (db w1)) (db_next_id (db w1)) of
             (album, rows, n) \<Rightarrow>
               (Inr album, w1\<lparr>db := (db w1)\<lparr>db_albums := rows, db_next_id := n\<rparr>\<rparr>)))"

definition upsertTrack :: "env \<Rightarrow> track_data \<Rightarrow> nat \<Rightarrow> world \<Rightarrow> (error + track) \<times> world" where
  "upsertTrack e trackData albumId w =
     (case perform e (TrackUpsert (t_id trackData)) w of
        (Some err, w1) \<Rightarrow> (Inl err, log_error (LogUpsertTrackError (t_name trackData) err) w1)
      | (None, w1) \<Rightarrow>
          (case upsert_row (\<lambda>r. tr_spotify_id r = t_id trackData)
                  (\<lambda>r. r\<lparr>tr_name := t_name trackData,
                          tr_track_number := t_track_number trackData,
                          tr_disc_number := t_disc_number trackData,
                          tr_duration_ms := t_duration_ms trackData,
                          tr_popularity := upd (t_popularity trackData) (tr_popularity r),
                          tr_preview_url := upd (t_preview_url trackData) (tr_preview_url r),
                          tr_spotify_url := upd (t_spotify_url trackData) (tr_spotify_url r),
                          tr_isrc := upd (t_isrc trackData) (tr_isrc r),
                          tr_explicit := t_explicit trackData,
                          tr_available_markets :=
                            upd (markets (t_available_markets trackData)) (tr_available_markets r),
                          tr_updated_at := now e w\<rparr>)
                  (\<lambda>n. \<lparr>tr_id = n,
                         tr_spotify_id = t_id trackData,
                         tr_name = t_name trackData,
                         tr_album_id = albumId,
                         tr_track_number = t_track_number trackData,
                         tr_disc_number = t_disc_number trackData,
                         tr_duration_ms = t_duration_ms trackData,
                         tr_popularity = col (t_popularity trackData),
                         tr_preview_url = col (t_preview_url trackData),
                         tr_spotify_url = col (t_spotify_url trackData),
                         tr_isrc = col (t_isrc trackData),
                         tr_explicit = t_explicit trackData,
                         tr_available_markets = col (markets (t_available_markets trackData)),
                         tr_created_at = now e w,
                         tr_updated_at = now e w\<rparr>)
                  (db_tracks (db w1)) (db_next_id (db w1)) of
             (track, rows, n) \<Rightarrow>
               (Inr track, w1\<lparr>db := (db w1)\<lparr>db_tracks := rows, db_next_id := n\<rparr>\<rparr>)))"

text \<open>
  In the playlists table the columns \<^verbatim>\<open>owner_name\<close> and \<^verbatim>\<open>public\<close> are NOT NULL, the second
  with the default true. The client library checks the arguments of a call before it
  sends anything to the store: an upsert whose \<^verbatim>\<open>create\<close> object lacks a required property,
  or whose \<^verbatim>\<open>create\<close> or \<^verbatim>\<open>update\<close> object gives null for such a column, is refused with a
  validation error.
\<close>

definition upsertPlaylist :: "env \<Rightarrow> playlist_data \<Rightarrow> world \<Rightarrow> (error + playlist) \<times> world" where
  "upsertPlaylist e playlistData w =
     (case p_owner_name playlistData of
        Val ownerName \<Rightarrow>
          if p_public playlistData = Null
          then (Inl ValidationError,
                log_error (LogUpsertPlaylistError (p_name playlistData) ValidationError) w)
          else
            (case perform e (PlaylistUpsert (p_id playlistData)) w of
               (Some err, w1) \<Rightarrow>
                 (Inl err, log_error (LogUpsertPlaylistError (p_name playlistData) err) w1)
             | (None, w1) \<Rightarrow>
                 (case upsert_row (\<lambda>r. pl_spotify_id r = p_id playlistData)
                         (\<lambda>r. r\<lparr>pl_name := p_name playlistData,
                                 pl_description := upd (p_description playlistData) (pl_description r),
                                 pl_owner_id := p_owner_id playlistData,
                                 pl_owner_name := ownerName,
                                 pl_owner_url := upd (p_owner_url playlistData) (pl_owner_url r),
                                 pl_public :=
                                   (case p_public playlistData of Val b \<Rightarrow> b | _ \<Rightarrow> pl_public r),
                                 pl_collaborative := p_collaborative playlistData,
                                 pl_total_tracks := p_tracks_total playlistData,
                                 pl_spotify_url := upd (p_spotify_url playlistData) (pl_spotify_url r),
                                 pl_updated_at := now e w\<rparr>)
                         (\<lambda>n. \<lparr>pl_id = n,
                                pl_spotify_id = p_id playlistData,
                                pl_name = p_name playlistData,
                                pl_description = col (p_description playlistData),
                                pl_owner_id = p_owner_id playlistData,
                                pl_owner_name = ownerName,
                                pl_owner_url = col (p_owner_url playlistData),
                                pl_public =
                                  (case p_public playlistData of Val b \<Rightarrow> b | _ \<Rightarrow> True),
                                pl_collaborative = p_collaborative playlistData,
                                pl_total_tracks = p_tracks_total playlistData,
                                pl_spotify_url = col (p_spotify_url playlistData),
                                pl_created_at = now e w,
                                pl_updated_at = now e w\<rparr>)
                         (db_playlists (db w1)) (db_next_id (db w1)) of
                    (playlist, rows, n) \<Rightarrow>
                      (Inr playlist,
                       w1\<lparr>db := (db w1)\<lparr>db_playlists := rows, db_next_id := n\<rparr>\<rparr>)))
      | _ \<Rightarrow>
          (Inl ValidationError,
           log_error (LogUpsertPlaylistError (p_name playlistData) ValidationError) w))"

subsection \<open>\<^verbatim>\<open>SpotifySeeder\<close>: relations\<close>

text \<open>
  The rows of the join tables are modelled by their key columns (and, for a playlist entry,
  the \<^verbatim>\<open>added\<close> columns); their surrogate identifier and creation time are left out.
\<close>

fun albumArtist_loop :: "env \<Rightarrow> nat \<Rightarrow> nat list \<Rightarrow> world \<Rightarrow> (error + unit) \<times> world" where
  "albumArtist_loop e albumId [] w = (Inr (), w)"
| "albumArtist_loop e albumId (artistId # rest) w =
     (case perform e (AlbumArtistUpsert albumId artistId) w of
        (Some err, w1) \<Rightarrow> (Inl err, w1)
      | (None, w1) \<Rightarrow>
          (case upsert_row (\<lambda>r. aa_album_id r = albumId \<and> aa_artist_id r = artistId)
                  (\<lambda>r. r)
                  (\<lambda>n. \<lparr>aa_album_id = albumId, aa_artist_id = artistId\<rparr>)
                  (db_album_artists (db w1)) (db_next_id (db w1)) of
             (row, rows, n) \<Rightarrow>
               albumArtist_loop e albumId rest
                 (w1\<lparr>db := (db w1)\<lparr>db_album_artists := rows, db_next_id := n\<rparr>\<rparr>)))"

definition createAlbumArtistRelations ::
  "env \<Rightarrow> nat \<Rightarrow> nat list \<Rightarrow> world \<Rightarrow> (error + unit) \<times> world" where
  "createAlbumArtistRelations e albumId artistIds w =
     (case albumArtist_loop e albumId artistIds w of
        (Inl err, w1) \<Rightarrow> (Inl err, log_error (LogAlbumArtistError err) w1)
      | (Inr u, w1) \<Rightarrow> (Inr u, w1))"

fun trackArtist_loop :: "env \<Rightarrow> nat \<Rightarrow> nat list \<Rightarrow> world \<Rightarrow> (error + unit) \<times> world" where
  "trackArtist_loop e trackId [] w = (Inr (), w)"
| "trackArtist_loop e trackId (artistId # rest) w =
     (case perform e (TrackArtistUpsert trackId artistId) w of
        (Some err, w1) \<Rightarrow> (Inl err, w1)
      | (None, w1) \<Rightarrow>
          (case upsert_row (\<lambda>r. ta_track_id r = trackId \<and> ta_artist_id r = artistId)
                  (\<lambda>r. r)
                  (\<lambda>n. \<lparr>ta_track_id = trackId, ta_artist_id = artistId\<rparr>)
                  (db_track_artists (db w1)) (db_next_id (db w1)) of
             (row, rows, n) \<Rightarrow>
               trackArtist_loop e trackId rest
                 (w1\<lparr>db := (db w1)\<lparr>db_track_artists := rows, db_next_id := n\<rparr>\<rparr>)))"

definition createTrackArtistRelations ::
  "env \<Rightarrow> nat \<Rightarrow> nat list \<Rightarrow> world \<Rightarrow> (error + unit) \<times> world" where
  "createTrackArtistRelations e trackId artistIds w =
     (case trackArtist_loop e trackId artistIds w of
        (Inl err, w1) \<Rightarrow> (Inl err, log_error (LogTrackArtistError err) w1)
      | (Inr u, w1) \<Rightarrow> (Inr u, w1))"

text \<open>\<^verbatim>\<open>trackItem.added_by?.id || null\<close> and \<^verbatim>\<open>trackItem.added_by?.display_name || null\<close>\<close>

definition added_by_id :: "track_item \<Rightarrow> string js" where
  "added_by_id trackItem =
     (case ti_added_by trackItem of None \<Rightarrow> Null | Some b \<Rightarrow> or_null (ab_id b))"

definition added_by_name :: "track_item \<Rightarrow> string js" where
  "added_by_name trackItem =
     (case ti_added_by trackItem of None \<Rightarrow> Null | Some b \<Rightarrow> or_null (ab_display_name b))"

text \<open>
  The loop \<^verbatim>\<open>for (let i = 0; i < tracks.length; i++)\<close> of \<^verbatim>\<open>createPlaylistTrackRelations\<close>,
  at index \<open>i\<close> with the items from \<open>i\<close> on still to do.
\<close>

fun playlistTrack_loop ::
  "env \<Rightarrow> nat \<Rightarrow> track_item list \<Rightarrow> nat \<Rightarrow> world \<Rightarrow> (error + unit) \<times> world" where
  "playlistTrack_loop e playlistId [] i w = (Inr (), w)"
| "playlistTrack_loop e playlistId (trackItem # rest) i w =
     (case perform e (TrackFindUnique (t_id (ti_track trackItem))) w of
        (Some err, w1) \<Rightarrow> (Inl err, w1)
      | (None, w1) \<Rightarrow>
          (case find (\<lambda>r. tr_spotify_id r = t_id (ti_track trackItem)) (db_tracks (db w1)) of
             None \<Rightarrow> playlistTrack_loop e playlistId rest (i + 1) w1
           | Some track \<Rightarrow>
               (case perform e (PlaylistTrackUpsert playlistId (tr_id track) (i + 1)) w1 of
                  (Some err, w2) \<Rightarrow> (Inl err, w2)
                | (None, w2) \<Rightarrow>
                    (case upsert_row
                            (\<lambda>r. pt_playlist_id r = playlistId \<and> pt_track_id r = tr_id track
                                   \<and> pt_position r = i + 1)
                            (\<lambda>r. r\<lparr>pt_added_at := ti_added_at trackItem,
                                    pt_added_by_id := upd (added_by_id trackItem) (pt_added_by_id r),
                                    pt_added_by_name :=
                                      upd (added_by_name trackItem) (pt_added_by_name r),
                                    pt_position := i + 1\<rparr>)
                            (\<lambda>n. \<lparr>pt_playlist_id = playlistId,
                                   pt_track_id = tr_id track,
                                   pt_position = i + 1,
                                   pt_added_at = ti_added_at trackItem,
                                   pt_added_by_id = col (added_by_id trackItem),
                                   pt_added_by_name = col (added_by_name trackItem)\<rparr>)
                            (db_playlist_tracks (db w2)) (db_next_id (db w2)) of
                       (row, rows, n) \<Rightarrow>
                         playlistTrack_loop e playlistId rest (i + 1)
                           (w2\<lparr>db := (db w2)\<lparr>db_playlist_tracks := rows, db_next_id := n\<rparr>\<rparr>)))))"

definition createPlaylistTrackRelations ::
  "env \<Rightarrow> nat \<Rightarrow> track_item list \<Rightarrow> string option \<Rightarrow> world \<Rightarrow> (error + unit) \<times> world" where
  "createPlaylistTrackRelations e playlistId tracks addedAt w =
     (case playlistTrack_loop e playlistId tracks 0 w of
        (Inl err, w1) \<Rightarrow> (Inl err, log_error (LogPlaylistTrackError err) w1)
      | (Inr u, w1) \<Rightarrow> (Inr u, w1))"

subsection \<open>Album covers\<close>

text \<open>\<^verbatim>\<open>containerClient\<close> is set when the connection string is and the client was built.\<close>

definition containerClient :: "config \<Rightarrow> bool" where
  "containerClient cfg = (truthy (AZURE_STORAGE_CONNECTION_STRING cfg) \<and> storage_init_ok cfg)"

definition getImageExtension :: "string option \<Rightarrow> string" where
  "getImageExtension mimeType =
     (if mimeType = Some ''image/jpeg'' \<or> mimeType = Some ''image/jpg'' then ''jpg''
      else if mimeType = Some ''image/png'' then ''png''
      else if mimeType = Some ''image/webp'' then ''webp''
      else ''jpg'')"

definition is_album_cover :: "nat \<Rightarrow> media \<Rightarrow> bool" where
  "is_album_cover albumId m = (m_album_id m = albumId \<and> m_type m = ''album_cover'')"

text \<open>
  \<^verbatim>\<open>prisma.media.create\<close>: the table has a unique index on (album_id, type), so the
  statement fails when the album already has a row of that type.
\<close>

definition media_create :: "env \<Rightarrow> (nat \<Rightarrow> media) \<Rightarrow> world \<Rightarrow> (error + media) \<times> world" where
  "media_create e mk w =
     (let m = mk (db_next_id (db w)) in
      case perform e (MediaCreate (m_album_id m)) w of
        (Some err, w1) \<Rightarrow> (Inl err, w1)
      | (None, w1) \<Rightarrow>
          if \<exists>x \<in> set (db_media (db w1)). m_album_id x = m_album_id m \<and> m_type x = m_type m
          then (Inl UniqueViolation, w1)
          else (Inr m, w1\<lparr>db := (db w1)\<lparr>db_media := db_media (db w1) @ [m],
                                         db_next_id := Suc (db_next_id (db w1))\<rparr>\<rparr>))"

text \<open>
  The body of the \<^verbatim>\<open>try\<close> block of \<^verbatim>\<open>downloadAndStoreAlbumCover\<close>, which the two seeders
  share line for line. \<open>client\<close> tells whether \<^verbatim>\<open>containerClient\<close> is set.
\<close>

definition downloadAndStoreAlbumCover_try ::
  "bool \<Rightarrow> env \<Rightarrow> album_data \<Rightarrow> nat \<Rightarrow> world \<Rightarrow> (error + media option) \<times> world" where
  "downloadAndStoreAlbumCover_try client e albumData albumId w =
     (case b_images albumData of
        None \<Rightarrow> (Inr None, w)
      | Some [] \<Rightarrow> (Inr None, w)
      | Some (img # others) \<Rightarrow>
          (case perform e (Download (im_url img)) w of
             (Some err, w1) \<Rightarrow> (Inl err, w1)
           | (None, w1) \<Rightarrow>
               (let imageResponse = image_resp e (im_url img);
                    fileExtension = getImageExtension (content_type imageResponse);
                    filename = uuidv4 e (length (trace w1)) @ ''.'' @ fileExtension;
                    blobName = ''album-covers/'' @ filename
                in if \<not> client then (Inl TypeError, w1)
                   else
                     (case perform e (BlobUpload blobName) w1 of
                        (Some err, w2) \<Rightarrow> (Inl err, w2)
                      | (None, w2) \<Rightarrow>
                          (case media_create e
                                  (\<lambda>n. \<lparr>m_id = n,
                                         m_album_id = albumId,
                                         m_type = ''album_cover'',
                                         m_filename = filename,
                                         m_blob_url = container_url e @ ''/'' @ blobName,
                                         m_spotify_url = Some (im_url img),
                                         m_height = Some (im_height img),
                                         m_width = Some (im_width img),
                                         m_file_size = Some (data_length imageResponse),
                                         m_mime_type = content_type imageResponse\<rparr>) w2 of
                             (Inl err, w3) \<Rightarrow> (Inl err, w3)
                           | (Inr m, w3) \<Rightarrow> (Inr (Some m), w3))))))"

text \<open>\<^verbatim>\<open>SpotifySeeder.downloadAndStoreAlbumCover\<close>: the \<^verbatim>\<open>catch\<close> logs and returns null.\<close>

definition downloadAndStoreAlbumCover ::
  "config \<Rightarrow> env \<Rightarrow> album_data \<Rightarrow> nat \<Rightarrow> world \<Rightarrow> (error + media option) \<times> world" where
  "downloadAndStoreAlbumCover cfg e albumData albumId w =
     (if \<not> containerClient cfg then (Inr None, w)
      else
        (case downloadAndStoreAlbumCover_try True e albumData albumId w of
           (Inl err, w1) \<Rightarrow> (Inr None, log_error (LogCoverError err) w1)
         | (Inr m, w1) \<Rightarrow> (Inr m, w1)))"

text \<open>\<^verbatim>\<open>AlbumCoverSeeder.downloadAndStoreAlbumCover\<close>: the \<^verbatim>\<open>catch\<close> logs and throws again.\<close>

definition cover_downloadAndStoreAlbumCover ::
  "config \<Rightarrow> env \<Rightarrow> album_data \<Rightarrow> nat \<Rightarrow> world \<Rightarrow> (error + media option) \<times> world" where
  "cover_downloadAndStoreAlbumCover cfg e albumData albumId w =
     (case downloadAndStoreAlbumCover_try (containerClient cfg) e albumData albumId w of
        (Inl err, w1) \<Rightarrow> (Inl err, log_error (LogCoverError err) w1)
      | (Inr m, w1) \<Rightarrow> (Inr m, w1))"

subsection \<open>\<^verbatim>\<open>SpotifySeeder.processTracks\<close>\<close>

text \<open>\<^verbatim>\<open>processedData\<close>: two \<^verbatim>\<open>Map\<close>s keyed by Spotify id, the tracks, the playlist.\<close>

record processed_data =
  pd_artists :: "string \<rightharpoonup> artist"
  pd_albums :: "string \<rightharpoonup> album"
  pd_tracks :: "track list"
  pd_playlist :: "playlist option"

text \<open>\<^verbatim>\<open>for (const artist of track.artists)\<close>\<close>

fun artists_loop ::
  "env \<Rightarrow> artist_data list \<Rightarrow> nat list \<Rightarrow> processed_data \<Rightarrow> world
     \<Rightarrow> (error + nat list \<times> processed_data) \<times> world" where
  "artists_loop e [] artistIds processedData w = (Inr (artistIds, processedData), w)"
| "artists_loop e (artist # rest) artistIds processedData w =
     (case upsertArtist e artist w of
        (Inl err, w1) \<Rightarrow> (Inl err, w1)
      | (Inr processedArtist, w1) \<Rightarrow>
          artists_loop e rest (artistIds @ [ar_id processedArtist])
            (processedData\<lparr>pd_artists := (pd_artists processedData)(a_id artist \<mapsto> processedArtist)\<rparr>)
            w1)"

text \<open>
  One pass of the loop over the tracks, for the item at index \<open>i\<close> of \<open>n\<close>. The album is put
  into \<^verbatim>\<open>processedData.albums\<close> before \<^verbatim>\<open>processedData.albums.has(albumKey)\<close> is asked.
\<close>

definition process_item ::
  "config \<Rightarrow> env \<Rightarrow> nat \<Rightarrow> nat \<Rightarrow> track_item \<Rightarrow> processed_data \<Rightarrow> world
     \<Rightarrow> (error + processed_data) \<times> world" where
  "process_item cfg e n i trackItem processedData w =
     (let track = ti_track trackItem in
      case artists_loop e (t_artists track) [] processedData w of
        (Inl err, w1) \<Rightarrow> (Inl err, w1)
      | (Inr (artistIds, pd1), w1) \<Rightarrow>
          (case upsertAlbum e (t_album track) w1 of
             (Inl err, w2) \<Rightarrow> (Inl err, w2)
           | (Inr processedAlbum, w2) \<Rightarrow>
               (let pd2 = pd1\<lparr>pd_albums := (pd_albums pd1)(b_id (t_album track) \<mapsto> processedAlbum)\<rparr>;
                    albumKey = b_id (t_album track)
                in case (if pd_albums pd2 albumKey = None
                         then downloadAndStoreAlbumCover cfg e (t_album track) (al_id processedAlbum) w2
                         else (Inr None, w2)) of
                     (Inl err, w3) \<Rightarrow> (Inl err, w3)
                   | (Inr cover, w3) \<Rightarrow>
                       (case createAlbumArtistRelations e (al_id processedAlbum) artistIds w3 of
                          (Inl err, w4) \<Rightarrow> (Inl err, w4)
                        | (Inr u, w4) \<Rightarrow>
                            (case upsertTrack e track (al_id processedAlbum) w4 of
                               (Inl err, w5) \<Rightarrow> (Inl err, w5)
                             | (Inr processedTrack, w5) \<Rightarrow>
                                 (case createTrackArtistRelations e (tr_id processedTrack) artistIds w5 of
                                    (Inl err, w6) \<Rightarrow> (Inl err, w6)
                                  | (Inr u', w6) \<Rightarrow>
                                      (Inr (pd2\<lparr>pd_tracks := pd_tracks pd2 @ [processedTrack]\<rparr>),
                                       if i < n - 1 then sleep RATE_LIMIT_DELAY w6 else w6)))))))"

text \<open>\<^verbatim>\<open>for (let i = 0; i < tracks.length; i++)\<close>, with no \<^verbatim>\<open>try\<close> inside the loop.\<close>

fun tracks_loop ::
  "config \<Rightarrow> env \<Rightarrow> nat \<Rightarrow> track_item list \<Rightarrow> nat \<Rightarrow> processed_data \<Rightarrow> world
     \<Rightarrow> (error + processed_data) \<times> world" where
  "tracks_loop cfg e n [] i processedData w = (Inr processedData, w)"
| "tracks_loop cfg e n (trackItem # rest) i processedData w =
     (case process_item cfg e n i trackItem processedData w of
        (Inl err, w1) \<Rightarrow> (Inl err, w1)
      | (Inr pd1, w1) \<Rightarrow> tracks_loop cfg e n rest (i + 1) pd1 w1)"

definition processTracks_try ::
  "config \<Rightarrow> env \<Rightarrow> playlist_data \<Rightarrow> world \<Rightarrow> (error + processed_data) \<times> world" where
  "processTracks_try cfg e playlist w =
     (let tracks = p_tracks_items playlist;
          processedData = \<lparr>pd_artists = Map.empty, pd_albums = Map.empty,
                           pd_tracks = [], pd_playlist = None\<rparr>
      in case upsertPlaylist e playlist w of
           (Inl err, w1) \<Rightarrow> (Inl err, w1)
         | (Inr pl, w1) \<Rightarrow>
             (case tracks_loop cfg e (length tracks) tracks 0
                     (processedData\<lparr>pd_playlist := Some pl\<rparr>) w1 of
                (Inl err, w2) \<Rightarrow> (Inl err, w2)
              | (Inr pd1, w2) \<Rightarrow>
                  (case createPlaylistTrackRelations e (pl_id pl) tracks
                          (case tracks of [] \<Rightarrow> None | t # ts \<Rightarrow> Some (ti_added_at t)) w2 of
                     (Inl err, w3) \<Rightarrow> (Inl err, w3)
                   | (Inr u, w3) \<Rightarrow> (Inr pd1, w3))))"

definition processTracks ::
  "config \<Rightarrow> env \<Rightarrow> playlist_data \<Rightarrow> world \<Rightarrow> (error + processed_data) \<times> world" where
  "processTracks cfg e playlist w =
     (case processTracks_try cfg e playlist w of
        (Inl err, w1) \<Rightarrow> (Inl err, log_error (LogProcessTracksError err) w1)
      | (Inr pd, w1) \<Rightarrow> (Inr pd, w1))"

subsection \<open>\<^verbatim>\<open>SpotifySeeder.seedDatabase\<close> and \<^verbatim>\<open>main\<close>\<close>

definition seedDatabase ::
  "config \<Rightarrow> env \<Rightarrow> world \<Rightarrow> ((error + processed_data) \<times> world) option" where
  "seedDatabase cfg e w =
     (case fetchPlaylist e PLAYLIST_ID 100 w of
        None \<Rightarrow> None
      | Some (Inl err, w1) \<Rightarrow> Some (Inl err, log_error (LogSeedingError err) w1)
      | Some (Inr playlist, w1) \<Rightarrow>
          (case processTracks cfg e playlist w1 of
             (Inl err, w2) \<Rightarrow> Some (Inl err, log_error (LogSeedingError err) w2)
           | (Inr pd, w2) \<Rightarrow> Some (Inr pd, w2)))"

text \<open>The module's \<^verbatim>\<open>ensureContainerExists\<close>: its \<^verbatim>\<open>catch\<close> logs and goes on.\<close>

definition ensureContainerExists :: "config \<Rightarrow> env \<Rightarrow> world \<Rightarrow> world" where
  "ensureContainerExists cfg e w =
     (if \<not> containerClient cfg then w
      else
        (case perform e ContainerExists w of
           (Some err, w1) \<Rightarrow> log_error (LogEnsureContainerError err) w1
         | (None, w1) \<Rightarrow>
             if container_exists e then w1
             else
               (case perform e ContainerCreate w1 of
                  (Some err, w2) \<Rightarrow> log_error (LogEnsureContainerError err) w2
                | (None, w2) \<Rightarrow> w2)))"

text \<open>
  How the script ends: \<open>Exit c\<close> is \<^verbatim>\<open>process.exit(c)\<close>, which ends the process at once (the
  \<^verbatim>\<open>finally\<close> block is not run); \<open>Returned\<close> is the normal end of \<^verbatim>\<open>main\<close>; an error
  thrown by the \<^verbatim>\<open>finally\<close> block rejects the promise that nobody awaits.
\<close>

datatype outcome = Returned | Exit nat | Rejected error

text \<open>\<^verbatim>\<open>new SpotifySeeder()\<close>: the constructor starts with no token.\<close>

definition new_SpotifySeeder :: "world \<Rightarrow> world" where
  "new_SpotifySeeder w = w\<lparr>accessToken := None, tokenExpiry := None\<rparr>"

definition main :: "config \<Rightarrow> env \<Rightarrow> world \<Rightarrow> (outcome \<times> world) option" where
  "main cfg e w =
     (if \<not> truthy (SPOTIFY_CLIENT_ID cfg) \<or> \<not> truthy (SPOTIFY_CLIENT_SECRET cfg)
      then Some (Exit 1, log_error LogMissingCredentials w)
      else if \<not> truthy (DATABASE_URL cfg)
      then Some (Exit 1, log_error LogMissingDatabaseUrl w)
      else
        (case perform e DbConnect (new_SpotifySeeder w) of
           (Some err, w1) \<Rightarrow> Some (Exit 1, log_error (LogScriptError err) w1)
         | (None, w1) \<Rightarrow>
             (case seedDatabase cfg e (ensureContainerExists cfg e w1) of
                None \<Rightarrow> None
              | Some (Inl err, w2) \<Rightarrow> Some (Exit 1, log_error (LogScriptError err) w2)
              | Some (Inr pd, w2) \<Rightarrow>
                  (case perform e DbDisconnect w2 of
                     (Some err, w3) \<Rightarrow> Some (Rejected err, w3)
                   | (None, w3) \<Rightarrow> Some (Returned, w3)))))"

subsection \<open>\<^verbatim>\<open>AlbumCoverSeeder\<close>\<close>

text \<open>\<^verbatim>\<open>fetchAlbumFromSpotify\<close>: an error whose response status is 404 gives null.\<close>

definition fetchAlbumFromSpotify ::
  "env \<Rightarrow> string \<Rightarrow> world \<Rightarrow> (error + album_data option) \<times> world" where
  "fetchAlbumFromSpotify e spotifyId w =
     (case (case getAccessToken e w of
              (Inl err, w1) \<Rightarrow> (Inl err, w1)
            | (Inr token, w1) \<Rightarrow>
                (case perform e (GetAlbum spotifyId) w1 of
                   (Some err, w2) \<Rightarrow> (Inl err, w2)
                 | (None, w2) \<Rightarrow> (Inr (Some (album_resp e spotifyId)), w2))) of
        (Inl err, w3) \<Rightarrow> if err = HttpStatus 404 then (Inr None, w3) else (Inl err, w3)
      | (Inr a, w3) \<Rightarrow> (Inr a, w3))"

definition bump_skipped :: "world \<Rightarrow> world" where
  "bump_skipped w = w\<lparr>seeder_stats := (seeder_stats w)\<lparr>st_skipped := st_skipped (seeder_stats w) + 1\<rparr>\<rparr>"

definition bump_success :: "world \<Rightarrow> world" where
  "bump_success w = w\<lparr>seeder_stats := (seeder_stats w)\<lparr>st_success := st_success (seeder_stats w) + 1\<rparr>\<rparr>"

definition bump_processed :: "world \<Rightarrow> world" where
  "bump_processed w =
     w\<lparr>seeder_stats := (seeder_stats w)\<lparr>st_processed := st_processed (seeder_stats w) + 1\<rparr>\<rparr>"

text \<open>\<^verbatim>\<open>this.stats.failed++; this.stats.errors.push(...)\<close>\<close>

definition record_failure :: "stat_error \<Rightarrow> world \<Rightarrow> world" where
  "record_failure x w =
     w\<lparr>seeder_stats := (seeder_stats w)\<lparr>st_failed := st_failed (seeder_stats w) + 1,
                                         st_errors := st_errors (seeder_stats w) @ [x]\<rparr>\<rparr>"

definition processAlbum_try :: "config \<Rightarrow> env \<Rightarrow> album \<Rightarrow> world \<Rightarrow> (error + unit) \<times> world" where
  "processAlbum_try cfg e album w =
     (case perform e (MediaFindFirst (al_id album)) w of
        (Some err, w1) \<Rightarrow> (Inl err, w1)
      | (None, w1) \<Rightarrow>
          (case find (is_album_cover (al_id album)) (db_media (db w1)) of
             Some existingMedia \<Rightarrow> (Inr (), bump_skipped w1)
           | None \<Rightarrow>
               (case fetchAlbumFromSpotify e (al_spotify_id album) w1 of
                  (Inl err, w2) \<Rightarrow> (Inl err, w2)
                | (Inr None, w2) \<Rightarrow>
                    (Inr (), record_failure (SpotifyFetchFailed (al_name album)) w2)
                | (Inr (Some spotifyAlbum), w2) \<Rightarrow>
                    (case cover_downloadAndStoreAlbumCover cfg e spotifyAlbum (al_id album) w2 of
                       (Inl err, w3) \<Rightarrow> (Inl err, w3)
                     | (Inr (Some m), w3) \<Rightarrow> (Inr (), bump_success w3)
                     | (Inr None, w3) \<Rightarrow>
                         (Inr (), record_failure (NoCoverAvailable (al_name album)) w3)))))"

definition processAlbum :: "config \<Rightarrow> env \<Rightarrow> album \<Rightarrow> world \<Rightarrow> (error + unit) \<times> world" where
  "processAlbum cfg e album w =
     (case processAlbum_try cfg e album w of
        (Inl err, w1) \<Rightarrow>
          (Inr (), record_failure (Raised (al_name album) err)
                     (log_error (LogProcessAlbumError (al_name album) err) w1))
      | (Inr u, w1) \<Rightarrow> (Inr u, w1))"

text \<open>\<^verbatim>\<open>prisma.album.findMany({orderBy: {name: 'asc'}})\<close>\<close>

definition getAlbumsFromDatabase :: "env \<Rightarrow> world \<Rightarrow> (error + album list) \<times> world" where
  "getAlbumsFromDatabase e w =
     (case perform e AlbumFindMany w of
        (Some err, w1) \<Rightarrow> (Inl err, log_error (LogFetchAlbumsError err) w1)
      | (None, w1) \<Rightarrow> (Inr (sort_key al_name (db_albums (db w1))), w1))"

text \<open>The method \<^verbatim>\<open>ensureContainerExists\<close> of the cover seeder: its \<^verbatim>\<open>catch\<close> throws again.\<close>

definition cover_ensureContainerExists :: "config \<Rightarrow> env \<Rightarrow> world \<Rightarrow> (error + unit) \<times> world" where
  "cover_ensureContainerExists cfg e w =
     (case (if \<not> containerClient cfg then (Inl TypeError, w)
            else
              (case perform e ContainerExists w of
                 (Some err, w1) \<Rightarrow> (Inl err, w1)
               | (None, w1) \<Rightarrow>
                   if container_exists e then (Inr (), w1)
                   else
                     (case perform e ContainerCreate w1 of
                        (Some err, w2) \<Rightarrow> (Inl err, w2)
                      | (None, w2) \<Rightarrow> (Inr (), w2)))) of
        (Inl err, w3) \<Rightarrow> (Inl err, log_error (LogEnsureContainerError err) w3)
      | (Inr u, w3) \<Rightarrow> (Inr u, w3))"

text \<open>\<^verbatim>\<open>for (let i = 0; i < albums.length; i++)\<close> of \<^verbatim>\<open>processAllAlbums\<close>\<close>

fun albums_loop ::
  "config \<Rightarrow> env \<Rightarrow> nat \<Rightarrow> album list \<Rightarrow> nat \<Rightarrow> world \<Rightarrow> (error + unit) \<times> world" where
  "albums_loop cfg e n [] i w = (Inr (), w)"
| "albums_loop cfg e n (album # rest) i w =
     (case processAlbum cfg e album w of
        (Inl err, w1) \<Rightarrow> (Inl err, w1)
      | (Inr u, w1) \<Rightarrow>
          albums_loop cfg e n rest (i + 1)
            (if i < n - 1 then sleep RATE_LIMIT_DELAY (bump_processed w1) else bump_processed w1))"

definition processAllAlbums :: "config \<Rightarrow> env \<Rightarrow> world \<Rightarrow> (error + unit) \<times> world" where
  "processAllAlbums cfg e w =
     (case (case cover_ensureContainerExists cfg e w of
              (Inl err, w1) \<Rightarrow> (Inl err, w1)
            | (Inr u, w1) \<Rightarrow>
                (case getAlbumsFromDatabase e w1 of
                   (Inl err, w2) \<Rightarrow> (Inl err, w2)
                 | (Inr albums, w2) \<Rightarrow>
                     (let w3 = w2\<lparr>seeder_stats := (seeder_stats w2)\<lparr>st_total := length albums\<rparr>\<rparr>
                      in if length albums = 0 then (Inr (), w3)
                         else albums_loop cfg e (length albums) albums 0 w3))) of
        (Inl err, w4) \<Rightarrow> (Inl err, log_error (LogCoverSeedingError err) w4)
      | (Inr u, w4) \<Rightarrow> (Inr u, w4))"

text \<open>
  The cover seeder's script: the module itself exits when the storage connection string is
  not set, before \<^verbatim>\<open>main\<close> is reached. \<^verbatim>\<open>new AlbumCoverSeeder()\<close> starts with no token and
  all counters at 0.
\<close>

definition new_AlbumCoverSeeder :: "world \<Rightarrow> world" where
  "new_AlbumCoverSeeder w =
     w\<lparr>accessToken := None, tokenExpiry := None,
       seeder_stats := \<lparr>st_total = 0, st_processed = 0, st_success = 0, st_skipped = 0,
                        st_failed = 0, st_errors = []\<rparr>\<rparr>"

definition cover_main :: "config \<Rightarrow> env \<Rightarrow> world \<Rightarrow> outcome \<times> world" where
  "cover_main cfg e w =
     (if \<not> truthy (AZURE_STORAGE_CONNECTION_STRING cfg) then (Exit 1, w)
      else if \<not> truthy (SPOTIFY_CLIENT_ID cfg) \<or> \<not> truthy (SPOTIFY_CLIENT_SECRET cfg)
      then (Exit 1, log_error LogMissingCredentials w)
      else if \<not> truthy (DATABASE_URL cfg)
      then (Exit 1, log_error LogMissingDatabaseUrl w)
      else
        (case perform e DbConnect (new_AlbumCoverSeeder w) of
           (Some err, w1) \<Rightarrow> (Exit 1, log_error (LogScriptError err) w1)
         | (None, w1) \<Rightarrow>
             (case processAllAlbums cfg e w1 of
                (Inl err, w2) \<Rightarrow> (Exit 1, log_error (LogScriptError err) w2)
              | (Inr u, w2) \<Rightarrow>
                  (case perform e DbDisconnect w2 of
                     (Some err, w3) \<Rightarrow> (Rejected err, w3)
                   | (None, w3) \<Rightarrow> (Returned, w3)))))"

section \<open>Specification functions and example data\<close>

text \<open>The offsets \<open>0, limit, 2 * limit, \<dots>\<close> below \<open>totalTracks\<close>, in closed form.\<close>

definition page_offsets :: "nat \<Rightarrow> nat \<Rightarrow> nat list" where
  "page_offsets limit totalTracks =
     map (\<lambda>k. k * limit) [0 ..< (totalTracks + limit - 1) div limit]"

definition offsets_from :: "nat \<Rightarrow> nat \<Rightarrow> nat \<Rightarrow> nat list" where
  "offsets_from limit totalTracks offset =
     map (\<lambda>k. offset + k * limit) [0 ..< (totalTracks - offset + limit - 1) div limit]"

text \<open>\<open>intersperse d xs\<close> puts \<open>d\<close> between every two neighbours of \<open>xs\<close>, and nowhere else.\<close>

fun intersperse :: "'a \<Rightarrow> 'a list \<Rightarrow> 'a list" where
  "intersperse d [] = []"
| "intersperse d [x] = [x]"
| "intersperse d (x # y # ys) = x # d # intersperse d (y # ys)"

text \<open>
  A small world to run the seeders in: a playlist of three tracks, two by artist A on album
  X and one by artist B on album Y; nothing fails; the store is empty.
\<close>

definition demo_artist :: "string \<Rightarrow> artist_data" where
  "demo_artist n = \<lparr>a_id = n, a_name = n, a_spotify_url = Undefined, a_popularity = Undefined\<rparr>"

definition demo_album :: "string \<Rightarrow> album_data" where
  "demo_album n =
     \<lparr>b_id = n, b_name = n, b_album_type = ''album'', b_total_tracks = 2,
      b_release_date = ''2020'', b_release_date_precision = ''year'', b_spotify_url = Undefined,
      b_images = Some [\<lparr>im_url = ''http://img/'' @ n, im_width = 640, im_height = 640\<rparr>]\<rparr>"

definition demo_track :: "string \<Rightarrow> string \<Rightarrow> string \<Rightarrow> track_data" where
  "demo_track n artistName albumName =
     \<lparr>t_id = n, t_name = n, t_track_number = 1, t_disc_number = 1, t_duration_ms = 1000,
      t_popularity = Undefined, t_preview_url = Null, t_spotify_url = Undefined,
      t_isrc = Undefined, t_explicit = False, t_available_markets = None,
      t_artists = [demo_artist artistName], t_album = demo_album albumName\<rparr>"

definition demo_item :: "string \<Rightarrow> string \<Rightarrow> string \<Rightarrow> track_item" where
  "demo_item n artistName albumName =
     \<lparr>ti_track = demo_track n artistName albumName, ti_added_at = ''2024-01-01'',
      ti_added_by = None\<rparr>"

definition demo_items :: "track_item list" where
  "demo_items = [demo_item ''t1'' ''A'' ''X'', demo_item ''t2'' ''A'' ''X'', demo_item ''t3'' ''B'' ''Y'']"

definition demo_playlist :: "string \<Rightarrow> playlist_data" where
  "demo_playlist n =
     \<lparr>p_id = n, p_name = ''Mix'', p_description = Null, p_owner_id = ''o'',
      p_owner_name = Val ''Owner'', p_owner_url = Undefined, p_public = Val True,
      p_collaborative = False, p_spotify_url = Undefined, p_tracks_total = 3,
      p_tracks_items = []\<rparr>"

definition demo_env :: env where
  "demo_env =
     \<lparr>fault = (\<lambda>n op. None),
      clock = (\<lambda>n. 1000 * n),
      token_resp = (\<lambda>n. \<lparr>access_token = ''tok'', expires_in = 3600\<rparr>),
      playlist_resp = demo_playlist,
      page_resp = (\<lambda>p lim off. take lim (drop off demo_items)),
      album_resp = demo_album,
      image_resp = (\<lambda>u. \<lparr>content_type = Some ''image/png'', data_length = 10\<rparr>),
      container_exists = True,
      container_url = ''https://blobs/album-covers'',
      uuidv4 = (\<lambda>n. ''uuid'')\<rparr>"

definition demo_config :: config where
  "demo_config =
     \<lparr>SPOTIFY_CLIENT_ID = Some ''id'', SPOTIFY_CLIENT_SECRET = Some ''secret'',
      DATABASE_URL = Some ''postgres://db'', AZURE_STORAGE_CONNECTION_STRING = Some ''azure'',
      storage_init_ok = True\<rparr>"

definition empty_store :: store where
  "empty_store =
     \<lparr>db_artists = [], db_albums = [], db_tracks = [], db_album_artists = [],
      db_track_artists = [], db_playlists = [], db_playlist_tracks = [], db_media = [],
      db_next_id = 0\<rparr>"

definition world0 :: world where
  "world0 =
     \<lparr>trace = [], errlog = [], db = empty_store, accessToken = None, tokenExpiry = None,
      seeder_stats = \<lparr>st_total = 0, st_processed = 0, st_success = 0, st_skipped = 0,
                       st_failed = 0, st_errors = []\<rparr>\<rparr>"

text \<open>
  The row that links a playlist to a stored track at position \<open>j\<close>, and the track of the
  store that an item of the playlist refers to.
\<close>

definition found_track :: "track list \<Rightarrow> track_item \<Rightarrow> track option" where
  "found_track tbl it = find (\<lambda>r. tr_spotify_id r = t_id (ti_track it)) tbl"

definition link_row :: "nat \<Rightarrow> nat \<Rightarrow> track_item \<Rightarrow> track \<Rightarrow> playlist_track" where
  "link_row playlistId j it tr =
     \<lparr>pt_playlist_id = playlistId, pt_track_id = tr_id tr, pt_position = j,
      pt_added_at = ti_added_at it, pt_added_by_id = col (added_by_id it),
      pt_added_by_name = col (added_by_name it)\<rparr>"

definition linked_rows :: "track list \<Rightarrow> nat \<Rightarrow> nat \<Rightarrow> track_item list \<Rightarrow> playlist_track list" where
  "linked_rows tbl playlistId k items =
     concat (map (\<lambda>(j, it). case found_track tbl it of
                               None \<Rightarrow> []
                             | Some tr \<Rightarrow> [link_row playlistId j it tr])
               (enumerate k items))"

text \<open>A store that holds the tracks t1 and t2, with the local ids 10 and 11.\<close>

definition demo_track_row :: "nat \<Rightarrow> string \<Rightarrow> track" where
  "demo_track_row n s =
     \<lparr>tr_id = n, tr_spotify_id = s, tr_name = s, tr_album_id = 1, tr_track_number = 1,
      tr_disc_number = 1, tr_duration_ms = 1000, tr_popularity = None, tr_preview_url = None,
      tr_spotify_url = None, tr_isrc = None, tr_explicit = False, tr_available_markets = None,
      tr_created_at = 0, tr_updated_at = 0\<rparr>"

definition world_tracks :: world where
  "world_tracks =
     world0\<lparr>db := empty_store\<lparr>db_tracks := [demo_track_row 10 ''t1'', demo_track_row 11 ''t2'']\<rparr>\<rparr>"

text \<open>
  A store in which album X (local id 1) already has a cover, and a world in which every
  image download fails.
\<close>

definition demo_album_row :: "nat \<Rightarrow> string \<Rightarrow> album" where
  "demo_album_row n s =
     \<lparr>al_id = n, al_spotify_id = s, al_name = s, al_album_type = ''album'', al_total_tracks = 2,
      al_release_date = ''2020'', al_release_date_precision = ''year'', al_spotify_url = None,
      al_created_at = 0, al_updated_at = 0\<rparr>"

definition demo_cover :: "nat \<Rightarrow> media" where
  "demo_cover albumId =
     \<lparr>m_id = 2, m_album_id = albumId, m_type = ''album_cover'', m_filename = ''old.png'',
      m_blob_url = ''https://blobs/album-covers/album-covers/old.png'',
      m_spotify_url = None, m_height = None, m_width = None, m_file_size = None,
      m_mime_type = None\<rparr>"

definition world_cover :: world where
  "world_cover =
     world0\<lparr>db := empty_store\<lparr>db_albums := [demo_album_row 1 ''X''],
                                db_media := [demo_cover 1], db_next_id := 3\<rparr>\<rparr>"

definition world_album :: world where
  "world_album = world0\<lparr>db := empty_store\<lparr>db_albums := [demo_album_row 1 ''X''], db_next_id := 3\<rparr>\<rparr>"

definition env_no_download :: env where
  "env_no_download =
     demo_env\<lparr>fault := (\<lambda>n op. case op of Download u \<Rightarrow> Some NoResponse | _ \<Rightarrow> None)\<rparr>"

text \<open>
  The playlist as \<^verbatim>\<open>fetchPlaylist\<close> returns it, its first track alone, and a world in which
  the store refuses to write track t1.
\<close>

definition demo_fetched :: playlist_data where
  "demo_fetched = (demo_playlist ''p'')\<lparr>p_tracks_items := demo_items\<rparr>"

definition demo_single :: playlist_data where
  "demo_single =
     (demo_playlist ''p'')\<lparr>p_tracks_items := [demo_item ''t1'' ''A'' ''X''], p_tracks_total := 1\<rparr>"

definition env_bad_track :: env where
  "env_bad_track =
     demo_env\<lparr>fault := (\<lambda>n op. if op = TrackUpsert ''t1'' then Some StoreError else None)\<rparr>"

text \<open>The operations that archive a cover.\<close>

fun is_cover_op :: "io_op \<Rightarrow> bool" where
  "is_cover_op (Download u) = True"
| "is_cover_op (BlobUpload b) = True"
| "is_cover_op (MediaCreate a) = True"
| "is_cover_op _ = False"

text \<open>The operations on the tables of the relational store.\<close>

fun is_store_op :: "io_op \<Rightarrow> bool" where
  "is_store_op (PlaylistUpsert s) = True"
| "is_store_op (ArtistUpsert s) = True"
| "is_store_op (AlbumUpsert s) = True"
| "is_store_op (TrackUpsert s) = True"
| "is_store_op (AlbumArtistUpsert a b) = True"
| "is_store_op (TrackArtistUpsert a b) = True"
| "is_store_op (TrackFindUnique s) = True"
| "is_store_op (PlaylistTrackUpsert a b c) = True"
| "is_store_op (MediaFindFirst a) = True"
| "is_store_op (MediaCreate a) = True"
| "is_store_op AlbumFindMany = True"
| "is_store_op _ = False"

text \<open>
  A world whose token endpoint answers 401, a world whose playlist has 250 tracks and
  whose second page cannot be fetched, and a configuration without client secret.
\<close>

definition env_no_auth :: env where
  "env_no_auth =
     demo_env\<lparr>fault := (\<lambda>n op. if op = TokenExchange then Some (HttpStatus 401) else None)\<rparr>"

definition env_bad_page :: env where
  "env_bad_page =
     demo_env\<lparr>fault := (\<lambda>n op. if op = GetPlaylistTracks PLAYLIST_ID 100 100
                                  then Some (HttpStatus 500) else None),
               playlist_resp := (\<lambda>p. (demo_playlist p)\<lparr>p_tracks_total := 250\<rparr>)\<rparr>"

definition config_no_secret :: config where
  "config_no_secret = demo_config\<lparr>SPOTIFY_CLIENT_SECRET := None\<rparr>"

text \<open>The store operations that linking the items of a playlist takes, item by item.\<close>

definition link_ops :: "track list \<Rightarrow> nat \<Rightarrow> nat \<Rightarrow> track_item list \<Rightarrow> io_op list" where
  "link_ops tbl playlistId k items =
     concat (map (\<lambda>(j, it). TrackFindUnique (t_id (ti_track it)) #
                             (case found_track tbl it of
                                None \<Rightarrow> []
                              | Some tr \<Rightarrow> [PlaylistTrackUpsert playlistId (tr_id tr) j]))
               (enumerate k items))"

text \<open>The unique key of a playlist entry: playlist, track and position.\<close>

definition pt_key :: "playlist_track \<Rightarrow> nat \<times> nat \<times> nat" where
  "pt_key r = (pt_playlist_id r, pt_track_id r, pt_position r)"

text \<open>
  A store that holds album X (local id 1), its tracks t1 and t2 (local ids 10 and 11) and
  the playlist p (local id 5); and the same store after an earlier import of the playlist
  with the items t1, t2.
\<close>

definition demo_playlist_row :: "nat \<Rightarrow> string \<Rightarrow> playlist" where
  "demo_playlist_row n s =
     \<lparr>pl_id = n, pl_spotify_id = s, pl_name = ''Mix'', pl_description = None, pl_owner_id = ''o'',
      pl_owner_name = ''Owner'', pl_owner_url = None, pl_public = True, pl_collaborative = False,
      pl_total_tracks = 2, pl_spotify_url = None, pl_created_at = 0, pl_updated_at = 0\<rparr>"

definition world_linked :: world where
  "world_linked =
     world0\<lparr>db := empty_store\<lparr>db_albums := [demo_album_row 1 ''X''],
                                db_tracks := [demo_track_row 10 ''t1'', demo_track_row 11 ''t2''],
                                db_playlists := [demo_playlist_row 5 ''p''],
                                db_next_id := 12\<rparr>\<rparr>"

definition demo_entry :: "nat \<Rightarrow> nat \<Rightarrow> playlist_track" where
  "demo_entry trackId position =
     \<lparr>pt_playlist_id = 5, pt_track_id = trackId, pt_position = position,
      pt_added_at = ''2023-06-30'', pt_added_by_id = None, pt_added_by_name = None\<rparr>"

definition world_relinked :: world where
  "world_relinked =
     world_linked\<lparr>db := (db world_linked)\<lparr>db_playlist_tracks := [demo_entry 10 1, demo_entry 11 2],
                                              db_next_id := 14\<rparr>\<rparr>"

section \<open>Properties\<close>

subsection \<open>The token cache\<close>

lemma cachedToken_Some_iff:
  "cachedToken e w = Some t \<longleftrightarrow>
     (t \<noteq> [] \<and> accessToken w = Some t \<and> (\<exists>x. tokenExpiry w = Some x \<and> now e w < x))"
  by (auto simp: cachedToken_def split: option.splits)

lemma getAccessToken_trace:
  "trace (snd (getAccessToken e w)) =
     trace w @ (if cachedToken e w = None then [TokenExchange] else [])"
  by (simp add: getAccessToken_def perform_def log_error_def Let_def split: option.splits)

lemma getAccessToken_ok:
  "fault e (length (trace w)) TokenExchange = None \<Longrightarrow> \<exists>t. fst (getAccessToken e w) = Inr t"
  by (simp add: getAccessToken_def perform_def Let_def split: option.splits)

text \<open>
  C7. \<^verbatim>\<open>getAccessToken\<close>: when a token is cached (a non-empty string) and the current time is
  strictly before the cached expiry, the cached token is returned and nothing else happens:
  the world, and so the trace of requests, is unchanged. Otherwise exactly one
  client-credential exchange is issued; if it succeeds the returned token is cached and
  the expiry is set to the time at that moment plus \<^verbatim>\<open>expires_in\<close> seconds (in milliseconds),
  and if it fails the error is thrown and the cache is left as it was.
\<close>

theorem getAccessToken_cached_or_exchanged:
  "(\<forall>t x. accessToken w = Some t \<and> t \<noteq> [] \<and> tokenExpiry w = Some x \<and> now e w < x
         \<longrightarrow> getAccessToken e w = (Inr t, w))
   \<and> ((\<nexists>t x. accessToken w = Some t \<and> t \<noteq> [] \<and> tokenExpiry w = Some x \<and> now e w < x)
         \<longrightarrow> (\<exists>w'. snd (getAccessToken e w) = w' \<and> trace w' = trace w @ [TokenExchange]
               \<and> (case fault e (length (trace w)) TokenExchange of
                     Some err \<Rightarrow>
                       fst (getAccessToken e w) = Inl err
                       \<and> accessToken w' = accessToken w \<and> tokenExpiry w' = tokenExpiry w
                   | None \<Rightarrow>
                       fst (getAccessToken e w) = Inr (access_token (token_resp e (length (trace w))))
                       \<and> accessToken w' = Some (access_token (token_resp e (length (trace w))))
                       \<and> tokenExpiry w' =
                           Some (now e w' + expires_in (token_resp e (length (trace w))) * 1000))))"
proof (intro conjI allI impI)
  fix t x
  assume "accessToken w = Some t \<and> t \<noteq> [] \<and> tokenExpiry w = Some x \<and> now e w < x"
  then have "cachedToken e w = Some t" by (simp add: cachedToken_Some_iff)
  then show "getAccessToken e w = (Inr t, w)" by (simp add: getAccessToken_def)
next
  assume no: "\<nexists>t x. accessToken w = Some t \<and> t \<noteq> [] \<and> tokenExpiry w = Some x \<and> now e w < x"
  have "cachedToken e w = None"
  proof (cases "cachedToken e w")
    case None
    then show ?thesis .
  next
    case (Some t)
    have "t \<noteq> [] \<and> accessToken w = Some t \<and> (\<exists>x. tokenExpiry w = Some x \<and> now e w < x)"
      using Some cachedToken_Some_iff[of e w t] by blast
    with no show ?thesis by blast
  qed
  then show "\<exists>w'. snd (getAccessToken e w) = w' \<and> trace w' = trace w @ [TokenExchange]
               \<and> (case fault e (length (trace w)) TokenExchange of
                     Some err \<Rightarrow>
                       fst (getAccessToken e w) = Inl err
                       \<and> accessToken w' = accessToken w \<and> tokenExpiry w' = tokenExpiry w
                   | None \<Rightarrow>
                       fst (getAccessToken e w) = Inr (access_token (token_resp e (length (trace w))))
                       \<and> accessToken w' = Some (access_token (token_resp e (length (trace w))))
                       \<and> tokenExpiry w' =
                           Some (now e w' + expires_in (token_resp e (length (trace w))) * 1000))"
    by (simp add: getAccessToken_def perform_def log_error_def now_def Let_def split: option.splits)
qed

theorem getAccessToken_cached_or_exchanged_witness:
  "getAccessToken demo_env (world0\<lparr>accessToken := Some ''tok'', tokenExpiry := Some 5000\<rparr>)
     = (Inr ''tok'', world0\<lparr>accessToken := Some ''tok'', tokenExpiry := Some 5000\<rparr>)
   \<and> fst (getAccessToken demo_env (world0\<lparr>accessToken := Some ''old'', tokenExpiry := Some 0\<rparr>))
       = Inr ''tok''
   \<and> trace (snd (getAccessToken demo_env (world0\<lparr>accessToken := Some ''old'', tokenExpiry := Some 0\<rparr>)))
       = [TokenExchange]
   \<and> tokenExpiry (snd (getAccessToken demo_env (world0\<lparr>accessToken := Some ''old'', tokenExpiry := Some 0\<rparr>)))
       = Some 3601000"
  using getAccessToken_cached_or_exchanged
          [of "world0\<lparr>accessToken := Some ''tok'', tokenExpiry := Some 5000\<rparr>" demo_env]
        getAccessToken_cached_or_exchanged
          [of "world0\<lparr>accessToken := Some ''old'', tokenExpiry := Some 0\<rparr>" demo_env]
  by (simp add: demo_env_def world0_def now_def)

subsection \<open>The paged fetch\<close>

lemma offsets_from_done: "totalTracks \<le> offset \<Longrightarrow> 0 < limit \<Longrightarrow> offsets_from limit totalTracks offset = []"
  by (simp add: offsets_from_def)

lemma pages_step:
  assumes "0 < (limit::nat)" "offset < totalTracks"
  shows "(totalTracks - offset + limit - 1) div limit = Suc ((totalTracks - (offset + limit) + limit - 1) div limit)"
proof (cases "limit \<le> totalTracks - offset")
  case True
  have e1: "totalTracks - offset + limit - 1 = (totalTracks - offset - 1) + limit"
    using assms by arith
  have e2: "totalTracks - (offset + limit) + limit - 1 = totalTracks - offset - 1"
    using True assms by arith
  have "((totalTracks - offset - 1) + limit) div limit = Suc ((totalTracks - offset - 1) div limit)"
    using div_add_self2[of limit "totalTracks - offset - 1"] assms(1) by simp
  then show ?thesis by (simp only: e1 e2)
next
  case False
  have a: "totalTracks - (offset + limit) + limit - 1 < limit" using False assms by arith
  have "(totalTracks - offset + limit - 1) div limit = 1"
  proof (rule div_nat_eqI)
    show "limit * 1 \<le> totalTracks - offset + limit - 1" using assms by arith
    show "totalTracks - offset + limit - 1 < limit * Suc 1" using False assms by arith
  qed
  moreover have "(totalTracks - (offset + limit) + limit - 1) div limit = 0"
    using a by (rule div_less)
  ultimately show ?thesis by simp
qed

lemma offsets_from_step:
  assumes "0 < limit" "offset < totalTracks"
  shows "offsets_from limit totalTracks offset = offset # offsets_from limit totalTracks (offset + limit)"
proof -
  define n where "n = (totalTracks - (offset + limit) + limit - 1) div limit"
  have "offsets_from limit totalTracks offset = map (\<lambda>k. offset + k * limit) [0 ..< Suc n]"
    unfolding offsets_from_def n_def by (simp only: pages_step[OF assms])
  also have "[0 ..< Suc n] = 0 # map Suc [0 ..< n]"
    by (simp only: upt_conv_Cons[of 0 "Suc n"] map_Suc_upt zero_less_Suc)
  also have "map (\<lambda>k. offset + k * limit) (0 # map Suc [0 ..< n]) =
             offset # map (\<lambda>k. (offset + limit) + k * limit) [0 ..< n]"
    by (simp add: comp_def)
  also have "map (\<lambda>k. (offset + limit) + k * limit) [0 ..< n] = offsets_from limit totalTracks (offset + limit)"
    unfolding offsets_from_def n_def ..
  finally show ?thesis .
qed

lemma intersperse_Cons: "ys \<noteq> [] \<Longrightarrow> intersperse d (x # ys) = x # d # intersperse d ys"
  by (cases ys) simp_all

lemma fetch_loop_pages:
  assumes L: "0 < limit" and ok: "\<And>n op. fault e n op = None"
  shows "fetch_loop e playlistId limit totalTracks offset allTracks w =
           Some (Inr (allTracks @ concat (map (page_resp e playlistId limit) (offsets_from limit totalTracks offset))),
                 w\<lparr>trace := trace w @ intersperse (Sleep 1000) (map (GetPlaylistTracks playlistId limit) (offsets_from limit totalTracks offset))\<rparr>)"
proof (induction "totalTracks - offset" arbitrary: offset allTracks w rule: less_induct)
  case less
  show ?case
  proof (cases "offset < totalTracks")
    case False
    then show ?thesis using L
      by (subst fetch_loop.simps) (simp add: offsets_from_done)
  next
    case True
    note step = offsets_from_step[OF L True]
    have lt: "totalTracks - (offset + limit) < totalTracks - offset" using L True by simp
    note IH = less.hyps[OF lt]
    show ?thesis
    proof (cases "offset + limit < totalTracks")
      case True2: True
      have ne: "map (GetPlaylistTracks playlistId limit) (offsets_from limit totalTracks (offset + limit)) \<noteq> []"
        using offsets_from_step[OF L True2] by simp
      show ?thesis
        by (subst fetch_loop.simps)
           (simp add: True True2 perform_def ok Let_def sleep_def RATE_LIMIT_DELAY_def IH step
                      intersperse_Cons[OF ne])
    next
      case False
      then have e: "offsets_from limit totalTracks (offset + limit) = []"
        using L by (simp add: offsets_from_done)
      show ?thesis
        by (subst fetch_loop.simps) (simp add: True False perform_def ok Let_def IH step e)
    qed
  qed
qed


lemma offsets_from_0: "offsets_from limit totalTracks 0 = page_offsets limit totalTracks"
  by (simp add: offsets_from_def page_offsets_def)

lemma page_offsets_length: 
  assumes "0 < limit"
  shows "k < length (page_offsets limit totalTracks) \<longleftrightarrow> k * limit < totalTracks"
proof -
  have "k < (totalTracks + limit - 1) div limit \<longleftrightarrow> Suc k \<le> (totalTracks + limit - 1) div limit"
    by arith
  also have "\<dots> \<longleftrightarrow> Suc k * limit \<le> totalTracks + limit - 1"
    using assms by (simp only: less_eq_div_iff_mult_less_eq)
  also have "\<dots> \<longleftrightarrow> k * limit < totalTracks"
    using assms by (simp only: mult_Suc) arith
  finally show ?thesis by (simp add: page_offsets_def)
qed

text \<open>
  C6. \<^verbatim>\<open>fetchPlaylist\<close> with a positive page size \<open>limit\<close>, when no request fails: it returns
  the playlist with the pages' items concatenated in the order of the offsets
  \<open>0, limit, 2 * limit, \<dots>\<close> below the reported total; after the token (fetched if not cached)
  and the playlist metadata, the requests it issues are exactly the page requests at those
  offsets with one \<^verbatim>\<open>setTimeout\<close> of 1000 ms between each two consecutive ones, none before
  the first and none after the last.
\<close>

theorem fetchPlaylist_pages:
  assumes L: "0 < limit" and ok: "\<forall>n op. fault e n op = None"
  shows "\<exists>w'. fetchPlaylist e playlistId limit w =
            Some (Inr ((playlist_resp e playlistId)
                        \<lparr>p_tracks_items :=
                           concat (map (page_resp e playlistId limit)
                                    (page_offsets limit (p_tracks_total (playlist_resp e playlistId)))),
                         p_tracks_total :=
                           length (concat (map (page_resp e playlistId limit)
                                    (page_offsets limit (p_tracks_total (playlist_resp e playlistId)))))\<rparr>), w')
          \<and> trace w' = trace w @ (if cachedToken e w = None then [TokenExchange] else [])
                @ [GetPlaylist playlistId]
                @ intersperse (Sleep 1000)
                    (map (GetPlaylistTracks playlistId limit)
                       (page_offsets limit (p_tracks_total (playlist_resp e playlistId))))
          \<and> (\<forall>k. k < length (page_offsets limit (p_tracks_total (playlist_resp e playlistId)))
                      \<longleftrightarrow> k * limit < p_tracks_total (playlist_resp e playlistId))
          \<and> (\<forall>k < length (page_offsets limit (p_tracks_total (playlist_resp e playlistId))).
                 page_offsets limit (p_tracks_total (playlist_resp e playlistId)) ! k = k * limit)"
proof -
  obtain r w1 where g: "getAccessToken e w = (r, w1)" by (cases "getAccessToken e w")
  obtain t where r: "r = Inr t" using getAccessToken_ok[of e w] ok g by auto
  have tr: "trace w1 = trace w @ (if cachedToken e w = None then [TokenExchange] else [])"
    using getAccessToken_trace[of e w] g by simp
  have ok': "\<And>n op. fault e n op = None" using ok by simp
  have nth: "\<forall>k < length (page_offsets limit (p_tracks_total (playlist_resp e playlistId))).
                 page_offsets limit (p_tracks_total (playlist_resp e playlistId)) ! k = k * limit"
    by (simp add: page_offsets_def)
  show ?thesis
    using nth page_offsets_length[OF L]
    by (simp add: fetchPlaylist_def g r perform_def ok' Let_def fetch_loop_pages[OF L ok']
          offsets_from_0 tr)
qed



theorem fetchPlaylist_pages_witness:
  "\<exists>w'. fetchPlaylist demo_env ''p'' 2 world0 =
          Some (Inr ((demo_playlist ''p'')\<lparr>p_tracks_items := demo_items, p_tracks_total := 3\<rparr>), w')
        \<and> trace w' = [TokenExchange, GetPlaylist ''p'',
                         GetPlaylistTracks ''p'' 2 0, Sleep 1000, GetPlaylistTracks ''p'' 2 2]"
proof -
  have h: "\<forall>n op. fault demo_env n op = None" by (simp add: demo_env_def)
  have p: "page_offsets 2 3 = [0, 2]" by code_simp
  have c: "cachedToken demo_env world0 = None" by (simp add: cachedToken_def world0_def)
  have t: "p_tracks_total (demo_playlist ''p'') = 3" "playlist_resp demo_env = demo_playlist"
    "page_resp demo_env ''p'' 2 0 = [demo_item ''t1'' ''A'' ''X'', demo_item ''t2'' ''A'' ''X'']"
    "page_resp demo_env ''p'' 2 2 = [demo_item ''t3'' ''B'' ''Y'']"
    by (simp_all add: demo_env_def demo_playlist_def demo_items_def)
  have tr: "trace world0 = []" by (simp add: world0_def)
  have n: "Suc (Suc (Suc 0)) = 3" by simp
  from fetchPlaylist_pages[of 2 demo_env "''p''" world0, OF _ h]
  obtain w' where
    "fetchPlaylist demo_env ''p'' 2 world0 =
       Some (Inr ((demo_playlist ''p'')\<lparr>p_tracks_items := demo_items, p_tracks_total := 3\<rparr>), w')"
    "trace w' = [TokenExchange, GetPlaylist ''p'',
                 GetPlaylistTracks ''p'' 2 0, Sleep 1000, GetPlaylistTracks ''p'' 2 2]"
    by (auto simp: p c t tr demo_items_def n)
  then show ?thesis by blast
qed

subsection \<open>Entity upserts\<close>

lemma find_None_filter: "find p rows = None \<Longrightarrow> filter p rows = []"
  by (induction rows) (auto split: if_splits)

lemma upsert_row_create:
  "find p rows = None \<Longrightarrow> upsert_row p u c rows n = (c n, rows @ [c n], Suc n)"
  by (simp add: upsert_row_def)

lemma upsert_row_update:
  "find p rows = Some r \<Longrightarrow> upsert_row p u c rows n = (u r, update_first p u rows, n)"
  by (simp add: upsert_row_def)

lemma filter_update_first_key:
  assumes "distinct (map k rows)" "find (\<lambda>x. k x = key) rows = Some r" "k (u r) = key"
  shows "filter (\<lambda>x. k x = key) (update_first (\<lambda>x. k x = key) u rows) = [u r]"
  using assms
proof (induction rows)
  case Nil
  then show ?case by simp
next
  case (Cons a rows)
  show ?case
  proof (cases "k a = key")
    case True
    then have ar: "a = r" using Cons.prems(2) by simp
    have "\<forall>x \<in> set rows. k x \<noteq> key"
      using Cons.prems(1) True by (auto simp: image_iff)
    then have "filter (\<lambda>x. k x = key) rows = []"
      by (simp add: filter_empty_conv)
    then show ?thesis using True Cons.prems(3) ar by simp
  next
    case False
    then show ?thesis using Cons by simp
  qed
qed

lemma filter_update_first_others:
  assumes "\<And>x. k (u x) = k x"
  shows "filter (\<lambda>x. k x \<noteq> key) (update_first (\<lambda>x. k x = key) u rows) = filter (\<lambda>x. k x \<noteq> key) rows"
  by (induction rows) (simp_all add: assms)

lemma map_key_update_first:
  assumes "\<And>x. k (u x) = k x"
  shows "map k (update_first p u rows) = map k rows"
  by (induction rows) (simp_all add: assms)

lemma find_None_key: "find (\<lambda>x. k x = key) rows = None \<Longrightarrow> key \<notin> set (map k rows)"
  by (induction rows) (auto split: if_splits)

lemma find_Some_key: "find (\<lambda>x. k x = key) rows = Some r \<Longrightarrow> k r = key \<and> r \<in> set rows"
  by (induction rows) (auto split: if_splits)

text \<open>What an upsert keyed by \<open>k\<close> does to a table whose keys are distinct.\<close>

lemma upsert_row_table:
  assumes d: "distinct (map k rows)"
      and u: "\<And>x. k (u x) = k x"
      and c: "\<And>n. k (c n) = key"
      and r: "upsert_row (\<lambda>x. k x = key) u c rows n = (row, rows', n')"
  shows "filter (\<lambda>x. k x = key) rows' = [row]"
    and "filter (\<lambda>x. k x \<noteq> key) rows' = filter (\<lambda>x. k x \<noteq> key) rows"
    and "distinct (map k rows')"
    and "row = (case find (\<lambda>x. k x = key) rows of None \<Rightarrow> c n | Some old \<Rightarrow> u old)"
proof -
  show "row = (case find (\<lambda>x. k x = key) rows of None \<Rightarrow> c n | Some old \<Rightarrow> u old)"
    using r by (auto simp: upsert_row_def split: option.splits)
  show "filter (\<lambda>x. k x = key) rows' = [row]"
  proof (cases "find (\<lambda>x. k x = key) rows")
    case None
    then show ?thesis using r c by (auto simp: upsert_row_create find_None_filter)
  next
    case (Some old)
    have "k (u old) = key" using find_Some_key[OF Some] u by simp
    then show ?thesis using r Some filter_update_first_key[OF d Some] by (auto simp: upsert_row_update)
  qed
  show "filter (\<lambda>x. k x \<noteq> key) rows' = filter (\<lambda>x. k x \<noteq> key) rows"
  proof (cases "find (\<lambda>x. k x = key) rows")
    case None
    then show ?thesis using r c by (auto simp: upsert_row_create)
  next
    case (Some old)
    then show ?thesis using r filter_update_first_others[of k u key rows, OF u] by (auto simp: upsert_row_update)
  qed
  show "distinct (map k rows')"
  proof (cases "find (\<lambda>x. k x = key) rows")
    case None
    then show ?thesis using r c d find_None_key[OF None] by (auto simp add: upsert_row_create)
  next
    case (Some old)
    then show ?thesis using r d map_key_update_first[of k u, OF u] by (auto simp: upsert_row_update)
  qed
qed


lemma find_from_filter: "filter p xs = [r] \<Longrightarrow> find p xs = Some r"
  by (induction xs) (auto split: if_splits simp: find_None_iff filter_empty_conv)

lemma upsertArtist_table:
  assumes ok: "fault e (length (trace w)) (ArtistUpsert (a_id d)) = None"
      and dist: "distinct (map ar_spotify_id (db_artists (db w)))"
  shows "\<exists>row w'. upsertArtist e d w = (Inr row, w')
     \<and> trace w' = trace w @ [ArtistUpsert (a_id d)]
     \<and> filter (\<lambda>x. ar_spotify_id x = a_id d) (db_artists (db w')) = [row]
     \<and> filter (\<lambda>x. ar_spotify_id x \<noteq> a_id d) (db_artists (db w'))
         = filter (\<lambda>x. ar_spotify_id x \<noteq> a_id d) (db_artists (db w))
     \<and> distinct (map ar_spotify_id (db_artists (db w')))
     \<and> (case find (\<lambda>x. ar_spotify_id x = a_id d) (db_artists (db w)) of
          None \<Rightarrow>
            row = \<lparr>ar_id = db_next_id (db w), ar_spotify_id = a_id d, ar_name = a_name d,
                   ar_spotify_url = col (a_spotify_url d), ar_popularity = col (a_popularity d),
                   ar_created_at = now e w, ar_updated_at = now e w\<rparr>
        | Some old \<Rightarrow>
            row = old\<lparr>ar_name := a_name d,
                      ar_spotify_url := upd (a_spotify_url d) (ar_spotify_url old),
                      ar_popularity := upd (a_popularity d) (ar_popularity old),
                      ar_updated_at := now e w\<rparr>
            \<and> ar_created_at row = ar_created_at old \<and> ar_id row = ar_id old)"
proof -
  let ?u = "\<lambda>r. r\<lparr>ar_name := a_name d,
                    ar_spotify_url := upd (a_spotify_url d) (ar_spotify_url r),
                    ar_popularity := upd (a_popularity d) (ar_popularity r),
                    ar_updated_at := now e w\<rparr>"
  let ?c = "\<lambda>n. \<lparr>ar_id = n, ar_spotify_id = a_id d, ar_name = a_name d,
                   ar_spotify_url = col (a_spotify_url d), ar_popularity = col (a_popularity d),
                   ar_created_at = now e w, ar_updated_at = now e w\<rparr>"
  define res where
    "res = upsert_row (\<lambda>x. ar_spotify_id x = a_id d) ?u ?c (db_artists (db w)) (db_next_id (db w))"
  obtain row rows' n' where r0: "res = (row, rows', n')" by (cases res)
  have r: "upsert_row (\<lambda>x. ar_spotify_id x = a_id d) ?u ?c (db_artists (db w)) (db_next_id (db w)) = (row, rows', n')"
    using r0 by (simp only: res_def)
  note t = upsert_row_table[where k = ar_spotify_id and u = ?u and c = ?c, OF dist _ _ r]
  have run: "upsertArtist e d w =
               (Inr row, w\<lparr>trace := trace w @ [ArtistUpsert (a_id d)],
                          db := (db w)\<lparr>db_artists := rows', db_next_id := n'\<rparr>\<rparr>)"
    using r by (simp add: upsertArtist_def perform_def ok)
  have f1: "filter (\<lambda>x. ar_spotify_id x = a_id d) rows' = [row]" using t(1) by simp
  have f2: "filter (\<lambda>x. ar_spotify_id x \<noteq> a_id d) rows'
              = filter (\<lambda>x. ar_spotify_id x \<noteq> a_id d) (db_artists (db w))" using t(2) by simp
  have f3: "distinct (map ar_spotify_id rows')" using t(3) by simp
  have f4: "row = (case find (\<lambda>x. ar_spotify_id x = a_id d) (db_artists (db w)) of
                     None \<Rightarrow> ?c (db_next_id (db w)) | Some old \<Rightarrow> ?u old)" using t(4) by simp
  show ?thesis
    unfolding run using f1 f2 f3 f4 by (simp split: option.splits)
qed


lemma upsertAlbum_table:
  assumes ok: "fault e (length (trace w)) (AlbumUpsert (b_id d)) = None"
      and dist: "distinct (map al_spotify_id (db_albums (db w)))"
  shows "\<exists>row w'. upsertAlbum e d w = (Inr row, w')
     \<and> trace w' = trace w @ [AlbumUpsert (b_id d)]
     \<and> filter (\<lambda>x. al_spotify_id x = b_id d) (db_albums (db w')) = [row]
     \<and> filter (\<lambda>x. al_spotify_id x \<noteq> b_id d) (db_albums (db w'))
         = filter (\<lambda>x. al_spotify_id x \<noteq> b_id d) (db_albums (db w))
     \<and> distinct (map al_spotify_id (db_albums (db w')))
     \<and> (case find (\<lambda>x. al_spotify_id x = b_id d) (db_albums (db w)) of
          None \<Rightarrow>
            row = \<lparr>al_id = db_next_id (db w), al_spotify_id = b_id d, al_name = b_name d,
                   al_album_type = b_album_type d, al_total_tracks = b_total_tracks d,
                   al_release_date = b_release_date d,
                   al_release_date_precision = b_release_date_precision d,
                   al_spotify_url = col (b_spotify_url d),
                   al_created_at = now e w, al_updated_at = now e w\<rparr>
        | Some old \<Rightarrow>
            row = old\<lparr>al_name := b_name d,
                      al_album_type := b_album_type d,
                      al_total_tracks := b_total_tracks d,
                      al_release_date := b_release_date d,
                      al_release_date_precision := b_release_date_precision d,
                      al_spotify_url := upd (b_spotify_url d) (al_spotify_url old),
                      al_updated_at := now e w\<rparr>
            \<and> al_created_at row = al_created_at old \<and> al_id row = al_id old)"
proof -
  let ?u = "\<lambda>r. r\<lparr>al_name := b_name d,
                      al_album_type := b_album_type d,
                      al_total_tracks := b_total_tracks d,
                      al_release_date := b_release_date d,
                      al_release_date_precision := b_release_date_precision d,
                      al_spotify_url := upd (b_spotify_url d) (al_spotify_url r),
                      al_updated_at := now e w\<rparr>"
  let ?c = "\<lambda>n. \<lparr>al_id = n, al_spotify_id = b_id d, al_name = b_name d,
                   al_album_type = b_album_type d, al_total_tracks = b_total_tracks d,
                   al_release_date = b_release_date d,
                   al_release_date_precision = b_release_date_precision d,
                   al_spotify_url = col (b_spotify_url d),
                   al_created_at = now e w, al_updated_at = now e w\<rparr>"
  define res where
    "res = upsert_row (\<lambda>x. al_spotify_id x = b_id d) ?u ?c (db_albums (db w)) (db_next_id (db w))"
  obtain row rows' n' where r0: "res = (row, rows', n')" by (cases res)
  have r: "upsert_row (\<lambda>x. al_spotify_id x = b_id d) ?u ?c (db_albums (db w)) (db_next_id (db w)) = (row, rows', n')"
    using r0 by (simp only: res_def)
  note t = upsert_row_table[where k = al_spotify_id and u = ?u and c = ?c, OF dist _ _ r]
  have run: "upsertAlbum e d w =
               (Inr row, w\<lparr>trace := trace w @ [AlbumUpsert (b_id d)],
                          db := (db w)\<lparr>db_albums := rows', db_next_id := n'\<rparr>\<rparr>)"
    using r by (simp add: upsertAlbum_def perform_def ok)
  have f1: "filter (\<lambda>x. al_spotify_id x = b_id d) rows' = [row]" using t(1) by simp
  have f2: "filter (\<lambda>x. al_spotify_id x \<noteq> b_id d) rows'
              = filter (\<lambda>x. al_spotify_id x \<noteq> b_id d) (db_albums (db w))" using t(2) by simp
  have f3: "distinct (map al_spotify_id rows')" using t(3) by simp
  have f4: "row = (case find (\<lambda>x. al_spotify_id x = b_id d) (db_albums (db w)) of
                     None \<Rightarrow> ?c (db_next_id (db w)) | Some old \<Rightarrow> ?u old)" using t(4) by simp
  show ?thesis
    unfolding run using f1 f2 f3 f4 by (simp split: option.splits)
qed

lemma upsertTrack_table:
  assumes ok: "fault e (length (trace w)) (TrackUpsert (t_id d)) = None"
      and dist: "distinct (map tr_spotify_id (db_tracks (db w)))"
  shows "\<exists>row w'. upsertTrack e d albumId w = (Inr row, w')
     \<and> trace w' = trace w @ [TrackUpsert (t_id d)]
     \<and> filter (\<lambda>x. tr_spotify_id x = t_id d) (db_tracks (db w')) = [row]
     \<and> filter (\<lambda>x. tr_spotify_id x \<noteq> t_id d) (db_tracks (db w'))
         = filter (\<lambda>x. tr_spotify_id x \<noteq> t_id d) (db_tracks (db w))
     \<and> distinct (map tr_spotify_id (db_tracks (db w')))
     \<and> (case find (\<lambda>x. tr_spotify_id x = t_id d) (db_tracks (db w)) of
          None \<Rightarrow>
            row = \<lparr>tr_id = db_next_id (db w), tr_spotify_id = t_id d, tr_name = t_name d,
                   tr_album_id = albumId,
                   tr_track_number = t_track_number d, tr_disc_number = t_disc_number d,
                   tr_duration_ms = t_duration_ms d,
                   tr_popularity = col (t_popularity d),
                   tr_preview_url = col (t_preview_url d),
                   tr_spotify_url = col (t_spotify_url d),
                   tr_isrc = col (t_isrc d),
                   tr_explicit = t_explicit d,
                   tr_available_markets = col (markets (t_available_markets d)),
                   tr_created_at = now e w, tr_updated_at = now e w\<rparr>
        | Some old \<Rightarrow>
            row = old\<lparr>tr_name := t_name d,
                      tr_track_number := t_track_number d,
                      tr_disc_number := t_disc_number d,
                      tr_duration_ms := t_duration_ms d,
                      tr_popularity := upd (t_popularity d) (tr_popularity old),
                      tr_preview_url := upd (t_preview_url d) (tr_preview_url old),
                      tr_spotify_url := upd (t_spotify_url d) (tr_spotify_url old),
                      tr_isrc := upd (t_isrc d) (tr_isrc old),
                      tr_explicit := t_explicit d,
                      tr_available_markets :=
                        upd (markets (t_available_markets d)) (tr_available_markets old),
                      tr_updated_at := now e w\<rparr>
            \<and> tr_album_id row = tr_album_id old
            \<and> tr_created_at row = tr_created_at old \<and> tr_id row = tr_id old)"
proof -
  let ?u = "\<lambda>r. r\<lparr>tr_name := t_name d,
                      tr_track_number := t_track_number d,
                      tr_disc_number := t_disc_number d,
                      tr_duration_ms := t_duration_ms d,
                      tr_popularity := upd (t_popularity d) (tr_popularity r),
                      tr_preview_url := upd (t_preview_url d) (tr_preview_url r),
                      tr_spotify_url := upd (t_spotify_url d) (tr_spotify_url r),
                      tr_isrc := upd (t_isrc d) (tr_isrc r),
                      tr_explicit := t_explicit d,
                      tr_available_markets :=
                        upd (markets (t_available_markets d)) (tr_available_markets r),
                      tr_updated_at := now e w\<rparr>"
  let ?c = "\<lambda>n. \<lparr>tr_id = n, tr_spotify_id = t_id d, tr_name = t_name d,
                   tr_album_id = albumId,
                   tr_track_number = t_track_number d, tr_disc_number = t_disc_number d,
                   tr_duration_ms = t_duration_ms d,
                   tr_popularity = col (t_popularity d),
                   tr_preview_url = col (t_preview_url d),
                   tr_spotify_url = col (t_spotify_url d),
                   tr_isrc = col (t_isrc d),
                   tr_explicit = t_explicit d,
                   tr_available_markets = col (markets (t_available_markets d)),
                   tr_created_at = now e w, tr_updated_at = now e w\<rparr>"
  define res where
    "res = upsert_row (\<lambda>x. tr_spotify_id x = t_id d) ?u ?c (db_tracks (db w)) (db_next_id (db w))"
  obtain row rows' n' where r0: "res = (row, rows', n')" by (cases res)
  have r: "upsert_row (\<lambda>x. tr_spotify_id x = t_id d) ?u ?c (db_tracks (db w)) (db_next_id (db w)) = (row, rows', n')"
    using r0 by (simp only: res_def)
  note t = upsert_row_table[where k = tr_spotify_id and u = ?u and c = ?c, OF dist _ _ r]
  have run: "upsertTrack e d albumId w =
               (Inr row, w\<lparr>trace := trace w @ [TrackUpsert (t_id d)],
                          db := (db w)\<lparr>db_tracks := rows', db_next_id := n'\<rparr>\<rparr>)"
    using r by (simp add: upsertTrack_def perform_def ok)
  have f1: "filter (\<lambda>x. tr_spotify_id x = t_id d) rows' = [row]" using t(1) by simp
  have f2: "filter (\<lambda>x. tr_spotify_id x \<noteq> t_id d) rows'
              = filter (\<lambda>x. tr_spotify_id x \<noteq> t_id d) (db_tracks (db w))" using t(2) by simp
  have f3: "distinct (map tr_spotify_id rows')" using t(3) by simp
  have f4: "row = (case find (\<lambda>x. tr_spotify_id x = t_id d) (db_tracks (db w)) of
                     None \<Rightarrow> ?c (db_next_id (db w)) | Some old \<Rightarrow> ?u old)" using t(4) by simp
  show ?thesis
    unfolding run using f1 f2 f3 f4 by (simp split: option.splits)
qed


lemma upsertArtist_twice:
  assumes ok1: "fault e (length (trace w)) (ArtistUpsert (a_id d1)) = None"
      and ok2: "fault e (Suc (length (trace w))) (ArtistUpsert (a_id d2)) = None"
      and same: "a_id d2 = a_id d1"
      and dist: "distinct (map ar_spotify_id (db_artists (db w)))"
  shows "\<exists>r1 w1 r2 w2. upsertArtist e d1 w = (Inr r1, w1) \<and> upsertArtist e d2 w1 = (Inr r2, w2)
     \<and> filter (\<lambda>x. ar_spotify_id x = a_id d1) (db_artists (db w2)) = [r2]
     \<and> r2 = r1\<lparr>ar_name := a_name d2,
                 ar_spotify_url := upd (a_spotify_url d2) (ar_spotify_url r1),
                 ar_popularity := upd (a_popularity d2) (ar_popularity r1),
                 ar_updated_at := now e w1\<rparr>
     \<and> ar_created_at r2 = ar_created_at r1"
proof -
  from upsertArtist_table[OF ok1 dist] obtain r1 w1 where
    a: "upsertArtist e d1 w = (Inr r1, w1)" "trace w1 = trace w @ [ArtistUpsert (a_id d1)]"
       "filter (\<lambda>x. ar_spotify_id x = a_id d1) (db_artists (db w1)) = [r1]"
       "distinct (map ar_spotify_id (db_artists (db w1)))"
    by blast
  have ok2': "fault e (length (trace w1)) (ArtistUpsert (a_id d2)) = None"
    using ok2 a(2) by simp
  have f: "find (\<lambda>x. ar_spotify_id x = a_id d2) (db_artists (db w1)) = Some r1"
    using find_from_filter[OF a(3)] same by simp
  from upsertArtist_table[OF ok2' a(4)] obtain r2 w2 where
    b: "upsertArtist e d2 w1 = (Inr r2, w2)"
       "filter (\<lambda>x. ar_spotify_id x = a_id d2) (db_artists (db w2)) = [r2]"
       "r2 = r1\<lparr>ar_name := a_name d2,
                 ar_spotify_url := upd (a_spotify_url d2) (ar_spotify_url r1),
                 ar_popularity := upd (a_popularity d2) (ar_popularity r1),
                 ar_updated_at := now e w1\<rparr>"
       "ar_created_at r2 = ar_created_at r1"
    unfolding f by auto
  show ?thesis using a(1) b same by simp
qed


lemma upsertAlbum_twice:
  assumes ok1: "fault e (length (trace w)) (AlbumUpsert (b_id d1)) = None"
      and ok2: "fault e (Suc (length (trace w))) (AlbumUpsert (b_id d2)) = None"
      and same: "b_id d2 = b_id d1"
      and dist: "distinct (map al_spotify_id (db_albums (db w)))"
  shows "\<exists>r1 w1 r2 w2. upsertAlbum e d1 w = (Inr r1, w1) \<and> upsertAlbum e d2 w1 = (Inr r2, w2)
     \<and> filter (\<lambda>x. al_spotify_id x = b_id d1) (db_albums (db w2)) = [r2]
     \<and> r2 = r1\<lparr>al_name := b_name d2,
                 al_album_type := b_album_type d2,
                 al_total_tracks := b_total_tracks d2,
                 al_release_date := b_release_date d2,
                 al_release_date_precision := b_release_date_precision d2,
                 al_spotify_url := upd (b_spotify_url d2) (al_spotify_url r1),
                 al_updated_at := now e w1\<rparr>
     \<and> al_created_at r2 = al_created_at r1"
proof -
  from upsertAlbum_table[OF ok1 dist] obtain r1 w1 where
    a: "upsertAlbum e d1 w = (Inr r1, w1)" "trace w1 = trace w @ [AlbumUpsert (b_id d1)]"
       "filter (\<lambda>x. al_spotify_id x = b_id d1) (db_albums (db w1)) = [r1]"
       "distinct (map al_spotify_id (db_albums (db w1)))"
    by blast
  have ok2': "fault e (length (trace w1)) (AlbumUpsert (b_id d2)) = None"
    using ok2 a(2) by simp
  have f: "find (\<lambda>x. al_spotify_id x = b_id d2) (db_albums (db w1)) = Some r1"
    using find_from_filter[OF a(3)] same by simp
  from upsertAlbum_table[OF ok2' a(4)] obtain r2 w2 where
    b: "upsertAlbum e d2 w1 = (Inr r2, w2)"
       "filter (\<lambda>x. al_spotify_id x = b_id d2) (db_albums (db w2)) = [r2]"
       "r2 = r1\<lparr>al_name := b_name d2,
                 al_album_type := b_album_type d2,
                 al_total_tracks := b_total_tracks d2,
                 al_release_date := b_release_date d2,
                 al_release_date_precision := b_release_date_precision d2,
                 al_spotify_url := upd (b_spotify_url d2) (al_spotify_url r1),
                 al_updated_at := now e w1\<rparr>"
       "al_created_at r2 = al_created_at r1"
    unfolding f by auto
  show ?thesis using a(1) b same by simp
qed

lemma upsertTrack_twice:
  assumes ok1: "fault e (length (trace w)) (TrackUpsert (t_id d1)) = None"
      and ok2: "fault e (Suc (length (trace w))) (TrackUpsert (t_id d2)) = None"
      and same: "t_id d2 = t_id d1"
      and dist: "distinct (map tr_spotify_id (db_tracks (db w)))"
  shows "\<exists>r1 w1 r2 w2. upsertTrack e d1 albumId1 w = (Inr r1, w1)
     \<and> upsertTrack e d2 albumId2 w1 = (Inr r2, w2)
     \<and> filter (\<lambda>x. tr_spotify_id x = t_id d1) (db_tracks (db w2)) = [r2]
     \<and> r2 = r1\<lparr>tr_name := t_name d2,
                 tr_track_number := t_track_number d2,
                 tr_disc_number := t_disc_number d2,
                 tr_duration_ms := t_duration_ms d2,
                 tr_popularity := upd (t_popularity d2) (tr_popularity r1),
                 tr_preview_url := upd (t_preview_url d2) (tr_preview_url r1),
                 tr_spotify_url := upd (t_spotify_url d2) (tr_spotify_url r1),
                 tr_isrc := upd (t_isrc d2) (tr_isrc r1),
                 tr_explicit := t_explicit d2,
                 tr_available_markets :=
                   upd (markets (t_available_markets d2)) (tr_available_markets r1),
                 tr_updated_at := now e w1\<rparr>
     \<and> tr_album_id r2 = tr_album_id r1
     \<and> tr_created_at r2 = tr_created_at r1"
proof -
  from upsertTrack_table[OF ok1 dist, of albumId1] obtain r1 w1 where
    a: "upsertTrack e d1 albumId1 w = (Inr r1, w1)" "trace w1 = trace w @ [TrackUpsert (t_id d1)]"
       "filter (\<lambda>x. tr_spotify_id x = t_id d1) (db_tracks (db w1)) = [r1]"
       "distinct (map tr_spotify_id (db_tracks (db w1)))"
    by blast
  have ok2': "fault e (length (trace w1)) (TrackUpsert (t_id d2)) = None"
    using ok2 a(2) by simp
  have f: "find (\<lambda>x. tr_spotify_id x = t_id d2) (db_tracks (db w1)) = Some r1"
    using find_from_filter[OF a(3)] same by simp
  from upsertTrack_table[OF ok2' a(4), of albumId2] obtain r2 w2 where
    b: "upsertTrack e d2 albumId2 w1 = (Inr r2, w2)"
       "filter (\<lambda>x. tr_spotify_id x = t_id d2) (db_tracks (db w2)) = [r2]"
       "r2 = r1\<lparr>tr_name := t_name d2,
                 tr_track_number := t_track_number d2,
                 tr_disc_number := t_disc_number d2,
                 tr_duration_ms := t_duration_ms d2,
                 tr_popularity := upd (t_popularity d2) (tr_popularity r1),
                 tr_preview_url := upd (t_preview_url d2) (tr_preview_url r1),
                 tr_spotify_url := upd (t_spotify_url d2) (tr_spotify_url r1),
                 tr_isrc := upd (t_isrc d2) (tr_isrc r1),
                 tr_explicit := t_explicit d2,
                 tr_available_markets :=
                   upd (markets (t_available_markets d2)) (tr_available_markets r1),
                 tr_updated_at := now e w1\<rparr>"
       "tr_album_id r2 = tr_album_id r1"
       "tr_created_at r2 = tr_created_at r1"
    unfolding f by auto
  show ?thesis using a(1) b same by simp
qed

text \<open>
  C5, as amended. An upsert keyed by the Spotify id, when the store does not fail and the
  ids in the table are distinct (the unique index), issues one store operation and leaves
  exactly one row with that id and every other row as it was. When there was no such row,
  the row is created from the incoming fields, with a fresh local id and both timestamps
  set to now. When there was one, the fields of the \<^verbatim>\<open>update\<close> object are written:
  required fields take the incoming value, an optional field takes the incoming value or
  NULL and keeps the stored value when the incoming one is undefined; the update timestamp
  is set to now; the local id and the create timestamp are left unchanged, and so is a
  track's album reference. Hence two calls with the same id leave one row with the
  second call's values.
\<close>

theorem upsert_by_external_id:
  "(fault e (length (trace w)) (ArtistUpsert (a_id a)) = None
      \<and> distinct (map ar_spotify_id (db_artists (db w)))
    \<longrightarrow> (\<exists>row w'. upsertArtist e a w = (Inr row, w')
     \<and> trace w' = trace w @ [ArtistUpsert (a_id a)]
     \<and> filter (\<lambda>x. ar_spotify_id x = a_id a) (db_artists (db w')) = [row]
     \<and> filter (\<lambda>x. ar_spotify_id x \<noteq> a_id a) (db_artists (db w'))
         = filter (\<lambda>x. ar_spotify_id x \<noteq> a_id a) (db_artists (db w))
     \<and> distinct (map ar_spotify_id (db_artists (db w')))
     \<and> (case find (\<lambda>x. ar_spotify_id x = a_id a) (db_artists (db w)) of
          None \<Rightarrow>
            row = \<lparr>ar_id = db_next_id (db w), ar_spotify_id = a_id a, ar_name = a_name a,
                   ar_spotify_url = col (a_spotify_url a), ar_popularity = col (a_popularity a),
                   ar_created_at = now e w, ar_updated_at = now e w\<rparr>
        | Some old \<Rightarrow>
            row = old\<lparr>ar_name := a_name a,
                      ar_spotify_url := upd (a_spotify_url a) (ar_spotify_url old),
                      ar_popularity := upd (a_popularity a) (ar_popularity old),
                      ar_updated_at := now e w\<rparr>
            \<and> ar_created_at row = ar_created_at old \<and> ar_id row = ar_id old)))
 \<and> (fault e (length (trace w)) (ArtistUpsert (a_id a1)) = None
      \<and> fault e (Suc (length (trace w))) (ArtistUpsert (a_id a2)) = None
      \<and> a_id a2 = a_id a1
      \<and> distinct (map ar_spotify_id (db_artists (db w)))
    \<longrightarrow> (\<exists>r1 w1 r2 w2. upsertArtist e a1 w = (Inr r1, w1) \<and> upsertArtist e a2 w1 = (Inr r2, w2)
     \<and> filter (\<lambda>x. ar_spotify_id x = a_id a1) (db_artists (db w2)) = [r2]
     \<and> r2 = r1\<lparr>ar_name := a_name a2,
                 ar_spotify_url := upd (a_spotify_url a2) (ar_spotify_url r1),
                 ar_popularity := upd (a_popularity a2) (ar_popularity r1),
                 ar_updated_at := now e w1\<rparr>
     \<and> ar_created_at r2 = ar_created_at r1))
 \<and> (fault e (length (trace w)) (AlbumUpsert (b_id b)) = None
      \<and> distinct (map al_spotify_id (db_albums (db w)))
    \<longrightarrow> (\<exists>row w'. upsertAlbum e b w = (Inr row, w')
     \<and> trace w' = trace w @ [AlbumUpsert (b_id b)]
     \<and> filter (\<lambda>x. al_spotify_id x = b_id b) (db_albums (db w')) = [row]
     \<and> filter (\<lambda>x. al_spotify_id x \<noteq> b_id b) (db_albums (db w'))
         = filter (\<lambda>x. al_spotify_id x \<noteq> b_id b) (db_albums (db w))
     \<and> distinct (map al_spotify_id (db_albums (db w')))
     \<and> (case find (\<lambda>x. al_spotify_id x = b_id b) (db_albums (db w)) of
          None \<Rightarrow>
            row = \<lparr>al_id = db_next_id (db w), al_spotify_id = b_id b, al_name = b_name b,
                   al_album_type = b_album_type b, al_total_tracks = b_total_tracks b,
                   al_release_date = b_release_date b,
                   al_release_date_precision = b_release_date_precision b,
                   al_spotify_url = col (b_spotify_url b),
                   al_created_at = now e w, al_updated_at = now e w\<rparr>
        | Some old \<Rightarrow>
            row = old\<lparr>al_name := b_name b,
                      al_album_type := b_album_type b,
                      al_total_tracks := b_total_tracks b,
                      al_release_date := b_release_date b,
                      al_release_date_precision := b_release_date_precision b,
                      al_spotify_url := upd (b_spotify_url b) (al_spotify_url old),
                      al_updated_at := now e w\<rparr>
            \<and> al_created_at row = al_created_at old \<and> al_id row = al_id old)))
 \<and> (fault e (length (trace w)) (AlbumUpsert (b_id b1)) = None
      \<and> fault e (Suc (length (trace w))) (AlbumUpsert (b_id b2)) = None
      \<and> b_id b2 = b_id b1
      \<and> distinct (map al_spotify_id (db_albums (db w)))
    \<longrightarrow> (\<exists>r1 w1 r2 w2. upsertAlbum e b1 w = (Inr r1, w1) \<and> upsertAlbum e b2 w1 = (Inr r2, w2)
     \<and> filter (\<lambda>x. al_spotify_id x = b_id b1) (db_albums (db w2)) = [r2]
     \<and> r2 = r1\<lparr>al_name := b_name b2,
                 al_album_type := b_album_type b2,
                 al_total_tracks := b_total_tracks b2,
                 al_release_date := b_release_date b2,
                 al_release_date_precision := b_release_date_precision b2,
                 al_spotify_url := upd (b_spotify_url b2) (al_spotify_url r1),
                 al_updated_at := now e w1\<rparr>
     \<and> al_created_at r2 = al_created_at r1))
 \<and> (fault e (length (trace w)) (TrackUpsert (t_id t)) = None
      \<and> distinct (map tr_spotify_id (db_tracks (db w)))
    \<longrightarrow> (\<exists>row w'. upsertTrack e t albumId w = (Inr row, w')
     \<and> trace w' = trace w @ [TrackUpsert (t_id t)]
     \<and> filter (\<lambda>x. tr_spotify_id x = t_id t) (db_tracks (db w')) = [row]
     \<and> filter (\<lambda>x. tr_spotify_id x \<noteq> t_id t) (db_tracks (db w'))
         = filter (\<lambda>x. tr_spotify_id x \<noteq> t_id t) (db_tracks (db w))
     \<and> distinct (map tr_spotify_id (db_tracks (db w')))
     \<and> (case find (\<lambda>x. tr_spotify_id x = t_id t) (db_tracks (db w)) of
          None \<Rightarrow>
            row = \<lparr>tr_id = db_next_id (db w), tr_spotify_id = t_id t, tr_name = t_name t,
                   tr_album_id = albumId,
                   tr_track_number = t_track_number t, tr_disc_number = t_disc_number t,
                   tr_duration_ms = t_duration_ms t,
                   tr_popularity = col (t_popularity t),
                   tr_preview_url = col (t_preview_url t),
                   tr_spotify_url = col (t_spotify_url t),
                   tr_isrc = col (t_isrc t),
                   tr_explicit = t_explicit t,
                   tr_available_markets = col (markets (t_available_markets t)),
                   tr_created_at = now e w, tr_updated_at = now e w\<rparr>
        | Some old \<Rightarrow>
            row = old\<lparr>tr_name := t_name t,
                      tr_track_number := t_track_number t,
                      tr_disc_number := t_disc_number t,
                      tr_duration_ms := t_duration_ms t,
                      tr_popularity := upd (t_popularity t) (tr_popularity old),
                      tr_preview_url := upd (t_preview_url t) (tr_preview_url old),
                      tr_spotify_url := upd (t_spotify_url t) (tr_spotify_url old),
                      tr_isrc := upd (t_isrc t) (tr_isrc old),
                      tr_explicit := t_explicit t,
                      tr_available_markets :=
                        upd (markets (t_available_markets t)) (tr_available_markets old),
                      tr_updated_at := now e w\<rparr>
            \<and> tr_album_id row = tr_album_id old
            \<and> tr_created_at row = tr_created_at old \<and> tr_id row = tr_id old)))
 \<and> (fault e (length (trace w)) (TrackUpsert (t_id t1)) = None
      \<and> fault e (Suc (length (trace w))) (TrackUpsert (t_id t2)) = None
      \<and> t_id t2 = t_id t1
      \<and> distinct (map tr_spotify_id (db_tracks (db w)))
    \<longrightarrow> (\<exists>r1 w1 r2 w2. upsertTrack e t1 albumId1 w = (Inr r1, w1)
     \<and> upsertTrack e t2 albumId2 w1 = (Inr r2, w2)
     \<and> filter (\<lambda>x. tr_spotify_id x = t_id t1) (db_tracks (db w2)) = [r2]
     \<and> r2 = r1\<lparr>tr_name := t_name t2,
                 tr_track_number := t_track_number t2,
                 tr_disc_number := t_disc_number t2,
                 tr_duration_ms := t_duration_ms t2,
                 tr_popularity := upd (t_popularity t2) (tr_popularity r1),
                 tr_preview_url := upd (t_preview_url t2) (tr_preview_url r1),
                 tr_spotify_url := upd (t_spotify_url t2) (tr_spotify_url r1),
                 tr_isrc := upd (t_isrc t2) (tr_isrc r1),
                 tr_explicit := t_explicit t2,
                 tr_available_markets :=
                   upd (markets (t_available_markets t2)) (tr_available_markets r1),
                 tr_updated_at := now e w1\<rparr>
     \<and> tr_album_id r2 = tr_album_id r1
     \<and> tr_created_at r2 = tr_created_at r1))"
  apply (intro conjI impI)
  subgoal by (elim conjE) (rule upsertArtist_table, assumption+)
  subgoal by (elim conjE) (rule upsertArtist_twice, assumption+)
  subgoal by (elim conjE) (rule upsertAlbum_table, assumption+)
  subgoal by (elim conjE) (rule upsertAlbum_twice, assumption+)
  subgoal by (elim conjE) (rule upsertTrack_table, assumption+)
  subgoal by (elim conjE) (rule upsertTrack_twice, assumption+)
  done

theorem upsert_by_external_id_counterexample:
  "map tr_album_id
     (db_tracks (db (snd (upsertTrack demo_env (demo_track ''t1'' ''A'' ''X'') 8
                       (snd (upsertTrack demo_env (demo_track ''t1'' ''A'' ''X'') 7 world0))))))
     = [7]
   \<and> map ar_spotify_url
       (db_artists (db (snd (upsertArtist demo_env (demo_artist ''A'')
                          (snd (upsertArtist demo_env
                                  ((demo_artist ''A'')\<lparr>a_spotify_url := Val ''http://a''\<rparr>) world0))))))
     = [Some ''http://a'']"
  by (simp add: upsertTrack_def upsertArtist_def perform_def upsert_row_def demo_env_def
        demo_track_def demo_artist_def world0_def empty_store_def now_def)


theorem upsert_by_external_id_witness:
  "(\<exists>row w'. upsertArtist demo_env (demo_artist ''A'') world0 = (Inr row, w')
        \<and> trace w' = [ArtistUpsert ''A'']
        \<and> filter (\<lambda>x. ar_spotify_id x = ''A'') (db_artists (db w')) = [row])
   \<and> (\<exists>r1 w1 r2 w2. upsertArtist demo_env (demo_artist ''A'') world0 = (Inr r1, w1)
        \<and> upsertArtist demo_env ((demo_artist ''A'')\<lparr>a_name := ''Renamed''\<rparr>) w1 = (Inr r2, w2)
        \<and> filter (\<lambda>x. ar_spotify_id x = ''A'') (db_artists (db w2)) = [r2]
        \<and> ar_name r2 = ''Renamed'' \<and> ar_created_at r2 = ar_created_at r1)
   \<and> (\<exists>row w'. upsertAlbum demo_env (demo_album ''X'') world0 = (Inr row, w')
        \<and> trace w' = [AlbumUpsert ''X'']
        \<and> filter (\<lambda>x. al_spotify_id x = ''X'') (db_albums (db w')) = [row])
   \<and> (\<exists>r1 w1 r2 w2. upsertAlbum demo_env (demo_album ''X'') world0 = (Inr r1, w1)
        \<and> upsertAlbum demo_env ((demo_album ''X'')\<lparr>b_name := ''Renamed''\<rparr>) w1 = (Inr r2, w2)
        \<and> filter (\<lambda>x. al_spotify_id x = ''X'') (db_albums (db w2)) = [r2]
        \<and> al_name r2 = ''Renamed'' \<and> al_created_at r2 = al_created_at r1)
   \<and> (\<exists>row w'. upsertTrack demo_env (demo_track ''t1'' ''A'' ''X'') 7 world0 = (Inr row, w')
        \<and> trace w' = [TrackUpsert ''t1'']
        \<and> filter (\<lambda>x. tr_spotify_id x = ''t1'') (db_tracks (db w')) = [row])
   \<and> (\<exists>r1 w1 r2 w2. upsertTrack demo_env (demo_track ''t1'' ''A'' ''X'') 7 world0 = (Inr r1, w1)
        \<and> upsertTrack demo_env ((demo_track ''t1'' ''A'' ''X'')\<lparr>t_name := ''Renamed''\<rparr>) 8 w1 = (Inr r2, w2)
        \<and> filter (\<lambda>x. tr_spotify_id x = ''t1'') (db_tracks (db w2)) = [r2]
        \<and> tr_name r2 = ''Renamed'' \<and> tr_album_id r2 = tr_album_id r1
        \<and> tr_created_at r2 = tr_created_at r1)"
proof -
  note T = upsert_by_external_id
             [where e = demo_env and w = world0
                and a = "demo_artist ''A''" and ?a1.0 = "demo_artist ''A''"
                and ?a2.0 = "(demo_artist ''A'')\<lparr>a_name := ''Renamed''\<rparr>"
                and b = "demo_album ''X''" and ?b1.0 = "demo_album ''X''"
                and ?b2.0 = "(demo_album ''X'')\<lparr>b_name := ''Renamed''\<rparr>"
                and t = "demo_track ''t1'' ''A'' ''X''" and albumId = 7
                and ?t1.0 = "demo_track ''t1'' ''A'' ''X''" and ?albumId1.0 = 7
                and ?t2.0 = "(demo_track ''t1'' ''A'' ''X'')\<lparr>t_name := ''Renamed''\<rparr>"
                and ?albumId2.0 = 8]
  have h: "\<And>n op. fault demo_env n op = None" by (simp add: demo_env_def)
  have d: "db_artists (db world0) = []" "db_albums (db world0) = []" "db_tracks (db world0) = []"
    "trace world0 = []"
    by (simp_all add: world0_def empty_store_def)
  have i: "a_id (demo_artist ''A'') = ''A''" "b_id (demo_album ''X'') = ''X''"
    "t_id (demo_track ''t1'' ''A'' ''X'') = ''t1''"
    by (simp_all add: demo_artist_def demo_album_def demo_track_def)
  have c1: "\<exists>row w'. upsertArtist demo_env (demo_artist ''A'') world0 = (Inr row, w')
        \<and> trace w' = [ArtistUpsert ''A'']
        \<and> filter (\<lambda>x. ar_spotify_id x = ''A'') (db_artists (db w')) = [row]"
    using T[THEN conjunct1] by (simp add: h d i) blast
  have c2: "\<exists>r1 w1 r2 w2. upsertArtist demo_env (demo_artist ''A'') world0 = (Inr r1, w1)
        \<and> upsertArtist demo_env ((demo_artist ''A'')\<lparr>a_name := ''Renamed''\<rparr>) w1 = (Inr r2, w2)
        \<and> filter (\<lambda>x. ar_spotify_id x = ''A'') (db_artists (db w2)) = [r2]
        \<and> ar_name r2 = ''Renamed'' \<and> ar_created_at r2 = ar_created_at r1"
    using T[THEN conjunct2, THEN conjunct1] by (simp add: h d i) (elim exE conjE, intro exI conjI, assumption+, simp_all)
  have c3: "\<exists>row w'. upsertAlbum demo_env (demo_album ''X'') world0 = (Inr row, w')
        \<and> trace w' = [AlbumUpsert ''X'']
        \<and> filter (\<lambda>x. al_spotify_id x = ''X'') (db_albums (db w')) = [row]"
    using T[THEN conjunct2, THEN conjunct2, THEN conjunct1] by (simp add: h d i) blast
  have c4: "\<exists>r1 w1 r2 w2. upsertAlbum demo_env (demo_album ''X'') world0 = (Inr r1, w1)
        \<and> upsertAlbum demo_env ((demo_album ''X'')\<lparr>b_name := ''Renamed''\<rparr>) w1 = (Inr r2, w2)
        \<and> filter (\<lambda>x. al_spotify_id x = ''X'') (db_albums (db w2)) = [r2]
        \<and> al_name r2 = ''Renamed'' \<and> al_created_at r2 = al_created_at r1"
    using T[THEN conjunct2, THEN conjunct2, THEN conjunct2, THEN conjunct1]
    by (simp add: h d i) (elim exE conjE, intro exI conjI, assumption+, simp_all)
  have c5: "\<exists>row w'. upsertTrack demo_env (demo_track ''t1'' ''A'' ''X'') 7 world0 = (Inr row, w')
        \<and> trace w' = [TrackUpsert ''t1'']
        \<and> filter (\<lambda>x. tr_spotify_id x = ''t1'') (db_tracks (db w')) = [row]"
    using T[THEN conjunct2, THEN conjunct2, THEN conjunct2, THEN conjunct2, THEN conjunct1]
    by (simp add: h d i) blast
  have c6: "\<exists>r1 w1 r2 w2. upsertTrack demo_env (demo_track ''t1'' ''A'' ''X'') 7 world0 = (Inr r1, w1)
        \<and> upsertTrack demo_env ((demo_track ''t1'' ''A'' ''X'')\<lparr>t_name := ''Renamed''\<rparr>) 8 w1 = (Inr r2, w2)
        \<and> filter (\<lambda>x. tr_spotify_id x = ''t1'') (db_tracks (db w2)) = [r2]
        \<and> tr_name r2 = ''Renamed'' \<and> tr_album_id r2 = tr_album_id r1
        \<and> tr_created_at r2 = tr_created_at r1"
    using T[THEN conjunct2, THEN conjunct2, THEN conjunct2, THEN conjunct2, THEN conjunct2]
    by (simp add: h d i) (elim exE conjE, intro exI conjI, assumption+, simp_all)
  show ?thesis using c1 c2 c3 c4 c5 c6 by (intro conjI)
qed

subsection \<open>Playlist entries\<close>

lemma linked_rows_Nil: "linked_rows tbl pid k [] = []"
  by (simp add: linked_rows_def)

lemma linked_rows_Cons:
  "linked_rows tbl pid k (it # rest) =
     (case found_track tbl it of None \<Rightarrow> [] | Some tr \<Rightarrow> [link_row pid k it tr])
     @ linked_rows tbl pid (Suc k) rest"
  by (simp add: linked_rows_def)

lemma playlistTrack_loop_rows:
  assumes ok: "\<And>n op. fault e n op = None"
      and inv: "\<forall>r \<in> set (db_playlist_tracks (db w)). pt_playlist_id r = pid \<longrightarrow> pt_position r \<le> i"
  shows "\<exists>w'. playlistTrack_loop e pid items i w = (Inr (), w')
           \<and> errlog w' = errlog w
           \<and> db_tracks (db w') = db_tracks (db w)
           \<and> db_playlist_tracks (db w') =
               db_playlist_tracks (db w) @ linked_rows (db_tracks (db w)) pid (Suc i) items"
  using inv
proof (induction items arbitrary: i w)
  case Nil
  then show ?case by (simp add: linked_rows_Nil)
next
  case (Cons it rest)
  let ?w1 = "w\<lparr>trace := trace w @ [TrackFindUnique (t_id (ti_track it))]\<rparr>"
  show ?case
  proof (cases "found_track (db_tracks (db w)) it")
    case None
    have inv1: "\<forall>r \<in> set (db_playlist_tracks (db ?w1)). pt_playlist_id r = pid \<longrightarrow> pt_position r \<le> Suc i"
      using Cons.prems by auto
    from Cons.IH[OF inv1] obtain w' where
      "playlistTrack_loop e pid rest (Suc i) ?w1 = (Inr (), w')" "errlog w' = errlog w"
      "db_tracks (db w') = db_tracks (db w)"
      "db_playlist_tracks (db w') = db_playlist_tracks (db w) @ linked_rows (db_tracks (db w)) pid (Suc (Suc i)) rest"
      by auto
    then show ?thesis using None
      by (simp add: perform_def ok linked_rows_Cons found_track_def)
  next
    case (Some tr)
    let ?row = "link_row pid (Suc i) it tr"
    let ?w2 = "w\<lparr>trace := trace w @ [TrackFindUnique (t_id (ti_track it))] @ [PlaylistTrackUpsert pid (tr_id tr) (Suc i)],
                  db := (db w)\<lparr>db_playlist_tracks := db_playlist_tracks (db w) @ [?row],
                               db_next_id := Suc (db_next_id (db w))\<rparr>\<rparr>"
    have nf: "find (\<lambda>r. pt_playlist_id r = pid \<and> pt_track_id r = tr_id tr \<and> pt_position r = Suc i)
                (db_playlist_tracks (db w)) = None"
      using Cons.prems by (auto simp: find_None_iff)
    have inv2: "\<forall>r \<in> set (db_playlist_tracks (db ?w2)). pt_playlist_id r = pid \<longrightarrow> pt_position r \<le> Suc i"
      using Cons.prems by (auto simp: link_row_def)
    from Cons.IH[OF inv2] obtain w' where
      "playlistTrack_loop e pid rest (Suc i) ?w2 = (Inr (), w')" "errlog w' = errlog w"
      "db_tracks (db w') = db_tracks (db w)"
      "db_playlist_tracks (db w') = (db_playlist_tracks (db w) @ [?row]) @ linked_rows (db_tracks (db w)) pid (Suc (Suc i)) rest"
      by auto
    then show ?thesis using Some nf
      by (simp add: perform_def ok linked_rows_Cons found_track_def upsert_row_def link_row_def)
  qed
qed


lemma upsert_row_keeps:
  "upsert_row p u c rows n = (row, rows', n') \<Longrightarrow> r \<in> set rows \<Longrightarrow> \<not> p r \<Longrightarrow> r \<in> set rows'"
proof (induction rows arbitrary: rows')
  case Nil
  then show ?case by simp
next
  case (Cons a rows)
  show ?case
  proof (cases "find p (a # rows)")
    case None
    then show ?thesis using Cons.prems by (auto simp: upsert_row_def)
  next
    case (Some old)
    have k: "\<And>xs. r \<in> set xs \<Longrightarrow> r \<in> set (update_first p u xs)"
    proof -
      fix xs show "r \<in> set xs \<Longrightarrow> r \<in> set (update_first p u xs)"
        using Cons.prems(3) by (induction xs) auto
    qed
    show ?thesis using Cons.prems Some k[of "a # rows"] by (auto simp: upsert_row_def)
  qed
qed

lemma update_first_has:
  "find p rows = Some old \<Longrightarrow> u old \<in> set (update_first p u rows)"
  by (induction rows) (auto split: if_splits)

lemma upsert_row_has:
  "upsert_row p u c rows n = (row, rows', n') \<Longrightarrow> row \<in> set rows'"
  by (auto simp: upsert_row_def update_first_has split: option.splits)

lemma upsert_row_result:
  "upsert_row p u c rows n = (row, rows', n')
     \<Longrightarrow> (\<exists>old. find p rows = Some old \<and> p old \<and> row = u old) \<or> row = c n"
  by (auto simp: upsert_row_def find_Some_iff split: option.splits)

text \<open>
  The loop from index \<open>i\<close> on: it keeps every entry whose position is at most \<open>i\<close>, and
  leaves an entry for each item whose track is in the store.
\<close>

lemma playlistTrack_loop_entries:
  assumes ok: "\<And>n op. fault e n op = None"
  shows "\<exists>w'. playlistTrack_loop e pid items i w = (Inr (), w')
           \<and> db_tracks (db w') = db_tracks (db w)
           \<and> (\<forall>r \<in> set (db_playlist_tracks (db w)).
                 pt_position r \<le> i \<longrightarrow> r \<in> set (db_playlist_tracks (db w')))
           \<and> (\<forall>j < length items. \<forall>tr.
                 found_track (db_tracks (db w)) (items ! j) = Some tr
                 \<longrightarrow> (\<exists>r \<in> set (db_playlist_tracks (db w')).
                        pt_playlist_id r = pid \<and> pt_track_id r = tr_id tr
                        \<and> pt_position r = i + j + 1
                        \<and> pt_added_at r = ti_added_at (items ! j)))"
proof (induction items arbitrary: i w)
  case Nil
  then show ?case by simp
next
  case (Cons it rest)
  let ?w1 = "w\<lparr>trace := trace w @ [TrackFindUnique (t_id (ti_track it))]\<rparr>"
  show ?case
  proof (cases "found_track (db_tracks (db w)) it")
    case None
    from Cons.IH[of "Suc i" ?w1] obtain w' where
      l: "playlistTrack_loop e pid rest (Suc i) ?w1 = (Inr (), w')"
      and t: "db_tracks (db w') = db_tracks (db w)"
      and keep: "\<forall>r \<in> set (db_playlist_tracks (db w)).
                 pt_position r \<le> Suc i \<longrightarrow> r \<in> set (db_playlist_tracks (db w'))"
      and ent: "\<forall>j < length rest. \<forall>tr.
                 found_track (db_tracks (db w)) (rest ! j) = Some tr
                 \<longrightarrow> (\<exists>r \<in> set (db_playlist_tracks (db w')).
                        pt_playlist_id r = pid \<and> pt_track_id r = tr_id tr
                        \<and> pt_position r = Suc i + j + 1
                        \<and> pt_added_at r = ti_added_at (rest ! j))"
      by auto
    have run: "playlistTrack_loop e pid (it # rest) i w = (Inr (), w')"
      using l None by (simp add: perform_def ok found_track_def)
    have e2: "\<forall>j < length (it # rest). \<forall>tr.
                 found_track (db_tracks (db w)) ((it # rest) ! j) = Some tr
                 \<longrightarrow> (\<exists>r \<in> set (db_playlist_tracks (db w')).
                        pt_playlist_id r = pid \<and> pt_track_id r = tr_id tr
                        \<and> pt_position r = i + j + 1
                        \<and> pt_added_at r = ti_added_at ((it # rest) ! j))"
    proof (intro allI impI)
      fix j tr
      assume j: "j < length (it # rest)"
        and f: "found_track (db_tracks (db w)) ((it # rest) ! j) = Some tr"
      show "\<exists>r \<in> set (db_playlist_tracks (db w')).
                        pt_playlist_id r = pid \<and> pt_track_id r = tr_id tr
                        \<and> pt_position r = i + j + 1
                        \<and> pt_added_at r = ti_added_at ((it # rest) ! j)"
      proof (cases j)
        case 0
        then show ?thesis using f None by simp
      next
        case (Suc j')
        then show ?thesis using ent[rule_format, of j' tr] j f by simp
      qed
    qed
    show ?thesis using run t keep e2 by auto
  next
    case (Some tr0)
    let ?p = "\<lambda>r. pt_playlist_id r = pid \<and> pt_track_id r = tr_id tr0 \<and> pt_position r = i + 1"
    let ?u = "\<lambda>r. r\<lparr>pt_added_at := ti_added_at it,
                     pt_added_by_id := upd (added_by_id it) (pt_added_by_id r),
                     pt_added_by_name := upd (added_by_name it) (pt_added_by_name r),
                     pt_position := i + 1\<rparr>"
    let ?c = "\<lambda>n. \<lparr>pt_playlist_id = pid, pt_track_id = tr_id tr0, pt_position = i + 1,
                     pt_added_at = ti_added_at it, pt_added_by_id = col (added_by_id it),
                     pt_added_by_name = col (added_by_name it)\<rparr>"
    define res where "res = upsert_row ?p ?u ?c (db_playlist_tracks (db w)) (db_next_id (db w))"
    obtain row rows' n' where r0: "res = (row, rows', n')" by (cases res)
    have r: "upsert_row ?p ?u ?c (db_playlist_tracks (db w)) (db_next_id (db w)) = (row, rows', n')"
      using r0 by (simp only: res_def)
    let ?w2 = "w\<lparr>trace := trace w @ [TrackFindUnique (t_id (ti_track it))]
                       @ [PlaylistTrackUpsert pid (tr_id tr0) (i + 1)],
                  db := (db w)\<lparr>db_playlist_tracks := rows', db_next_id := n'\<rparr>\<rparr>"
    have rowin: "row \<in> set rows'" using upsert_row_has[OF r] .
    have rowkey: "pt_playlist_id row = pid \<and> pt_track_id row = tr_id tr0
                  \<and> pt_position row = i + 1 \<and> pt_added_at row = ti_added_at it"
      using upsert_row_result[OF r] by auto
    have kept: "\<forall>x \<in> set (db_playlist_tracks (db w)). pt_position x \<le> i \<longrightarrow> x \<in> set rows'"
      using upsert_row_keeps[OF r] by auto
    from Cons.IH[of "Suc i" ?w2] obtain w' where
      l: "playlistTrack_loop e pid rest (Suc i) ?w2 = (Inr (), w')"
      and t: "db_tracks (db w') = db_tracks (db w)"
      and keep: "\<forall>x \<in> set rows'. pt_position x \<le> Suc i \<longrightarrow> x \<in> set (db_playlist_tracks (db w'))"
      and ent: "\<forall>j < length rest. \<forall>tr.
                 found_track (db_tracks (db w)) (rest ! j) = Some tr
                 \<longrightarrow> (\<exists>r \<in> set (db_playlist_tracks (db w')).
                        pt_playlist_id r = pid \<and> pt_track_id r = tr_id tr
                        \<and> pt_position r = Suc i + j + 1
                        \<and> pt_added_at r = ti_added_at (rest ! j))"
      by auto
    have run: "playlistTrack_loop e pid (it # rest) i w = (Inr (), w')"
      using l Some r by (simp add: perform_def ok found_track_def)
    have k2: "\<forall>x \<in> set (db_playlist_tracks (db w)).
                 pt_position x \<le> i \<longrightarrow> x \<in> set (db_playlist_tracks (db w'))"
      using kept keep by auto
    have first: "row \<in> set (db_playlist_tracks (db w'))"
      using keep rowin rowkey by auto
    have e2: "\<forall>j < length (it # rest). \<forall>tr.
                 found_track (db_tracks (db w)) ((it # rest) ! j) = Some tr
                 \<longrightarrow> (\<exists>r \<in> set (db_playlist_tracks (db w')).
                        pt_playlist_id r = pid \<and> pt_track_id r = tr_id tr
                        \<and> pt_position r = i + j + 1
                        \<and> pt_added_at r = ti_added_at ((it # rest) ! j))"
    proof (intro allI impI)
      fix j tr
      assume j: "j < length (it # rest)"
        and f: "found_track (db_tracks (db w)) ((it # rest) ! j) = Some tr"
      show "\<exists>r \<in> set (db_playlist_tracks (db w')).
                        pt_playlist_id r = pid \<and> pt_track_id r = tr_id tr
                        \<and> pt_position r = i + j + 1
                        \<and> pt_added_at r = ti_added_at ((it # rest) ! j)"
      proof (cases j)
        case 0
        then have "tr = tr0" using f Some by simp
        then show ?thesis using 0 first rowkey by auto
      next
        case (Suc j')
        then show ?thesis using ent[rule_format, of j' tr] j f by simp
      qed
    qed
    show ?thesis using run t k2 e2 by auto
  qed
qed

text \<open>The operations that the loop issues: a lookup for each item, an upsert if it is found.\<close>

lemma playlistTrack_loop_trace:
  assumes ok: "\<And>n op. fault e n op = None"
  shows "\<exists>w'. playlistTrack_loop e pid items i w = (Inr (), w')
           \<and> db_tracks (db w') = db_tracks (db w)
           \<and> errlog w' = errlog w
           \<and> trace w' = trace w @ link_ops (db_tracks (db w)) pid (Suc i) items"
proof (induction items arbitrary: i w)
  case Nil
  then show ?case by (simp add: link_ops_def)
next
  case (Cons it rest)
  let ?w1 = "w\<lparr>trace := trace w @ [TrackFindUnique (t_id (ti_track it))]\<rparr>"
  show ?case
  proof (cases "found_track (db_tracks (db w)) it")
    case None
    from Cons.IH[of "Suc i" ?w1] obtain w' where
      "playlistTrack_loop e pid rest (Suc i) ?w1 = (Inr (), w')"
      "db_tracks (db w') = db_tracks (db w)" "errlog w' = errlog w"
      "trace w' = trace ?w1 @ link_ops (db_tracks (db w)) pid (Suc (Suc i)) rest"
      by auto
    then show ?thesis using None
      by (simp add: perform_def ok found_track_def link_ops_def)
  next
    case (Some tr0)
    let ?p = "\<lambda>r. pt_playlist_id r = pid \<and> pt_track_id r = tr_id tr0 \<and> pt_position r = i + 1"
    let ?u = "\<lambda>r. r\<lparr>pt_added_at := ti_added_at it,
                     pt_added_by_id := upd (added_by_id it) (pt_added_by_id r),
                     pt_added_by_name := upd (added_by_name it) (pt_added_by_name r),
                     pt_position := i + 1\<rparr>"
    let ?c = "\<lambda>n. \<lparr>pt_playlist_id = pid, pt_track_id = tr_id tr0, pt_position = i + 1,
                     pt_added_at = ti_added_at it, pt_added_by_id = col (added_by_id it),
                     pt_added_by_name = col (added_by_name it)\<rparr>"
    define res where "res = upsert_row ?p ?u ?c (db_playlist_tracks (db w)) (db_next_id (db w))"
    obtain row rows' n' where r0: "res = (row, rows', n')" by (cases res)
    have r: "upsert_row ?p ?u ?c (db_playlist_tracks (db w)) (db_next_id (db w)) = (row, rows', n')"
      using r0 by (simp only: res_def)
    let ?w2 = "w\<lparr>trace := trace w @ [TrackFindUnique (t_id (ti_track it))]
                       @ [PlaylistTrackUpsert pid (tr_id tr0) (i + 1)],
                  db := (db w)\<lparr>db_playlist_tracks := rows', db_next_id := n'\<rparr>\<rparr>"
    from Cons.IH[of "Suc i" ?w2] obtain w' where
      "playlistTrack_loop e pid rest (Suc i) ?w2 = (Inr (), w')"
      "db_tracks (db w') = db_tracks (db w)" "errlog w' = errlog w"
      "trace w' = trace ?w2 @ link_ops (db_tracks (db w)) pid (Suc (Suc i)) rest"
      by auto
    then show ?thesis using Some r
      by (simp add: perform_def ok found_track_def link_ops_def)
  qed
qed

lemma linked_rows_map:
  "map (\<lambda>r. (pt_position r, Some (pt_track_id r), pt_added_at r)) (linked_rows tbl pid k items) =
   map (\<lambda>(j, it). (j, map_option tr_id (found_track tbl it), ti_added_at it))
     (filter (\<lambda>(j, it). found_track tbl it \<noteq> None) (enumerate k items))"
  by (induction items arbitrary: k)
     (auto simp: linked_rows_Nil linked_rows_Cons link_row_def split: option.splits)

lemma linked_rows_playlist: "\<forall>r \<in> set (linked_rows tbl pid k items). pt_playlist_id r = pid"
  by (induction items arbitrary: k)
     (auto simp: linked_rows_Nil linked_rows_Cons link_row_def split: option.splits)

lemma filter_linked_rows:
  assumes "\<forall>r \<in> set old. pt_playlist_id r \<noteq> pid"
  shows "filter (\<lambda>r. pt_playlist_id r = pid) (old @ linked_rows tbl pid k items)
           = linked_rows tbl pid k items"
proof -
  have "filter (\<lambda>r. pt_playlist_id r = pid) old = []"
    using assms by (simp add: filter_empty_conv)
  moreover have "filter (\<lambda>r. pt_playlist_id r = pid) (linked_rows tbl pid k items)
                   = linked_rows tbl pid k items"
    using linked_rows_playlist[of tbl pid k items] by (simp add: filter_id_conv)
  ultimately show ?thesis by simp
qed

lemma createPlaylistTrackRelations_general:
  assumes ok: "\<forall>n op. fault e n op = None"
  shows "\<exists>w'. createPlaylistTrackRelations e playlistId tracks addedAt w = (Inr (), w')
           \<and> errlog w' = errlog w
           \<and> trace w' = trace w @ link_ops (db_tracks (db w)) playlistId 1 tracks
           \<and> (\<forall>j < length tracks. \<forall>tr.
                 found_track (db_tracks (db w)) (tracks ! j) = Some tr
                 \<longrightarrow> (\<exists>r \<in> set (db_playlist_tracks (db w')).
                        pt_playlist_id r = playlistId \<and> pt_track_id r = tr_id tr
                        \<and> pt_position r = j + 1
                        \<and> pt_added_at r = ti_added_at (tracks ! j)))
           \<and> ((\<forall>r \<in> set (db_playlist_tracks (db w)). pt_playlist_id r \<noteq> playlistId)
                \<longrightarrow> filter (\<lambda>r. pt_playlist_id r = playlistId) (db_playlist_tracks (db w'))
                      = linked_rows (db_tracks (db w)) playlistId 1 tracks)"
proof -
  have ok': "\<And>n op. fault e n op = None" using ok by simp
  from playlistTrack_loop_trace[of e playlistId tracks 0 w, OF ok'] obtain w' where
    l: "playlistTrack_loop e playlistId tracks 0 w = (Inr (), w')" and lg: "errlog w' = errlog w"
    and tr: "trace w' = trace w @ link_ops (db_tracks (db w)) playlistId (Suc 0) tracks"
    by blast
  from playlistTrack_loop_entries[of e playlistId tracks 0 w, OF ok'] l
  have ent: "\<forall>j < length tracks. \<forall>tr.
                 found_track (db_tracks (db w)) (tracks ! j) = Some tr
                 \<longrightarrow> (\<exists>r \<in> set (db_playlist_tracks (db w')).
                        pt_playlist_id r = playlistId \<and> pt_track_id r = tr_id tr
                        \<and> pt_position r = j + 1
                        \<and> pt_added_at r = ti_added_at (tracks ! j))"
    by auto
  have fr: "(\<forall>r \<in> set (db_playlist_tracks (db w)). pt_playlist_id r \<noteq> playlistId)
                \<longrightarrow> filter (\<lambda>r. pt_playlist_id r = playlistId) (db_playlist_tracks (db w'))
                      = linked_rows (db_tracks (db w)) playlistId 1 tracks"
  proof
    assume fresh: "\<forall>r \<in> set (db_playlist_tracks (db w)). pt_playlist_id r \<noteq> playlistId"
    then have inv: "\<forall>r \<in> set (db_playlist_tracks (db w)).
                      pt_playlist_id r = playlistId \<longrightarrow> pt_position r \<le> 0"
      by simp
    from playlistTrack_loop_rows[of e w playlistId 0 tracks, OF ok' inv] l
    have "db_playlist_tracks (db w') =
            db_playlist_tracks (db w) @ linked_rows (db_tracks (db w)) playlistId (Suc 0) tracks"
      by auto
    then show "filter (\<lambda>r. pt_playlist_id r = playlistId) (db_playlist_tracks (db w'))
                 = linked_rows (db_tracks (db w)) playlistId 1 tracks"
      using filter_linked_rows[OF fresh] by simp
  qed
  show ?thesis
    using l lg tr ent fr by (simp add: createPlaylistTrackRelations_def)
qed

lemma map_key_update_first_on:
  "(\<And>x. p x \<Longrightarrow> k (u x) = k x) \<Longrightarrow> map k (update_first p u rows) = map k rows"
  by (induction rows) simp_all

lemma find_key_None: "find (\<lambda>x. k x = key) rows = None \<Longrightarrow> key \<notin> set (map k rows)"
  by (induction rows) (auto split: if_splits)

lemma find_key_Some: "find (\<lambda>x. k x = key) rows = Some r \<Longrightarrow> key \<in> set (map k rows)"
  by (induction rows) (auto split: if_splits)

lemma upsert_row_keys:
  assumes u: "\<And>x. k x = key \<Longrightarrow> k (u x) = key"
      and c: "\<And>n. k (c n) = key"
      and r: "upsert_row (\<lambda>x. k x = key) u c rows n = (row, rows', n')"
  shows "set (map k rows') = insert key (set (map k rows))"
    and "distinct (map k rows) \<Longrightarrow> distinct (map k rows')"
proof -
  have m: "map k (update_first (\<lambda>x. k x = key) u rows) = map k rows"
    by (rule map_key_update_first_on) (simp add: u)
  show "set (map k rows') = insert key (set (map k rows))"
  proof (cases "find (\<lambda>x. k x = key) rows")
    case None
    then have "rows' = rows @ [c n]" using r by (auto simp: upsert_row_def)
    then show ?thesis using c by simp
  next
    case (Some old)
    then have "rows' = update_first (\<lambda>x. k x = key) u rows" using r by (auto simp: upsert_row_def)
    then show ?thesis using m find_key_Some[OF Some] by auto
  qed
  show "distinct (map k rows) \<Longrightarrow> distinct (map k rows')"
  proof (cases "find (\<lambda>x. k x = key) rows")
    case None
    assume d: "distinct (map k rows)"
    have "rows' = rows @ [c n]" using None r by (auto simp: upsert_row_def)
    then show ?thesis using d c find_key_None[OF None] by simp
  next
    case (Some old)
    assume d: "distinct (map k rows)"
    have "rows' = update_first (\<lambda>x. k x = key) u rows" using Some r by (auto simp: upsert_row_def)
    then show ?thesis using d m by simp
  qed
qed

text \<open>The keys in the table after the loop: those before, and those of the found items.\<close>

lemma playlistTrack_loop_keys:
  assumes ok: "\<And>n op. fault e n op = None"
  shows "\<exists>w'. playlistTrack_loop e pid items i w = (Inr (), w')
           \<and> db_tracks (db w') = db_tracks (db w)
           \<and> set (map pt_key (db_playlist_tracks (db w')))
               = set (map pt_key (db_playlist_tracks (db w)))
                 \<union> set (map pt_key (linked_rows (db_tracks (db w)) pid (Suc i) items))
           \<and> (distinct (map pt_key (db_playlist_tracks (db w)))
                \<longrightarrow> distinct (map pt_key (db_playlist_tracks (db w'))))"
proof (induction items arbitrary: i w)
  case Nil
  then show ?case by (simp add: linked_rows_Nil)
next
  case (Cons it rest)
  let ?w1 = "w\<lparr>trace := trace w @ [TrackFindUnique (t_id (ti_track it))]\<rparr>"
  show ?case
  proof (cases "found_track (db_tracks (db w)) it")
    case None
    from Cons.IH[of "Suc i" ?w1] obtain w' where
      "playlistTrack_loop e pid rest (Suc i) ?w1 = (Inr (), w')"
      "db_tracks (db w') = db_tracks (db w)"
      "set (map pt_key (db_playlist_tracks (db w')))
               = set (map pt_key (db_playlist_tracks (db w)))
                 \<union> set (map pt_key (linked_rows (db_tracks (db w)) pid (Suc (Suc i)) rest))"
      "distinct (map pt_key (db_playlist_tracks (db w)))
                \<longrightarrow> distinct (map pt_key (db_playlist_tracks (db w')))"
      by auto
    then show ?thesis using None
      by (simp add: perform_def ok found_track_def linked_rows_Cons)
  next
    case (Some tr0)
    let ?key = "(pid, tr_id tr0, i + 1)"
    let ?p = "\<lambda>r. pt_playlist_id r = pid \<and> pt_track_id r = tr_id tr0 \<and> pt_position r = i + 1"
    let ?u = "\<lambda>r. r\<lparr>pt_added_at := ti_added_at it,
                     pt_added_by_id := upd (added_by_id it) (pt_added_by_id r),
                     pt_added_by_name := upd (added_by_name it) (pt_added_by_name r),
                     pt_position := i + 1\<rparr>"
    let ?c = "\<lambda>n. \<lparr>pt_playlist_id = pid, pt_track_id = tr_id tr0, pt_position = i + 1,
                     pt_added_at = ti_added_at it, pt_added_by_id = col (added_by_id it),
                     pt_added_by_name = col (added_by_name it)\<rparr>"
    define res where "res = upsert_row ?p ?u ?c (db_playlist_tracks (db w)) (db_next_id (db w))"
    obtain row rows' n' where r0: "res = (row, rows', n')" by (cases res)
    have r: "upsert_row ?p ?u ?c (db_playlist_tracks (db w)) (db_next_id (db w)) = (row, rows', n')"
      using r0 by (simp only: res_def)
    have pk: "?p = (\<lambda>x. pt_key x = ?key)" by (auto simp: pt_key_def)
    have r': "upsert_row (\<lambda>x. pt_key x = ?key) ?u ?c (db_playlist_tracks (db w)) (db_next_id (db w))
                = (row, rows', n')"
      using r by (simp only: pk)
    have ku: "\<And>x. pt_key x = ?key \<Longrightarrow> pt_key (?u x) = ?key" by (auto simp: pt_key_def)
    have kc: "\<And>n. pt_key (?c n) = ?key" by (simp add: pt_key_def)
    have ks: "set (map pt_key rows') = insert ?key (set (map pt_key (db_playlist_tracks (db w))))"
      by (rule upsert_row_keys(1)[where k = pt_key and key = ?key and u = ?u and c = ?c, OF ku kc r'])
    have kd: "distinct (map pt_key (db_playlist_tracks (db w))) \<Longrightarrow> distinct (map pt_key rows')"
      by (rule upsert_row_keys(2)[where k = pt_key and key = ?key and u = ?u and c = ?c, OF ku kc r'])
    let ?w2 = "w\<lparr>trace := trace w @ [TrackFindUnique (t_id (ti_track it))]
                       @ [PlaylistTrackUpsert pid (tr_id tr0) (i + 1)],
                  db := (db w)\<lparr>db_playlist_tracks := rows', db_next_id := n'\<rparr>\<rparr>"
    from Cons.IH[of "Suc i" ?w2] obtain w' where
      l: "playlistTrack_loop e pid rest (Suc i) ?w2 = (Inr (), w')"
      and t: "db_tracks (db w') = db_tracks (db w)"
      and s: "set (map pt_key (db_playlist_tracks (db w')))
               = set (map pt_key rows')
                 \<union> set (map pt_key (linked_rows (db_tracks (db w)) pid (Suc (Suc i)) rest))"
      and d: "distinct (map pt_key rows') \<longrightarrow> distinct (map pt_key (db_playlist_tracks (db w')))"
      by auto
    have run: "playlistTrack_loop e pid (it # rest) i w = (Inr (), w')"
      using l Some r by (simp add: perform_def ok found_track_def)
    have lk: "set (map pt_key (linked_rows (db_tracks (db w)) pid (Suc i) (it # rest)))
                = insert ?key (set (map pt_key (linked_rows (db_tracks (db w)) pid (Suc (Suc i)) rest)))"
      using Some by (simp add: linked_rows_Cons link_row_def pt_key_def)
    have s2: "set (map pt_key (db_playlist_tracks (db w')))
               = set (map pt_key (db_playlist_tracks (db w)))
                 \<union> set (map pt_key (linked_rows (db_tracks (db w)) pid (Suc i) (it # rest)))"
      unfolding s ks lk by blast
    show ?thesis using run t s2 d kd by blast
  qed
qed

lemma in_linked_rows:
  "r \<in> set (linked_rows tbl pid k items) \<longleftrightarrow>
     (\<exists>j < length items. \<exists>tr. found_track tbl (items ! j) = Some tr
         \<and> r = link_row pid (k + j) (items ! j) tr)"
proof (induction items arbitrary: k)
  case Nil
  then show ?case by (simp add: linked_rows_Nil)
next
  case (Cons it rest)
  have "r \<in> set (linked_rows tbl pid k (it # rest)) \<longleftrightarrow>
          (\<exists>tr. found_track tbl it = Some tr \<and> r = link_row pid k it tr)
          \<or> r \<in> set (linked_rows tbl pid (Suc k) rest)"
    by (cases "found_track tbl it") (auto simp: linked_rows_Cons)
  also have "\<dots> \<longleftrightarrow>
          (\<exists>tr. found_track tbl it = Some tr \<and> r = link_row pid k it tr)
          \<or> (\<exists>j < length rest. \<exists>tr. found_track tbl (rest ! j) = Some tr
                 \<and> r = link_row pid (Suc k + j) (rest ! j) tr)"
    by (simp only: Cons.IH)
  also have "\<dots> \<longleftrightarrow>
          (\<exists>j < length (it # rest). \<exists>tr. found_track tbl ((it # rest) ! j) = Some tr
                 \<and> r = link_row pid (k + j) ((it # rest) ! j) tr)"
  proof
    assume "(\<exists>tr. found_track tbl it = Some tr \<and> r = link_row pid k it tr)
          \<or> (\<exists>j < length rest. \<exists>tr. found_track tbl (rest ! j) = Some tr
                 \<and> r = link_row pid (Suc k + j) (rest ! j) tr)"
    then show "\<exists>j < length (it # rest). \<exists>tr. found_track tbl ((it # rest) ! j) = Some tr
                 \<and> r = link_row pid (k + j) ((it # rest) ! j) tr"
    proof
      assume "\<exists>tr. found_track tbl it = Some tr \<and> r = link_row pid k it tr"
      then show ?thesis by (intro exI[of _ 0]) simp
    next
      assume "\<exists>j < length rest. \<exists>tr. found_track tbl (rest ! j) = Some tr
                 \<and> r = link_row pid (Suc k + j) (rest ! j) tr"
      then obtain j tr where "j < length rest" "found_track tbl (rest ! j) = Some tr"
        "r = link_row pid (Suc k + j) (rest ! j) tr" by blast
      then show ?thesis by (intro exI[of _ "Suc j"]) simp
    qed
  next
    assume "\<exists>j < length (it # rest). \<exists>tr. found_track tbl ((it # rest) ! j) = Some tr
                 \<and> r = link_row pid (k + j) ((it # rest) ! j) tr"
    then obtain j tr where j: "j < length (it # rest)"
      and f: "found_track tbl ((it # rest) ! j) = Some tr"
      and e: "r = link_row pid (k + j) ((it # rest) ! j) tr" by blast
    show "(\<exists>tr. found_track tbl it = Some tr \<and> r = link_row pid k it tr)
          \<or> (\<exists>j < length rest. \<exists>tr. found_track tbl (rest ! j) = Some tr
                 \<and> r = link_row pid (Suc k + j) (rest ! j) tr)"
    proof (cases j)
      case 0
      then show ?thesis using f e by simp
    next
      case (Suc j')
      then show ?thesis using j f e by auto
    qed
  qed
  finally show ?case .
qed

text \<open>The loop leaves in place every entry whose key is not that of an item's entry.\<close>

lemma playlistTrack_loop_stale:
  assumes ok: "\<And>n op. fault e n op = None"
  shows "\<exists>w'. playlistTrack_loop e pid items i w = (Inr (), w')
           \<and> (\<forall>r \<in> set (db_playlist_tracks (db w)).
                 pt_key r \<notin> set (map pt_key (linked_rows (db_tracks (db w)) pid (Suc i) items))
                 \<longrightarrow> r \<in> set (db_playlist_tracks (db w')))"
proof (induction items arbitrary: i w)
  case Nil
  then show ?case by simp
next
  case (Cons it rest)
  let ?w1 = "w\<lparr>trace := trace w @ [TrackFindUnique (t_id (ti_track it))]\<rparr>"
  show ?case
  proof (cases "found_track (db_tracks (db w)) it")
    case None
    from Cons.IH[of "Suc i" ?w1] obtain w' where
      "playlistTrack_loop e pid rest (Suc i) ?w1 = (Inr (), w')"
      "\<forall>r \<in> set (db_playlist_tracks (db w)).
         pt_key r \<notin> set (map pt_key (linked_rows (db_tracks (db w)) pid (Suc (Suc i)) rest))
         \<longrightarrow> r \<in> set (db_playlist_tracks (db w'))"
      by auto
    then show ?thesis using None
      by (simp add: perform_def ok found_track_def linked_rows_Cons)
  next
    case (Some tr0)
    let ?key = "(pid, tr_id tr0, i + 1)"
    let ?p = "\<lambda>r. pt_playlist_id r = pid \<and> pt_track_id r = tr_id tr0 \<and> pt_position r = i + 1"
    let ?u = "\<lambda>r. r\<lparr>pt_added_at := ti_added_at it,
                     pt_added_by_id := upd (added_by_id it) (pt_added_by_id r),
                     pt_added_by_name := upd (added_by_name it) (pt_added_by_name r),
                     pt_position := i + 1\<rparr>"
    let ?c = "\<lambda>n. \<lparr>pt_playlist_id = pid, pt_track_id = tr_id tr0, pt_position = i + 1,
                     pt_added_at = ti_added_at it, pt_added_by_id = col (added_by_id it),
                     pt_added_by_name = col (added_by_name it)\<rparr>"
    define res where "res = upsert_row ?p ?u ?c (db_playlist_tracks (db w)) (db_next_id (db w))"
    obtain row rows' n' where r0: "res = (row, rows', n')" by (cases res)
    have r: "upsert_row ?p ?u ?c (db_playlist_tracks (db w)) (db_next_id (db w)) = (row, rows', n')"
      using r0 by (simp only: res_def)
    have kept: "\<forall>x \<in> set (db_playlist_tracks (db w)). pt_key x \<noteq> ?key \<longrightarrow> x \<in> set rows'"
      using upsert_row_keeps[OF r] by (auto simp: pt_key_def)
    let ?w2 = "w\<lparr>trace := trace w @ [TrackFindUnique (t_id (ti_track it))]
                       @ [PlaylistTrackUpsert pid (tr_id tr0) (i + 1)],
                  db := (db w)\<lparr>db_playlist_tracks := rows', db_next_id := n'\<rparr>\<rparr>"
    from Cons.IH[of "Suc i" ?w2] obtain w' where
      l: "playlistTrack_loop e pid rest (Suc i) ?w2 = (Inr (), w')"
      and s: "\<forall>r \<in> set rows'.
               pt_key r \<notin> set (map pt_key (linked_rows (db_tracks (db w)) pid (Suc (Suc i)) rest))
               \<longrightarrow> r \<in> set (db_playlist_tracks (db w'))"
      by auto
    have run: "playlistTrack_loop e pid (it # rest) i w = (Inr (), w')"
      using l Some r by (simp add: perform_def ok found_track_def)
    have lk: "set (map pt_key (linked_rows (db_tracks (db w)) pid (Suc i) (it # rest)))
                = insert ?key (set (map pt_key (linked_rows (db_tracks (db w)) pid (Suc (Suc i)) rest)))"
      using Some by (simp add: linked_rows_Cons link_row_def pt_key_def)
    have s2: "\<forall>r \<in> set (db_playlist_tracks (db w)).
                 pt_key r \<notin> set (map pt_key (linked_rows (db_tracks (db w)) pid (Suc i) (it # rest)))
                 \<longrightarrow> r \<in> set (db_playlist_tracks (db w'))"
      unfolding lk using kept s by blast
    show ?thesis using run s2 by blast
  qed
qed

lemma createPlaylistTrackRelations_keys:
  assumes ok: "\<forall>n op. fault e n op = None"
  shows "\<exists>w'. createPlaylistTrackRelations e playlistId tracks addedAt w = (Inr (), w')
           \<and> set (map pt_key (db_playlist_tracks (db w')))
               = set (map pt_key (db_playlist_tracks (db w)))
                 \<union> set (map pt_key (linked_rows (db_tracks (db w)) playlistId 1 tracks))
           \<and> (distinct (map pt_key (db_playlist_tracks (db w)))
                \<longrightarrow> distinct (map pt_key (db_playlist_tracks (db w'))))
           \<and> (\<forall>r \<in> set (db_playlist_tracks (db w)).
                 pt_key r \<notin> set (map pt_key (linked_rows (db_tracks (db w)) playlistId 1 tracks))
                 \<longrightarrow> r \<in> set (db_playlist_tracks (db w')))"
proof -
  have ok': "\<And>n op. fault e n op = None" using ok by simp
  from playlistTrack_loop_keys[of e playlistId tracks 0 w, OF ok'] obtain w' where
    l: "playlistTrack_loop e playlistId tracks 0 w = (Inr (), w')"
    and s: "set (map pt_key (db_playlist_tracks (db w')))
               = set (map pt_key (db_playlist_tracks (db w)))
                 \<union> set (map pt_key (linked_rows (db_tracks (db w)) playlistId (Suc 0) tracks))"
    and d: "distinct (map pt_key (db_playlist_tracks (db w)))
                \<longrightarrow> distinct (map pt_key (db_playlist_tracks (db w')))"
    by blast
  from playlistTrack_loop_stale[of e playlistId tracks 0 w, OF ok'] l
  have st: "\<forall>r \<in> set (db_playlist_tracks (db w)).
                 pt_key r \<notin> set (map pt_key (linked_rows (db_tracks (db w)) playlistId (Suc 0) tracks))
                 \<longrightarrow> r \<in> set (db_playlist_tracks (db w'))"
    by auto
  show ?thesis
    using l s d st by (simp add: createPlaylistTrackRelations_def)
qed

text \<open>The keys of the entries of the items, when the track of every item is in the store.\<close>

lemma linked_rows_keys:
  "k \<in> set (map pt_key (linked_rows tbl pid 1 items)) \<longleftrightarrow>
     (\<exists>j < length items. \<exists>tr. found_track tbl (items ! j) = Some tr \<and> k = (pid, tr_id tr, j + 1))"
proof
  assume "k \<in> set (map pt_key (linked_rows tbl pid 1 items))"
  then obtain x where x: "x \<in> set (linked_rows tbl pid 1 items)" and k: "k = pt_key x" by auto
  from x obtain j tr where "j < length items" "found_track tbl (items ! j) = Some tr"
    "x = link_row pid (1 + j) (items ! j) tr"
    unfolding in_linked_rows by blast
  then show "\<exists>j < length items. \<exists>tr. found_track tbl (items ! j) = Some tr \<and> k = (pid, tr_id tr, j + 1)"
    using k by (auto simp: pt_key_def link_row_def)
next
  assume "\<exists>j < length items. \<exists>tr. found_track tbl (items ! j) = Some tr \<and> k = (pid, tr_id tr, j + 1)"
  then obtain j tr where j: "j < length items" and f: "found_track tbl (items ! j) = Some tr"
    and k: "k = (pid, tr_id tr, j + 1)" by blast
  have "link_row pid (1 + j) (items ! j) tr \<in> set (linked_rows tbl pid 1 items)"
    unfolding in_linked_rows using j f by blast
  moreover have "pt_key (link_row pid (1 + j) (items ! j) tr) = k"
    using k by (simp add: pt_key_def link_row_def)
  ultimately show "k \<in> set (map pt_key (linked_rows tbl pid 1 items))"
    by (metis image_eqI set_map)
qed

text \<open>
  C4. When no store operation fails and every item's track is in the store,
  \<^verbatim>\<open>createPlaylistTrackRelations\<close> returns normally and, for the item at each (1-based) index
  \<open>j\<close>, the table then holds an entry of this playlist with position \<open>j\<close>, the local id of
  that item's track and its \<^verbatim>\<open>added_at\<close>. The function deletes nothing: an earlier entry
  that is not the entry of an item (this playlist, the item's track, the item's position)
  stays in the table. So the entries of the playlist afterwards are exactly the items in
  source order, with the positions \<open>1, \<dots>, N\<close>,
  \<^item> when the playlist had no entries before (then they are so in table order), and
  \<^item> when the keys of the table are unique and every earlier entry of the playlist is the
    entry of an item, as on a second import of the same sequence: then the entries, listed
    by position, are the items in source order with their \<^verbatim>\<open>added_at\<close>.
  Nothing requires the tracks of two items to differ. After an import of the same tracks in
  another order the entries of the earlier import remain, and the positions of the playlist's
  entries are not \<open>1, \<dots>, N\<close>.
\<close>

theorem createPlaylistTrackRelations_positions:
  assumes ok: "\<forall>n op. fault e n op = None"
      and found: "\<forall>it \<in> set tracks. found_track (db_tracks (db w)) it \<noteq> None"
  shows "\<exists>w'. createPlaylistTrackRelations e playlistId tracks addedAt w = (Inr (), w')
           \<and> (\<forall>j < length tracks.
                 \<exists>r \<in> set (db_playlist_tracks (db w')).
                   pt_playlist_id r = playlistId \<and> pt_position r = j + 1
                   \<and> Some (pt_track_id r) = map_option tr_id (found_track (db_tracks (db w)) (tracks ! j))
                   \<and> pt_added_at r = ti_added_at (tracks ! j))
           \<and> (\<forall>r \<in> set (db_playlist_tracks (db w)).
                 \<not> (\<exists>j < length tracks.
                       pt_playlist_id r = playlistId \<and> pt_position r = j + 1
                       \<and> Some (pt_track_id r)
                           = map_option tr_id (found_track (db_tracks (db w)) (tracks ! j)))
                 \<longrightarrow> r \<in> set (db_playlist_tracks (db w')))
           \<and> ((\<forall>r \<in> set (db_playlist_tracks (db w)). pt_playlist_id r \<noteq> playlistId)
                \<longrightarrow> map (\<lambda>r. (pt_position r, Some (pt_track_id r), pt_added_at r))
                        (filter (\<lambda>r. pt_playlist_id r = playlistId) (db_playlist_tracks (db w')))
                      = map (\<lambda>(j, it). (j, map_option tr_id (found_track (db_tracks (db w)) it),
                                         ti_added_at it))
                          (enumerate 1 tracks)
                    \<and> map pt_position
                        (filter (\<lambda>r. pt_playlist_id r = playlistId) (db_playlist_tracks (db w')))
                      = [1 ..< Suc (length tracks)])
           \<and> (distinct (map pt_key (db_playlist_tracks (db w)))
               \<and> (\<forall>r \<in> set (db_playlist_tracks (db w)).
                     pt_playlist_id r = playlistId
                     \<longrightarrow> (\<exists>j < length tracks.
                            pt_position r = j + 1
                            \<and> Some (pt_track_id r)
                                = map_option tr_id (found_track (db_tracks (db w)) (tracks ! j))))
                \<longrightarrow> map (\<lambda>r. (pt_position r, Some (pt_track_id r), pt_added_at r))
                        (sort_key pt_position
                           (filter (\<lambda>r. pt_playlist_id r = playlistId) (db_playlist_tracks (db w'))))
                      = map (\<lambda>(j, it). (j, map_option tr_id (found_track (db_tracks (db w)) it),
                                         ti_added_at it))
                          (enumerate 1 tracks)
                    \<and> map pt_position
                        (sort_key pt_position
                           (filter (\<lambda>r. pt_playlist_id r = playlistId) (db_playlist_tracks (db w'))))
                      = [1 ..< Suc (length tracks)])"
proof -
  let ?tbl = "db_tracks (db w)"
  let ?T = "db_playlist_tracks (db w)"
  let ?N = "length tracks"
  from createPlaylistTrackRelations_general[OF ok, of playlistId tracks addedAt w] obtain w' where
    r: "createPlaylistTrackRelations e playlistId tracks addedAt w = (Inr (), w')"
    and ent: "\<forall>j < length tracks. \<forall>tr.
                 found_track ?tbl (tracks ! j) = Some tr
                 \<longrightarrow> (\<exists>r \<in> set (db_playlist_tracks (db w')).
                        pt_playlist_id r = playlistId \<and> pt_track_id r = tr_id tr
                        \<and> pt_position r = j + 1
                        \<and> pt_added_at r = ti_added_at (tracks ! j))"
    and fr: "(\<forall>r \<in> set ?T. pt_playlist_id r \<noteq> playlistId)
                \<longrightarrow> filter (\<lambda>r. pt_playlist_id r = playlistId) (db_playlist_tracks (db w'))
                      = linked_rows ?tbl playlistId 1 tracks"
    by blast
  let ?T' = "db_playlist_tracks (db w')"
  let ?rows = "filter (\<lambda>r. pt_playlist_id r = playlistId) ?T'"
  from createPlaylistTrackRelations_keys[OF ok, of playlistId tracks addedAt w] r
  have ks: "set (map pt_key ?T') = set (map pt_key ?T) \<union> set (map pt_key (linked_rows ?tbl playlistId 1 tracks))"
    and kd: "distinct (map pt_key ?T) \<longrightarrow> distinct (map pt_key ?T')"
    and st: "\<forall>r \<in> set ?T. pt_key r \<notin> set (map pt_key (linked_rows ?tbl playlistId 1 tracks))
                 \<longrightarrow> r \<in> set ?T'"
    by auto
  have tbl: "\<exists>tr. found_track ?tbl (tracks ! j) = Some tr" if "j < ?N" for j
    using found that by (metis nth_mem not_None_eq)
  have e1: "\<forall>j < length tracks.
                 \<exists>r \<in> set ?T'.
                   pt_playlist_id r = playlistId \<and> pt_position r = j + 1
                   \<and> Some (pt_track_id r) = map_option tr_id (found_track ?tbl (tracks ! j))
                   \<and> pt_added_at r = ti_added_at (tracks ! j)"
  proof (intro allI impI)
    fix j assume j: "j < length tracks"
    then obtain tr where f: "found_track ?tbl (tracks ! j) = Some tr"
      using tbl by blast
    from ent[rule_format, OF j f] obtain r where
      "r \<in> set ?T'" "pt_playlist_id r = playlistId"
      "pt_track_id r = tr_id tr" "pt_position r = j + 1" "pt_added_at r = ti_added_at (tracks ! j)"
      by blast
    then show "\<exists>r \<in> set ?T'.
                   pt_playlist_id r = playlistId \<and> pt_position r = j + 1
                   \<and> Some (pt_track_id r) = map_option tr_id (found_track ?tbl (tracks ! j))
                   \<and> pt_added_at r = ti_added_at (tracks ! j)"
      using f by auto
  qed
  have stale: "\<forall>r \<in> set ?T.
                 \<not> (\<exists>j < length tracks.
                       pt_playlist_id r = playlistId \<and> pt_position r = j + 1
                       \<and> Some (pt_track_id r) = map_option tr_id (found_track ?tbl (tracks ! j)))
                 \<longrightarrow> r \<in> set ?T'"
  proof (intro ballI impI)
    fix x assume x: "x \<in> set ?T"
      and n: "\<not> (\<exists>j < length tracks.
                       pt_playlist_id x = playlistId \<and> pt_position x = j + 1
                       \<and> Some (pt_track_id x) = map_option tr_id (found_track ?tbl (tracks ! j)))"
    have "pt_key x \<notin> set (map pt_key (linked_rows ?tbl playlistId 1 tracks))"
    proof
      assume "pt_key x \<in> set (map pt_key (linked_rows ?tbl playlistId 1 tracks))"
      then obtain j tr where "j < ?N" "found_track ?tbl (tracks ! j) = Some tr"
        "pt_key x = (playlistId, tr_id tr, j + 1)"
        unfolding linked_rows_keys by blast
      then have "j < ?N \<and> pt_playlist_id x = playlistId \<and> pt_position x = j + 1
                  \<and> Some (pt_track_id x) = map_option tr_id (found_track ?tbl (tracks ! j))"
        by (simp add: pt_key_def)
      then show False using n by blast
    qed
    then show "x \<in> set ?T'" using st x by blast
  qed
  have all: "filter (\<lambda>(j, it). found_track ?tbl it \<noteq> None) (enumerate 1 tracks)
               = enumerate 1 tracks"
    using found by (auto simp: filter_id_conv in_set_enumerate_eq)
  have m: "map (\<lambda>r. (pt_position r, Some (pt_track_id r), pt_added_at r))
             (linked_rows ?tbl playlistId 1 tracks)
           = map (\<lambda>(j, it). (j, map_option tr_id (found_track ?tbl it), ti_added_at it))
               (enumerate 1 tracks)"
    using linked_rows_map[of "?tbl" playlistId 1 tracks] by (simp only: all)
  have "map pt_position (linked_rows ?tbl playlistId 1 tracks)
          = map fst (map (\<lambda>r. (pt_position r, Some (pt_track_id r), pt_added_at r))
                       (linked_rows ?tbl playlistId 1 tracks))"
    by (simp add: comp_def)
  also have "\<dots> = map fst (enumerate 1 tracks)"
    by (simp only: m) (simp add: comp_def case_prod_unfold)
  also have "\<dots> = [1 ..< Suc (length tracks)]"
    by simp
  finally have p: "map pt_position (linked_rows ?tbl playlistId 1 tracks)
                     = [1 ..< Suc (length tracks)]" .
  have fresh: "(\<forall>r \<in> set ?T. pt_playlist_id r \<noteq> playlistId)
                \<longrightarrow> map (\<lambda>r. (pt_position r, Some (pt_track_id r), pt_added_at r)) ?rows
                      = map (\<lambda>(j, it). (j, map_option tr_id (found_track ?tbl it), ti_added_at it))
                          (enumerate 1 tracks)
                    \<and> map pt_position ?rows = [1 ..< Suc (length tracks)]"
    using fr m p by auto
  have again: "distinct (map pt_key ?T)
               \<and> (\<forall>r \<in> set ?T.
                     pt_playlist_id r = playlistId
                     \<longrightarrow> (\<exists>j < length tracks.
                            pt_position r = j + 1
                            \<and> Some (pt_track_id r) = map_option tr_id (found_track ?tbl (tracks ! j))))
                \<longrightarrow> map (\<lambda>r. (pt_position r, Some (pt_track_id r), pt_added_at r))
                        (sort_key pt_position ?rows)
                      = map (\<lambda>(j, it). (j, map_option tr_id (found_track ?tbl it), ti_added_at it))
                          (enumerate 1 tracks)
                    \<and> map pt_position (sort_key pt_position ?rows) = [1 ..< Suc (length tracks)]"
  proof
    assume a: "distinct (map pt_key ?T)
               \<and> (\<forall>r \<in> set ?T.
                     pt_playlist_id r = playlistId
                     \<longrightarrow> (\<exists>j < length tracks.
                            pt_position r = j + 1
                            \<and> Some (pt_track_id r) = map_option tr_id (found_track ?tbl (tracks ! j))))"
    then have uniq: "distinct (map pt_key ?T)"
      and prior: "\<forall>r \<in> set ?T.
                     pt_playlist_id r = playlistId
                     \<longrightarrow> (\<exists>j < length tracks.
                            pt_position r = j + 1
                            \<and> Some (pt_track_id r) = map_option tr_id (found_track ?tbl (tracks ! j)))"
      by blast+
    have d': "distinct (map pt_key ?T')" using kd uniq by simp
    then have inj: "inj_on pt_key (set ?T')" and dT: "distinct ?T'"
      by (simp_all add: distinct_map)
    have cls: "\<exists>j < ?N. pt_position x = j + 1
                 \<and> Some (pt_track_id x) = map_option tr_id (found_track ?tbl (tracks ! j))
                 \<and> pt_added_at x = ti_added_at (tracks ! j)"
      if xin: "x \<in> set ?T'" and xp: "pt_playlist_id x = playlistId" for x
    proof -
      have "pt_key x \<in> set (map pt_key ?T')" using xin by simp
      then have "pt_key x \<in> set (map pt_key ?T)
                   \<or> pt_key x \<in> set (map pt_key (linked_rows ?tbl playlistId 1 tracks))"
        unfolding ks by blast
      then have "\<exists>j < ?N. \<exists>tr. found_track ?tbl (tracks ! j) = Some tr
                    \<and> pt_key x = (playlistId, tr_id tr, j + 1)"
      proof
        assume "pt_key x \<in> set (map pt_key ?T)"
        then obtain x0 where x0: "x0 \<in> set ?T" and k0: "pt_key x0 = pt_key x" by auto
        have p0: "pt_playlist_id x0 = playlistId" using k0 xp by (simp add: pt_key_def)
        from prior[rule_format, OF x0 p0] obtain j where j: "j < ?N"
          and pj: "pt_position x0 = j + 1"
          and tj: "Some (pt_track_id x0) = map_option tr_id (found_track ?tbl (tracks ! j))"
          by blast
        from tbl[OF j] obtain tr where f: "found_track ?tbl (tracks ! j) = Some tr" by blast
        have "pt_key x = (playlistId, tr_id tr, j + 1)"
          using k0 p0 pj tj f by (auto simp: pt_key_def)
        then show ?thesis using j f by blast
      next
        assume "pt_key x \<in> set (map pt_key (linked_rows ?tbl playlistId 1 tracks))"
        then show ?thesis unfolding linked_rows_keys .
      qed
      then obtain j tr where j: "j < ?N" and f: "found_track ?tbl (tracks ! j) = Some tr"
        and k: "pt_key x = (playlistId, tr_id tr, j + 1)" by blast
      from ent[rule_format, OF j f] obtain x2 where x2: "x2 \<in> set ?T'"
        and k2: "pt_playlist_id x2 = playlistId" "pt_track_id x2 = tr_id tr" "pt_position x2 = j + 1"
        and a2: "pt_added_at x2 = ti_added_at (tracks ! j)"
        by blast
      have "pt_key x2 = pt_key x" using k k2 by (simp add: pt_key_def)
      then have "x2 = x" using inj x2 xin by (rule_tac inj_onD)
      then have "pt_position x = j + 1
                 \<and> Some (pt_track_id x) = map_option tr_id (found_track ?tbl (tracks ! j))
                 \<and> pt_added_at x = ti_added_at (tracks ! j)"
        using k2 a2 f by simp
      then show ?thesis using j by blast
    qed
    have injp: "inj_on pt_position (set ?rows)"
    proof (rule inj_onI)
      fix a b
      assume a: "a \<in> set ?rows" and b: "b \<in> set ?rows" and e: "pt_position a = pt_position b"
      from a have a1: "a \<in> set ?T'" and a2: "pt_playlist_id a = playlistId" by simp_all
      from b have b1: "b \<in> set ?T'" and b2: "pt_playlist_id b = playlistId" by simp_all
      from cls[OF a1 a2] obtain ja where ja: "pt_position a = ja + 1"
        "Some (pt_track_id a) = map_option tr_id (found_track ?tbl (tracks ! ja))" by blast
      from cls[OF b1 b2] obtain jb where jb: "pt_position b = jb + 1"
        "Some (pt_track_id b) = map_option tr_id (found_track ?tbl (tracks ! jb))" by blast
      have "ja = jb" using ja(1) jb(1) e by simp
      then have "Some (pt_track_id a) = Some (pt_track_id b)" using ja(2) jb(2) by (simp only:)
      then have "pt_track_id a = pt_track_id b" by simp
      then have "pt_key a = pt_key b" using a2 b2 e by (simp add: pt_key_def)
      then show "a = b" using inj a1 b1 by (rule_tac inj_onD)
    qed
    let ?ys = "sort_key pt_position ?rows"
    have dpos: "distinct (map pt_position ?ys)"
      using dT injp by (simp add: distinct_map)
    have spos: "set (map pt_position ?ys) = set [1 ..< Suc ?N]"
    proof
      show "set (map pt_position ?ys) \<subseteq> set [1 ..< Suc ?N]"
      proof
        fix q assume "q \<in> set (map pt_position ?ys)"
        then obtain x where "x \<in> set ?T'" "pt_playlist_id x = playlistId" "q = pt_position x"
          by auto
        then show "q \<in> set [1 ..< Suc ?N]" using cls[of x] by auto
      qed
      show "set [1 ..< Suc ?N] \<subseteq> set (map pt_position ?ys)"
      proof
        fix q assume "q \<in> set [1 ..< Suc ?N]"
        then obtain j where j: "j < ?N" and q: "q = j + 1"
          by (metis Suc_eq_plus1 Suc_le_D Suc_less_eq atLeastLessThan_iff set_upt One_nat_def)
        from e1[rule_format, OF j] obtain x where "x \<in> set ?T'" "pt_playlist_id x = playlistId"
          "pt_position x = j + 1" by blast
        then have "x \<in> set ?rows" "pt_position x = q" using q by simp_all
        then show "q \<in> set (map pt_position ?ys)" by (metis image_eqI set_map set_sort)
      qed
    qed
    have pos: "map pt_position ?ys = [1 ..< Suc ?N]"
      by (rule sorted_distinct_set_unique[OF sorted_sort_key dpos sorted_upt distinct_upt spos])
    have "length (map pt_position ?ys) = length [1 ..< Suc ?N]"
      by (simp only: pos)
    then have len: "length ?ys = ?N"
      by (simp del: upt_Suc)
    have lst: "map (\<lambda>r. (pt_position r, Some (pt_track_id r), pt_added_at r)) ?ys
                 = map (\<lambda>(j, it). (j, map_option tr_id (found_track ?tbl it), ti_added_at it))
                     (enumerate 1 tracks)"
    proof (rule nth_equalityI)
      show "length (map (\<lambda>r. (pt_position r, Some (pt_track_id r), pt_added_at r)) ?ys)
              = length (map (\<lambda>(j, it). (j, map_option tr_id (found_track ?tbl it), ti_added_at it))
                          (enumerate 1 tracks))"
        using len by simp
    next
      fix i
      assume "i < length (map (\<lambda>r. (pt_position r, Some (pt_track_id r), pt_added_at r)) ?ys)"
      then have i: "i < ?N" using len by simp
      then have iy: "i < length ?ys" using len by simp
      have "?ys ! i \<in> set ?ys" using iy by (rule nth_mem)
      then have y1: "?ys ! i \<in> set ?T'" and y2: "pt_playlist_id (?ys ! i) = playlistId"
        by simp_all
      have "pt_position (?ys ! i) = map pt_position ?ys ! i" using iy by simp
      also have "\<dots> = i + 1" unfolding pos using i by (simp del: upt_Suc)
      finally have yp: "pt_position (?ys ! i) = i + 1" .
      from cls[OF y1 y2] obtain j where "pt_position (?ys ! i) = j + 1"
        "Some (pt_track_id (?ys ! i)) = map_option tr_id (found_track ?tbl (tracks ! j))"
        "pt_added_at (?ys ! i) = ti_added_at (tracks ! j)" by blast
      then have "Some (pt_track_id (?ys ! i)) = map_option tr_id (found_track ?tbl (tracks ! i))"
        "pt_added_at (?ys ! i) = ti_added_at (tracks ! i)"
        using yp by simp_all
      then show "map (\<lambda>r. (pt_position r, Some (pt_track_id r), pt_added_at r)) ?ys ! i
                   = map (\<lambda>(j, it). (j, map_option tr_id (found_track ?tbl it), ti_added_at it))
                       (enumerate 1 tracks) ! i"
        using i iy yp by (simp add: nth_enumerate_eq)
    qed
    show "map (\<lambda>r. (pt_position r, Some (pt_track_id r), pt_added_at r)) ?ys
            = map (\<lambda>(j, it). (j, map_option tr_id (found_track ?tbl it), ti_added_at it))
                (enumerate 1 tracks)
          \<and> map pt_position ?ys = [1 ..< Suc ?N]"
      using lst pos by blast
  qed
  show ?thesis
    using r e1 stale fresh again by blast
qed

theorem createPlaylistTrackRelations_positions_counterexample:
  "(let items = [demo_item ''t1'' ''A'' ''X'', demo_item ''t2'' ''A'' ''X''];
        w1 = snd (createPlaylistTrackRelations demo_env 5 items None world_linked);
        r2 = createPlaylistTrackRelations demo_env 5 (rev items) None w1
    in map (map_option tr_id \<circ> found_track (db_tracks (db w1))) (rev items) = [Some 11, Some 10]
       \<and> fst r2 = Inr ()
       \<and> map (\<lambda>r. (pt_position r, pt_track_id r))
             (filter (\<lambda>r. pt_playlist_id r = 5) (db_playlist_tracks (db (snd r2))))
           = [(1, 10), (2, 11), (1, 11), (2, 10)])"
  by (simp add: Let_def createPlaylistTrackRelations_def perform_def upsert_row_def found_track_def
        demo_env_def demo_item_def demo_track_def demo_track_row_def world_linked_def world0_def
        empty_store_def added_by_id_def added_by_name_def)

theorem createPlaylistTrackRelations_positions_witness:
  "(\<exists>w'. createPlaylistTrackRelations demo_env 5
            [demo_item ''t1'' ''A'' ''X'', demo_item ''t2'' ''A'' ''X'', demo_item ''t1'' ''A'' ''X'']
            None world_linked = (Inr (), w')
        \<and> map (\<lambda>r. (pt_position r, Some (pt_track_id r), pt_added_at r))
              (filter (\<lambda>r. pt_playlist_id r = 5) (db_playlist_tracks (db w')))
            = [(1, Some 10, ''2024-01-01''), (2, Some 11, ''2024-01-01''), (3, Some 10, ''2024-01-01'')]
        \<and> map pt_position (filter (\<lambda>r. pt_playlist_id r = 5) (db_playlist_tracks (db w')))
            = [1, 2, 3])
   \<and> (\<exists>w'. createPlaylistTrackRelations demo_env 5
            [demo_item ''t1'' ''A'' ''X'', demo_item ''t2'' ''A'' ''X''] None world_relinked = (Inr (), w')
        \<and> map (\<lambda>r. (pt_position r, Some (pt_track_id r), pt_added_at r))
              (sort_key pt_position
                 (filter (\<lambda>r. pt_playlist_id r = 5) (db_playlist_tracks (db w'))))
            = [(1, Some 10, ''2024-01-01''), (2, Some 11, ''2024-01-01'')])
   \<and> (\<exists>w'. createPlaylistTrackRelations demo_env 5
            [demo_item ''t2'' ''A'' ''X'', demo_item ''t1'' ''A'' ''X''] None world_relinked = (Inr (), w')
        \<and> demo_entry 10 1 \<in> set (db_playlist_tracks (db w'))
        \<and> demo_entry 11 2 \<in> set (db_playlist_tracks (db w')))"
proof -
  have ok: "\<forall>n op. fault demo_env n op = None" by (simp add: demo_env_def)
  have tl: "db_tracks (db world_linked) = [demo_track_row 10 ''t1'', demo_track_row 11 ''t2'']"
    and tr: "db_tracks (db world_relinked) = [demo_track_row 10 ''t1'', demo_track_row 11 ''t2'']"
    and pl: "db_playlist_tracks (db world_linked) = []"
    and pr: "db_playlist_tracks (db world_relinked) = [demo_entry 10 1, demo_entry 11 2]"
    by (simp_all add: world_relinked_def world_linked_def world0_def empty_store_def)
  have f: "found_track [demo_track_row 10 ''t1'', demo_track_row 11 ''t2'']
              (demo_item ''t1'' ''A'' ''X'') = Some (demo_track_row 10 ''t1'')"
    "found_track [demo_track_row 10 ''t1'', demo_track_row 11 ''t2'']
              (demo_item ''t2'' ''A'' ''X'') = Some (demo_track_row 11 ''t2'')"
    by (simp_all add: found_track_def demo_item_def demo_track_def demo_track_row_def)
  have i: "\<And>n s. tr_id (demo_track_row n s) = n" by (simp add: demo_track_row_def)
  have a: "\<And>x y z. ti_added_at (demo_item x y z) = ''2024-01-01''" by (simp add: demo_item_def)
  have u: "[Suc 0 ..< 4] = [Suc 0, 2, 3]" "[Suc 0 ..< 3] = [Suc 0, 2]" by code_simp+
  have n: "Suc (Suc 0) = 2" by simp
  have first: "\<exists>w'. createPlaylistTrackRelations demo_env 5
            [demo_item ''t1'' ''A'' ''X'', demo_item ''t2'' ''A'' ''X'', demo_item ''t1'' ''A'' ''X'']
            None world_linked = (Inr (), w')
        \<and> map (\<lambda>r. (pt_position r, Some (pt_track_id r), pt_added_at r))
              (filter (\<lambda>r. pt_playlist_id r = 5) (db_playlist_tracks (db w')))
            = [(1, Some 10, ''2024-01-01''), (2, Some 11, ''2024-01-01''), (3, Some 10, ''2024-01-01'')]
        \<and> map pt_position (filter (\<lambda>r. pt_playlist_id r = 5) (db_playlist_tracks (db w')))
            = [1, 2, 3]"
  proof -
    have found: "\<forall>it \<in> set [demo_item ''t1'' ''A'' ''X'', demo_item ''t2'' ''A'' ''X'', demo_item ''t1'' ''A'' ''X''].
                 found_track (db_tracks (db world_linked)) it \<noteq> None"
      by (simp add: tl f)
    have fresh: "\<forall>r \<in> set (db_playlist_tracks (db world_linked)). pt_playlist_id r \<noteq> 5"
      by (simp add: pl)
    from createPlaylistTrackRelations_positions[OF ok found, of 5 None] fresh
    show ?thesis
      by (auto simp: tl f i u n a)
  qed
  have again: "\<exists>w'. createPlaylistTrackRelations demo_env 5
            [demo_item ''t1'' ''A'' ''X'', demo_item ''t2'' ''A'' ''X''] None world_relinked = (Inr (), w')
        \<and> map (\<lambda>r. (pt_position r, Some (pt_track_id r), pt_added_at r))
              (sort_key pt_position
                 (filter (\<lambda>r. pt_playlist_id r = 5) (db_playlist_tracks (db w'))))
            = [(1, Some 10, ''2024-01-01''), (2, Some 11, ''2024-01-01'')]"
  proof -
    let ?items = "[demo_item ''t1'' ''A'' ''X'', demo_item ''t2'' ''A'' ''X'']"
    have found: "\<forall>it \<in> set ?items. found_track (db_tracks (db world_relinked)) it \<noteq> None"
      by (simp add: tr f)
    have uniq: "distinct (map pt_key (db_playlist_tracks (db world_relinked)))"
      by (simp add: pr pt_key_def demo_entry_def)
    have prior: "\<forall>r \<in> set (db_playlist_tracks (db world_relinked)).
                   pt_playlist_id r = 5
                   \<longrightarrow> (\<exists>j < length ?items.
                          pt_position r = j + 1
                          \<and> Some (pt_track_id r)
                              = map_option tr_id (found_track (db_tracks (db world_relinked)) (?items ! j)))"
    proof (intro ballI impI)
      fix r assume "r \<in> set (db_playlist_tracks (db world_relinked))"
      then consider "r = demo_entry 10 1" | "r = demo_entry 11 2" by (auto simp: pr)
      then show "\<exists>j < length ?items.
                          pt_position r = j + 1
                          \<and> Some (pt_track_id r)
                              = map_option tr_id (found_track (db_tracks (db world_relinked)) (?items ! j))"
      proof cases
        case 1
        then show ?thesis by (intro exI[of _ 0]) (simp add: tr f i demo_entry_def)
      next
        case 2
        then show ?thesis by (intro exI[of _ 1]) (simp add: tr f i demo_entry_def)
      qed
    qed
    from createPlaylistTrackRelations_positions[OF ok found, of 5 None] uniq prior
    obtain w' where "createPlaylistTrackRelations demo_env 5 ?items None world_relinked = (Inr (), w')"
      "map (\<lambda>r. (pt_position r, Some (pt_track_id r), pt_added_at r))
              (sort_key pt_position
                 (filter (\<lambda>r. pt_playlist_id r = 5) (db_playlist_tracks (db w'))))
         = map (\<lambda>(j, it). (j, map_option tr_id (found_track (db_tracks (db world_relinked)) it),
                                         ti_added_at it))
                          (enumerate 1 ?items)"
      by blast
    then show ?thesis
      by (auto simp: tr f i n a)
  qed
  have stale: "\<exists>w'. createPlaylistTrackRelations demo_env 5
            [demo_item ''t2'' ''A'' ''X'', demo_item ''t1'' ''A'' ''X''] None world_relinked = (Inr (), w')
        \<and> demo_entry 10 1 \<in> set (db_playlist_tracks (db w'))
        \<and> demo_entry 11 2 \<in> set (db_playlist_tracks (db w'))"
  proof -
    let ?items = "[demo_item ''t2'' ''A'' ''X'', demo_item ''t1'' ''A'' ''X'']"
    have found: "\<forall>it \<in> set ?items. found_track (db_tracks (db world_relinked)) it \<noteq> None"
      by (simp add: tr f)
    have other: "\<not> (\<exists>j < length ?items.
                       pt_playlist_id r = 5 \<and> pt_position r = j + 1
                       \<and> Some (pt_track_id r)
                           = map_option tr_id (found_track (db_tracks (db world_relinked)) (?items ! j)))"
      if "r = demo_entry 10 1 \<or> r = demo_entry 11 2" for r
      using that by (auto simp: tr f i demo_entry_def less_Suc_eq)
    from createPlaylistTrackRelations_positions[OF ok found, of 5 None]
    obtain w' where "createPlaylistTrackRelations demo_env 5 ?items None world_relinked = (Inr (), w')"
      and "\<forall>r \<in> set (db_playlist_tracks (db world_relinked)).
                 \<not> (\<exists>j < length ?items.
                       pt_playlist_id r = 5 \<and> pt_position r = j + 1
                       \<and> Some (pt_track_id r)
                           = map_option tr_id (found_track (db_tracks (db world_relinked)) (?items ! j)))
                 \<longrightarrow> r \<in> set (db_playlist_tracks (db w'))"
      by blast
    then show ?thesis using other by (auto simp: pr)
  qed
  show ?thesis using first again stale by blast
qed

text \<open>
  C10. When no store operation fails, \<^verbatim>\<open>createPlaylistTrackRelations\<close> returns normally and
  writes no log line, and the store operations it issues are, item by item, the lookup of
  the item's track followed, only if the track is found, by the upsert of the entry at the
  item's (1-based) source index: for an item whose track is missing nothing is written.
  If the playlist had no entries before, its entries afterwards are those of the found
  items, each at its own source index, so the stored positions can have gaps.
\<close>

theorem createPlaylistTrackRelations_missing_tracks:
  assumes ok: "\<forall>n op. fault e n op = None"
  shows "\<exists>w'. createPlaylistTrackRelations e playlistId tracks addedAt w = (Inr (), w')
           \<and> errlog w' = errlog w
           \<and> trace w' = trace w @ link_ops (db_tracks (db w)) playlistId 1 tracks
           \<and> ((\<forall>r \<in> set (db_playlist_tracks (db w)). pt_playlist_id r \<noteq> playlistId)
                \<longrightarrow> map (\<lambda>r. (pt_position r, Some (pt_track_id r), pt_added_at r))
                        (filter (\<lambda>r. pt_playlist_id r = playlistId) (db_playlist_tracks (db w')))
                      = map (\<lambda>(j, it). (j, map_option tr_id (found_track (db_tracks (db w)) it),
                                         ti_added_at it))
                          (filter (\<lambda>(j, it). found_track (db_tracks (db w)) it \<noteq> None)
                             (enumerate 1 tracks)))"
proof -
  from createPlaylistTrackRelations_general[OF ok, of playlistId tracks addedAt w] obtain w' where
    r: "createPlaylistTrackRelations e playlistId tracks addedAt w = (Inr (), w')"
       "errlog w' = errlog w"
       "trace w' = trace w @ link_ops (db_tracks (db w)) playlistId 1 tracks"
    and fr: "(\<forall>r \<in> set (db_playlist_tracks (db w)). pt_playlist_id r \<noteq> playlistId)
                \<longrightarrow> filter (\<lambda>r. pt_playlist_id r = playlistId) (db_playlist_tracks (db w'))
                      = linked_rows (db_tracks (db w)) playlistId 1 tracks"
    by blast
  show ?thesis
    using r fr linked_rows_map[of "db_tracks (db w)" playlistId 1 tracks] by auto
qed

theorem createPlaylistTrackRelations_missing_tracks_witness:
  "\<exists>w'. createPlaylistTrackRelations demo_env 5
            [demo_item ''t1'' ''A'' ''X'', demo_item ''t9'' ''A'' ''X'', demo_item ''t2'' ''A'' ''X'']
            None world_tracks = (Inr (), w')
        \<and> errlog w' = []
        \<and> trace w' = [TrackFindUnique ''t1'', PlaylistTrackUpsert 5 10 1, TrackFindUnique ''t9'',
                        TrackFindUnique ''t2'', PlaylistTrackUpsert 5 11 3]
        \<and> map (\<lambda>r. (pt_position r, Some (pt_track_id r), pt_added_at r))
              (filter (\<lambda>r. pt_playlist_id r = 5) (db_playlist_tracks (db w')))
            = [(1, Some 10, ''2024-01-01''), (3, Some 11, ''2024-01-01'')]"
proof -
  have ok: "\<forall>n op. fault demo_env n op = None" by (simp add: demo_env_def)
  have fresh: "\<forall>r \<in> set (db_playlist_tracks (db world_tracks)). pt_playlist_id r \<noteq> 5"
    by (simp add: world_tracks_def world0_def empty_store_def)
  have f: "found_track (db_tracks (db world_tracks)) (demo_item ''t1'' ''A'' ''X'') = Some (demo_track_row 10 ''t1'')"
    "found_track (db_tracks (db world_tracks)) (demo_item ''t2'' ''A'' ''X'') = Some (demo_track_row 11 ''t2'')"
    "found_track (db_tracks (db world_tracks)) (demo_item ''t9'' ''A'' ''X'') = None"
    by (simp_all add: found_track_def world_tracks_def world0_def empty_store_def demo_item_def
          demo_track_def demo_track_row_def)
  have l: "errlog world_tracks = []" by (simp add: world_tracks_def world0_def)
  have n: "Suc (Suc 0) = 2" by simp
  have a: "\<And>x y z. ti_added_at (demo_item x y z) = ''2024-01-01''" by (simp add: demo_item_def)
  have t: "trace world_tracks = []" by (simp add: world_tracks_def world0_def)
  have i: "\<And>x y z. t_id (ti_track (demo_item x y z)) = x" by (simp add: demo_item_def demo_track_def)
  from createPlaylistTrackRelations_missing_tracks
            [OF ok, where addedAt = None and playlistId = 5 and w = world_tracks
               and tracks = "[demo_item ''t1'' ''A'' ''X'', demo_item ''t9'' ''A'' ''X'', demo_item ''t2'' ''A'' ''X'']"]
       fresh
  show ?thesis
    by (auto simp: f l n a t i link_ops_def demo_track_row_def)
qed

subsection \<open>Album covers\<close>

lemma media_create_Inl_db: "media_create e mk w = (Inl err, w1) \<Longrightarrow> db w1 = db w"
  by (auto simp: media_create_def perform_def Let_def split: option.splits if_splits)

lemma cover_try_Inl_db:
  "downloadAndStoreAlbumCover_try c e a albumId w = (Inl err, w1) \<Longrightarrow> db w1 = db w"
  by (auto simp: downloadAndStoreAlbumCover_try_def perform_def Let_def
           split: option.splits list.splits if_splits prod.splits sum.splits
           dest!: media_create_Inl_db)

lemma downloadAndStoreAlbumCover_returns:
  "\<exists>m w'. downloadAndStoreAlbumCover cfg e a albumId w = (Inr m, w')"
  by (simp add: downloadAndStoreAlbumCover_def split: prod.splits sum.splits)

lemma processAlbum_returns: "\<exists>w'. processAlbum cfg e album w = (Inr (), w')"
  by (simp add: processAlbum_def split: prod.splits sum.splits)

theorem downloadAndStoreAlbumCover_existing_cover_counterexample:
  "downloadAndStoreAlbumCover demo_config demo_env (demo_album ''X'') 1 world_cover =
     (Inr None,
      world_cover\<lparr>trace := [Download ''http://img/X'', BlobUpload ''album-covers/uuid.png'',
                              MediaCreate 1],
                   errlog := [LogCoverError UniqueViolation]\<rparr>)"
  by (simp add: downloadAndStoreAlbumCover_def downloadAndStoreAlbumCover_try_def containerClient_def
        truthy_def demo_config_def demo_env_def demo_album_def world_cover_def world0_def
        empty_store_def perform_def media_create_def getImageExtension_def log_error_def
        demo_cover_def Let_def)


lemma media_create_trace:
  "media_create e mk w = (r, w') \<Longrightarrow> \<exists>ops. trace w' = trace w @ ops"
  by (auto simp: media_create_def perform_def Let_def split: option.splits if_splits)

lemma cover_try_trace:
  "downloadAndStoreAlbumCover_try c e a albumId w = (r, w') \<Longrightarrow> \<exists>ops. trace w' = trace w @ ops"
  by (auto simp: downloadAndStoreAlbumCover_try_def perform_def Let_def
           split: option.splits list.splits if_splits prod.splits sum.splits
           dest!: media_create_trace)

lemma cover_download_trace:
  "cover_downloadAndStoreAlbumCover cfg e a albumId w = (r, w') \<Longrightarrow> \<exists>ops. trace w' = trace w @ ops"
  by (auto simp: cover_downloadAndStoreAlbumCover_def log_error_def
           split: prod.splits sum.splits dest!: cover_try_trace)

lemma getAccessToken_traceD:
  "getAccessToken e w = (r, w') \<Longrightarrow> \<exists>ops. trace w' = trace w @ ops"
  using getAccessToken_trace[of e w] by simp

lemma fetchAlbumFromSpotify_trace:
  "fetchAlbumFromSpotify e spotifyId w = (r, w') \<Longrightarrow> \<exists>ops. trace w' = trace w @ ops"
  by (auto simp: fetchAlbumFromSpotify_def perform_def
           split: prod.splits sum.splits option.splits if_splits dest!: getAccessToken_traceD)

lemma processAlbum_try_trace:
  "processAlbum_try cfg e album w = (r, w')
     \<Longrightarrow> \<exists>rest. trace w' = trace w @ MediaFindFirst (al_id album) # rest"
  by (auto simp: processAlbum_try_def perform_def bump_skipped_def bump_success_def
                 record_failure_def
           split: prod.splits sum.splits option.splits if_splits
           dest!: fetchAlbumFromSpotify_trace cover_download_trace)

lemma processAlbum_trace:
  "\<exists>rest. trace (snd (processAlbum cfg e album w)) = trace w @ MediaFindFirst (al_id album) # rest"
proof -
  obtain r w1 where t: "processAlbum_try cfg e album w = (r, w1)"
    by (cases "processAlbum_try cfg e album w")
  from processAlbum_try_trace[OF t] obtain rest where
    "trace w1 = trace w @ MediaFindFirst (al_id album) # rest" by blast
  then show ?thesis
    using t by (cases r) (simp_all add: processAlbum_def record_failure_def log_error_def)
qed


lemma find_album_cover:
  "(\<exists>m \<in> set ms. m_album_id m = albumId \<and> m_type m = ''album_cover'')
     \<Longrightarrow> \<exists>m. find (is_album_cover albumId) ms = Some m"
  by (cases "find (is_album_cover albumId) ms") (auto simp: find_None_iff is_album_cover_def)

text \<open>
  C3, as amended. \<^verbatim>\<open>AlbumCoverSeeder.processAlbum\<close>: when the album already has a Media row
  of type \<^verbatim>\<open>album_cover\<close> (and the lookup itself does not fail), the album is counted as
  skipped and the method returns after that one lookup: no request to Spotify, no download,
  no write to the blob store or to the relational store. In every invocation the lookup is
  the first operation issued.
\<close>

theorem processAlbum_existing_cover:
  "(fault e (length (trace w)) (MediaFindFirst (al_id album)) = None
      \<and> (\<exists>m \<in> set (db_media (db w)). m_album_id m = al_id album \<and> m_type m = ''album_cover'')
     \<longrightarrow> processAlbum cfg e album w =
           (Inr (), w\<lparr>trace := trace w @ [MediaFindFirst (al_id album)],
                      seeder_stats :=
                        (seeder_stats w)\<lparr>st_skipped := st_skipped (seeder_stats w) + 1\<rparr>\<rparr>))
   \<and> (\<exists>rest. trace (snd (processAlbum cfg e album w)) = trace w @ MediaFindFirst (al_id album) # rest)"
proof (intro conjI impI)
  assume h: "fault e (length (trace w)) (MediaFindFirst (al_id album)) = None
      \<and> (\<exists>m \<in> set (db_media (db w)). m_album_id m = al_id album \<and> m_type m = ''album_cover'')"
  then obtain m where "find (is_album_cover (al_id album)) (db_media (db w)) = Some m"
    using find_album_cover by blast
  then show "processAlbum cfg e album w =
           (Inr (), w\<lparr>trace := trace w @ [MediaFindFirst (al_id album)],
                      seeder_stats :=
                        (seeder_stats w)\<lparr>st_skipped := st_skipped (seeder_stats w) + 1\<rparr>\<rparr>)"
    using h by (simp add: processAlbum_def processAlbum_try_def perform_def bump_skipped_def)
next
  show "\<exists>rest. trace (snd (processAlbum cfg e album w)) = trace w @ MediaFindFirst (al_id album) # rest"
    by (rule processAlbum_trace)
qed

theorem processAlbum_existing_cover_witness:
  "processAlbum demo_config demo_env (demo_album_row 1 ''X'') world_cover =
     (Inr (), world_cover\<lparr>trace := [MediaFindFirst 1],
                seeder_stats := \<lparr>st_total = 0, st_processed = 0, st_success = 0, st_skipped = 1,
                                 st_failed = 0, st_errors = []\<rparr>\<rparr>)"
  using processAlbum_existing_cover[of demo_env world_cover "demo_album_row 1 ''X''" demo_config]
  by (simp add: demo_env_def world_cover_def world0_def empty_store_def demo_album_row_def
        demo_cover_def)


lemma getAccessToken_stats:
  "getAccessToken e w = (r, w') \<Longrightarrow> seeder_stats w' = seeder_stats w"
  by (auto simp: getAccessToken_def perform_def log_error_def Let_def split: option.splits)

lemma media_create_stats:
  "media_create e mk w = (r, w') \<Longrightarrow> seeder_stats w' = seeder_stats w"
  by (auto simp: media_create_def perform_def Let_def split: option.splits if_splits)

lemma cover_try_stats:
  "downloadAndStoreAlbumCover_try c e a albumId w = (r, w') \<Longrightarrow> seeder_stats w' = seeder_stats w"
  by (auto simp: downloadAndStoreAlbumCover_try_def perform_def Let_def
           split: option.splits list.splits if_splits prod.splits sum.splits
           dest!: media_create_stats)

lemma cover_download_stats:
  "cover_downloadAndStoreAlbumCover cfg e a albumId w = (r, w') \<Longrightarrow> seeder_stats w' = seeder_stats w"
  by (auto simp: cover_downloadAndStoreAlbumCover_def log_error_def
           split: prod.splits sum.splits dest!: cover_try_stats)

lemma fetchAlbumFromSpotify_stats:
  "fetchAlbumFromSpotify e spotifyId w = (r, w') \<Longrightarrow> seeder_stats w' = seeder_stats w"
  by (auto simp: fetchAlbumFromSpotify_def perform_def
           split: prod.splits sum.splits option.splits if_splits dest!: getAccessToken_stats)

lemma processAlbum_try_processed:
  "processAlbum_try cfg e album w = (r, w')
     \<Longrightarrow> st_processed (seeder_stats w') = st_processed (seeder_stats w)"
  by (auto simp: processAlbum_try_def perform_def bump_skipped_def bump_success_def
                 record_failure_def
           split: prod.splits sum.splits option.splits if_splits
           dest!: fetchAlbumFromSpotify_stats cover_download_stats)

lemma processAlbum_processed:
  "processAlbum cfg e album w = (r, w')
     \<Longrightarrow> r = Inr () \<and> st_processed (seeder_stats w') = st_processed (seeder_stats w)"
  by (auto simp: processAlbum_def record_failure_def log_error_def
           split: prod.splits sum.splits dest!: processAlbum_try_processed)

lemma albums_loop_processed:
  "\<exists>w'. albums_loop cfg e n albums i w = (Inr (), w')
         \<and> st_processed (seeder_stats w') = st_processed (seeder_stats w) + length albums"
proof (induction albums arbitrary: i w)
  case Nil
  then show ?case by simp
next
  case (Cons album rest)
  obtain r w1 where p: "processAlbum cfg e album w = (r, w1)"
    by (cases "processAlbum cfg e album w")
  from processAlbum_processed[OF p] have r: "r = Inr ()"
    and s: "st_processed (seeder_stats w1) = st_processed (seeder_stats w)" by simp_all
  let ?w2 = "if i < n - 1 then sleep RATE_LIMIT_DELAY (bump_processed w1) else bump_processed w1"
  have s2: "st_processed (seeder_stats ?w2) = Suc (st_processed (seeder_stats w))"
    using s by (simp add: sleep_def bump_processed_def)
  from Cons.IH[of "i + 1" ?w2] obtain w' where
    "albums_loop cfg e n rest (i + 1) ?w2 = (Inr (), w')"
    "st_processed (seeder_stats w') = st_processed (seeder_stats ?w2) + length rest"
    by blast
  then show ?case using p r s2 by simp
qed


text \<open>
  C8, as amended. A failure while archiving a cover never ends the run, but the two seeders
  differ in who absorbs it. In \<^verbatim>\<open>SpotifySeeder\<close>, \<^verbatim>\<open>downloadAndStoreAlbumCover\<close> never throws:
  when the download, the upload or the Media insert fails it logs the error and returns
  null, and the store is as before (the album has no cover). In \<^verbatim>\<open>AlbumCoverSeeder\<close>,
  \<^verbatim>\<open>downloadAndStoreAlbumCover\<close> logs the error and throws it again, the store being as
  before; \<^verbatim>\<open>processAlbum\<close> catches whatever is thrown, counts the album as failed with the
  message, and never throws, and the loop over the albums goes through all of them.
\<close>

theorem cover_failure_not_fatal:
  "(\<exists>m w'. downloadAndStoreAlbumCover cfg e albumData albumId w = (Inr m, w'))
   \<and> (\<forall>err w1. containerClient cfg
          \<and> downloadAndStoreAlbumCover_try True e albumData albumId w = (Inl err, w1)
        \<longrightarrow> downloadAndStoreAlbumCover cfg e albumData albumId w
              = (Inr None, log_error (LogCoverError err) w1)
            \<and> db w1 = db w)
   \<and> (\<forall>img others err. b_images albumData = Some (img # others)
          \<and> fault e (length (trace w)) (Download (im_url img)) = Some err
        \<longrightarrow> downloadAndStoreAlbumCover_try c e albumData albumId w
              = (Inl err, w\<lparr>trace := trace w @ [Download (im_url img)]\<rparr>))
   \<and> (\<forall>img others err. b_images albumData = Some (img # others)
          \<and> fault e (length (trace w)) (Download (im_url img)) = None
          \<and> fault e (Suc (length (trace w)))
                (BlobUpload (''album-covers/'' @ uuidv4 e (Suc (length (trace w))) @ ''.'' @
                               getImageExtension (content_type (image_resp e (im_url img)))))
              = Some err
        \<longrightarrow> downloadAndStoreAlbumCover_try True e albumData albumId w
              = (Inl err,
                 w\<lparr>trace := trace w @
                     [Download (im_url img),
                      BlobUpload (''album-covers/'' @ uuidv4 e (Suc (length (trace w))) @ ''.'' @
                                    getImageExtension (content_type (image_resp e (im_url img))))]\<rparr>))
   \<and> (\<forall>err w1. downloadAndStoreAlbumCover_try (containerClient cfg) e albumData albumId w = (Inl err, w1)
        \<longrightarrow> cover_downloadAndStoreAlbumCover cfg e albumData albumId w
              = (Inl err, log_error (LogCoverError err) w1)
            \<and> db w1 = db w)
   \<and> (\<forall>err w1. processAlbum_try cfg e album w = (Inl err, w1)
        \<longrightarrow> processAlbum cfg e album w
              = (Inr (), record_failure (Raised (al_name album) err)
                           (log_error (LogProcessAlbumError (al_name album) err) w1)))
   \<and> (\<exists>w'. processAlbum cfg e album w = (Inr (), w'))
   \<and> (\<exists>w'. albums_loop cfg e n albums i w = (Inr (), w')
          \<and> st_processed (seeder_stats w') = st_processed (seeder_stats w) + length albums)"
proof (intro conjI allI impI)
  show "\<exists>m w'. downloadAndStoreAlbumCover cfg e albumData albumId w = (Inr m, w')"
    by (rule downloadAndStoreAlbumCover_returns)
next
  fix err w1
  assume "containerClient cfg \<and> downloadAndStoreAlbumCover_try True e albumData albumId w = (Inl err, w1)"
  then show "downloadAndStoreAlbumCover cfg e albumData albumId w
               = (Inr None, log_error (LogCoverError err) w1)"
    and "db w1 = db w"
    using cover_try_Inl_db[of True e albumData albumId w err w1]
    by (simp_all add: downloadAndStoreAlbumCover_def)
next
  fix img others err
  assume "b_images albumData = Some (img # others)
          \<and> fault e (length (trace w)) (Download (im_url img)) = Some err"
  then show "downloadAndStoreAlbumCover_try c e albumData albumId w
              = (Inl err, w\<lparr>trace := trace w @ [Download (im_url img)]\<rparr>)"
    by (simp add: downloadAndStoreAlbumCover_try_def perform_def)
next
  fix img others err
  assume "b_images albumData = Some (img # others)
          \<and> fault e (length (trace w)) (Download (im_url img)) = None
          \<and> fault e (Suc (length (trace w)))
                (BlobUpload (''album-covers/'' @ uuidv4 e (Suc (length (trace w))) @ ''.'' @
                               getImageExtension (content_type (image_resp e (im_url img)))))
              = Some err"
  then show "downloadAndStoreAlbumCover_try True e albumData albumId w
              = (Inl err,
                 w\<lparr>trace := trace w @
                     [Download (im_url img),
                      BlobUpload (''album-covers/'' @ uuidv4 e (Suc (length (trace w))) @ ''.'' @
                                    getImageExtension (content_type (image_resp e (im_url img))))]\<rparr>)"
    by (simp add: downloadAndStoreAlbumCover_try_def perform_def Let_def)
next
  fix err w1
  assume "downloadAndStoreAlbumCover_try (containerClient cfg) e albumData albumId w = (Inl err, w1)"
  then show "cover_downloadAndStoreAlbumCover cfg e albumData albumId w
               = (Inl err, log_error (LogCoverError err) w1)"
    and "db w1 = db w"
    using cover_try_Inl_db[of "containerClient cfg" e albumData albumId w err w1]
    by (simp_all add: cover_downloadAndStoreAlbumCover_def)
next
  fix err w1
  assume "processAlbum_try cfg e album w = (Inl err, w1)"
  then show "processAlbum cfg e album w
              = (Inr (), record_failure (Raised (al_name album) err)
                           (log_error (LogProcessAlbumError (al_name album) err) w1))"
    by (simp add: processAlbum_def)
next
  show "\<exists>w'. processAlbum cfg e album w = (Inr (), w')"
    by (rule processAlbum_returns)
next
  show "\<exists>w'. albums_loop cfg e n albums i w = (Inr (), w')
          \<and> st_processed (seeder_stats w') = st_processed (seeder_stats w) + length albums"
    by (rule albums_loop_processed)
qed

theorem cover_failure_not_fatal_counterexample:
  "cover_downloadAndStoreAlbumCover demo_config env_no_download (demo_album ''X'') 1 world_album =
     (Inl NoResponse,
      world_album\<lparr>trace := [Download ''http://img/X''], errlog := [LogCoverError NoResponse]\<rparr>)"
  by (simp add: cover_downloadAndStoreAlbumCover_def downloadAndStoreAlbumCover_try_def
        env_no_download_def demo_env_def demo_album_def world_album_def world0_def perform_def
        log_error_def)

theorem cover_failure_not_fatal_witness:
  "downloadAndStoreAlbumCover demo_config env_no_download (demo_album ''X'') 1 world_album =
     (Inr None,
      log_error (LogCoverError NoResponse) (world_album\<lparr>trace := [Download ''http://img/X'']\<rparr>))
   \<and> (\<exists>w'. albums_loop demo_config env_no_download 2
               [demo_album_row 1 ''X'', demo_album_row 4 ''Y''] 0 world_album = (Inr (), w')
           \<and> st_processed (seeder_stats w') = 2)"
proof -
  note T = cover_failure_not_fatal
             [where cfg = demo_config and e = env_no_download and albumData = "demo_album ''X''"
                and albumId = 1 and w = world_album and c = True and n = 2 and i = 0
                and albums = "[demo_album_row 1 ''X'', demo_album_row 4 ''Y'']"]
  have im: "b_images (demo_album ''X'') =
              Some (\<lparr>im_url = ''http://img/X'', im_width = 640, im_height = 640\<rparr> # [])"
    by (simp add: demo_album_def)
  have f: "fault env_no_download (length (trace world_album)) (Download ''http://img/X'') = Some NoResponse"
    by (simp add: env_no_download_def)
  have t: "trace world_album = []" "st_processed (seeder_stats world_album) = 0"
    by (simp_all add: world_album_def world0_def)
  have c: "containerClient demo_config"
    by (simp add: containerClient_def demo_config_def truthy_def)
  have "downloadAndStoreAlbumCover_try True env_no_download (demo_album ''X'') 1 world_album
          = (Inl NoResponse, world_album\<lparr>trace := trace world_album @ [Download ''http://img/X'']\<rparr>)"
    using T[THEN conjunct2, THEN conjunct2, THEN conjunct1, rule_format,
            of "\<lparr>im_url = ''http://img/X'', im_width = 640, im_height = 640\<rparr>" "[]" NoResponse]
          im f by simp
  then have a: "downloadAndStoreAlbumCover demo_config env_no_download (demo_album ''X'') 1 world_album =
     (Inr None,
      log_error (LogCoverError NoResponse) (world_album\<lparr>trace := [Download ''http://img/X'']\<rparr>))"
    using T[THEN conjunct2, THEN conjunct1, rule_format,
            of NoResponse "world_album\<lparr>trace := trace world_album @ [Download ''http://img/X'']\<rparr>"]
          c by (simp add: t)
  have b: "\<exists>w'. albums_loop demo_config env_no_download 2
               [demo_album_row 1 ''X'', demo_album_row 4 ''Y''] 0 world_album = (Inr (), w')
           \<and> st_processed (seeder_stats w') = 2"
    using T[THEN conjunct2, THEN conjunct2, THEN conjunct2, THEN conjunct2, THEN conjunct2,
            THEN conjunct2, THEN conjunct2]
    by (simp del: albums_loop.simps add: t numeral_2_eq_2)
  show ?thesis using a b by simp
qed

subsection \<open>The loop over the tracks\<close>

lemmas demo_defs = demo_config_def demo_env_def demo_fetched_def demo_single_def demo_playlist_def
  demo_items_def demo_item_def demo_track_def demo_album_def demo_artist_def world0_def
  empty_store_def env_bad_track_def

lemmas run_defs = processTracks_def processTracks_try_def process_item_def upsertPlaylist_def
  upsertArtist_def upsertAlbum_def upsertTrack_def createAlbumArtistRelations_def
  createTrackArtistRelations_def createPlaylistTrackRelations_def upsert_row_def perform_def
  log_error_def sleep_def now_def markets_def added_by_id_def added_by_name_def
  RATE_LIMIT_DELAY_def Let_def

lemma upsertPlaylist_cover:
  "upsertPlaylist e p w = (r, w') \<Longrightarrow> filter is_cover_op (trace w') = filter is_cover_op (trace w)"
  by (auto simp: upsertPlaylist_def perform_def log_error_def
           split: option.splits prod.splits js.splits if_splits)

lemma upsertArtist_cover:
  "upsertArtist e a w = (r, w') \<Longrightarrow> filter is_cover_op (trace w') = filter is_cover_op (trace w)"
  by (auto simp: upsertArtist_def perform_def log_error_def split: option.splits prod.splits)

lemma upsertAlbum_cover:
  "upsertAlbum e a w = (r, w') \<Longrightarrow> filter is_cover_op (trace w') = filter is_cover_op (trace w)"
  by (auto simp: upsertAlbum_def perform_def log_error_def split: option.splits prod.splits)

lemma upsertTrack_cover:
  "upsertTrack e t albumId w = (r, w') \<Longrightarrow> filter is_cover_op (trace w') = filter is_cover_op (trace w)"
  by (auto simp: upsertTrack_def perform_def log_error_def split: option.splits prod.splits)

lemma albumArtist_loop_cover:
  "albumArtist_loop e albumId ids w = (r, w') \<Longrightarrow> filter is_cover_op (trace w') = filter is_cover_op (trace w)"
proof (induction ids arbitrary: w)
  case Nil
  then show ?case by simp
next
  case (Cons a ids)
  show ?case
  proof (cases "fault e (length (trace w)) (AlbumArtistUpsert albumId a)")
    case (Some err)
    then show ?thesis using Cons.prems by (auto simp: perform_def)
  next
    case None
    then show ?thesis using Cons.prems
      by (auto simp: perform_def split: prod.splits dest!: Cons.IH)
  qed
qed

lemma trackArtist_loop_cover:
  "trackArtist_loop e trackId ids w = (r, w') \<Longrightarrow> filter is_cover_op (trace w') = filter is_cover_op (trace w)"
proof (induction ids arbitrary: w)
  case Nil
  then show ?case by simp
next
  case (Cons a ids)
  show ?case
  proof (cases "fault e (length (trace w)) (TrackArtistUpsert trackId a)")
    case (Some err)
    then show ?thesis using Cons.prems by (auto simp: perform_def)
  next
    case None
    then show ?thesis using Cons.prems
      by (auto simp: perform_def split: prod.splits dest!: Cons.IH)
  qed
qed

lemma createAlbumArtistRelations_cover:
  "createAlbumArtistRelations e albumId ids w = (r, w')
     \<Longrightarrow> filter is_cover_op (trace w') = filter is_cover_op (trace w)"
  by (auto simp: createAlbumArtistRelations_def log_error_def split: prod.splits sum.splits
           dest!: albumArtist_loop_cover)

lemma createTrackArtistRelations_cover:
  "createTrackArtistRelations e trackId ids w = (r, w')
     \<Longrightarrow> filter is_cover_op (trace w') = filter is_cover_op (trace w)"
  by (auto simp: createTrackArtistRelations_def log_error_def split: prod.splits sum.splits
           dest!: trackArtist_loop_cover)

lemma playlistTrack_loop_cover:
  "playlistTrack_loop e pid items i w = (r, w') \<Longrightarrow> filter is_cover_op (trace w') = filter is_cover_op (trace w)"
proof (induction items arbitrary: i w)
  case Nil
  then show ?case by simp
next
  case (Cons it items)
  show ?case using Cons.prems
    by (auto simp: perform_def split: prod.splits option.splits dest!: Cons.IH)
qed

lemma createPlaylistTrackRelations_cover:
  "createPlaylistTrackRelations e pid items addedAt w = (r, w')
     \<Longrightarrow> filter is_cover_op (trace w') = filter is_cover_op (trace w)"
  by (auto simp: createPlaylistTrackRelations_def log_error_def split: prod.splits sum.splits
           dest!: playlistTrack_loop_cover)

lemma artists_loop_cover:
  "artists_loop e as ids pd w = (r, w') \<Longrightarrow> filter is_cover_op (trace w') = filter is_cover_op (trace w)"
proof (induction as arbitrary: ids pd w)
  case Nil
  then show ?case by simp
next
  case (Cons a as)
  obtain r1 w1 where u: "upsertArtist e a w = (r1, w1)" by (cases "upsertArtist e a w")
  note c = upsertArtist_cover[OF u]
  show ?case
  proof (cases r1)
    case (Inl err)
    then show ?thesis using Cons.prems u c by simp
  next
    case (Inr x)
    then show ?thesis using Cons.prems u c by (auto dest!: Cons.IH)
  qed
qed

text \<open>The test \<^verbatim>\<open>!processedData.albums.has(albumKey)\<close> is made after the album was put in.\<close>

lemma process_item_cover:
  assumes "process_item cfg e n i it pd w = (r, w')"
  shows "filter is_cover_op (trace w') = filter is_cover_op (trace w)"
proof -
  obtain r1 w1 where a: "artists_loop e (t_artists (ti_track it)) [] pd w = (r1, w1)"
    by (cases "artists_loop e (t_artists (ti_track it)) [] pd w")
  note c1 = artists_loop_cover[OF a]
  show ?thesis
  proof (cases r1)
    case (Inl err)
    then show ?thesis using assms a c1 by (simp add: process_item_def)
  next
    case (Inr x)
    obtain artistIds pd1 where x: "x = (artistIds, pd1)" by (cases x)
    obtain r2 w2 where b: "upsertAlbum e (t_album (ti_track it)) w1 = (r2, w2)"
      by (cases "upsertAlbum e (t_album (ti_track it)) w1")
    note c2 = upsertAlbum_cover[OF b]
    show ?thesis
    proof (cases r2)
      case (Inl err)
      then show ?thesis using assms a Inr x b c1 c2 by (simp add: process_item_def)
    next
      case album: (Inr processedAlbum)
      obtain r3 w3 where l: "createAlbumArtistRelations e (al_id processedAlbum) artistIds w2 = (r3, w3)"
        by (cases "createAlbumArtistRelations e (al_id processedAlbum) artistIds w2")
      note c3 = createAlbumArtistRelations_cover[OF l]
      show ?thesis
      proof (cases r3)
        case (Inl err)
        then show ?thesis using assms a Inr x b album l c1 c2 c3
          by (simp add: process_item_def Let_def)
      next
        case rel: (Inr u)
        obtain r4 w4 where t: "upsertTrack e (ti_track it) (al_id processedAlbum) w3 = (r4, w4)"
          by (cases "upsertTrack e (ti_track it) (al_id processedAlbum) w3")
        note c4 = upsertTrack_cover[OF t]
        show ?thesis
        proof (cases r4)
          case (Inl err)
          then show ?thesis using assms a Inr x b album l rel t c1 c2 c3 c4
            by (simp add: process_item_def Let_def)
        next
          case trk: (Inr processedTrack)
          obtain r5 w5 where m: "createTrackArtistRelations e (tr_id processedTrack) artistIds w4 = (r5, w5)"
            by (cases "createTrackArtistRelations e (tr_id processedTrack) artistIds w4")
          note c5 = createTrackArtistRelations_cover[OF m]
          show ?thesis
            using assms a Inr x b album l rel t trk m c1 c2 c3 c4 c5
            by (cases r5) (auto simp: process_item_def Let_def sleep_def split: if_splits)
        qed
      qed
    qed
  qed
qed

lemma tracks_loop_cover:
  "tracks_loop cfg e n items i pd w = (r, w') \<Longrightarrow> filter is_cover_op (trace w') = filter is_cover_op (trace w)"
proof (induction items arbitrary: i pd w)
  case Nil
  then show ?case by simp
next
  case (Cons it items)
  obtain r1 w1 where p: "process_item cfg e n i it pd w = (r1, w1)"
    by (cases "process_item cfg e n i it pd w")
  note c = process_item_cover[OF p]
  show ?case
  proof (cases r1)
    case (Inl err)
    then show ?thesis using Cons.prems p c by simp
  next
    case (Inr pd1)
    then show ?thesis using Cons.prems p c by (auto dest!: Cons.IH)
  qed
qed

lemma processTracks_cover:
  "filter is_cover_op (trace (snd (processTracks cfg e playlist w))) = filter is_cover_op (trace w)"
proof -
  obtain r w' where t: "processTracks_try cfg e playlist w = (r, w')"
    by (cases "processTracks_try cfg e playlist w")
  have "filter is_cover_op (trace w') = filter is_cover_op (trace w)"
    using t
    by (auto simp: processTracks_try_def Let_def split: prod.splits sum.splits
             dest!: upsertPlaylist_cover tracks_loop_cover createPlaylistTrackRelations_cover)
  then show ?thesis
    using t by (cases r) (simp_all add: processTracks_def log_error_def)
qed

text \<open>
  C1 (what the code does). \<^verbatim>\<open>processTracks\<close> never reaches \<^verbatim>\<open>downloadAndStoreAlbumCover\<close>:
  whatever the configuration, the outside world, the playlist and the state, a run issues no
  download, no blob upload and no Media insert, because each album is put into
  \<^verbatim>\<open>processedData.albums\<close> just before \<^verbatim>\<open>processedData.albums.has\<close> is asked. On the playlist
  of three tracks (t1 and t2 on album X, t3 on album Y), with the blob store configured,
  every album having an image and nothing failing, the run returns normally, the
  operations it issues are the twenty-four listed, none of them for a cover, and no Media
  row exists afterwards: the cover of X and of Y is not attempted on their first encounter.
\<close>

theorem processTracks_cover_never_attempted:
  "filter is_cover_op (trace (snd (processTracks cfg e playlist w))) = filter is_cover_op (trace w)
   \<and> \<not> isl (fst (processTracks demo_config demo_env demo_fetched world0))
   \<and> trace (snd (processTracks demo_config demo_env demo_fetched world0)) =
     [PlaylistUpsert ''p'', ArtistUpsert ''A'', AlbumUpsert ''X'',
      AlbumArtistUpsert 2 1, TrackUpsert ''t1'', TrackArtistUpsert 4 1,
      Sleep 1000, ArtistUpsert ''A'', AlbumUpsert ''X'', AlbumArtistUpsert 2 1,
      TrackUpsert ''t2'', TrackArtistUpsert 6 1, Sleep 1000, ArtistUpsert ''B'',
      AlbumUpsert ''Y'', AlbumArtistUpsert 9 8, TrackUpsert ''t3'',
      TrackArtistUpsert 11 8, TrackFindUnique ''t1'', PlaylistTrackUpsert 0 4 1,
      TrackFindUnique ''t2'', PlaylistTrackUpsert 0 6 2, TrackFindUnique ''t3'',
      PlaylistTrackUpsert 0 11 3]
   \<and> db_media (db (snd (processTracks demo_config demo_env demo_fetched world0))) = []
   \<and> containerClient demo_config
   \<and> b_images (t_album (ti_track (demo_item ''t1'' ''A'' ''X''))) \<noteq> None
   \<and> b_images (t_album (ti_track (demo_item ''t3'' ''B'' ''Y''))) \<noteq> None"
proof -
  have "filter is_cover_op (trace (snd (processTracks cfg e playlist w))) = filter is_cover_op (trace w)"
    by (rule processTracks_cover)
  moreover have "\<not> isl (fst (processTracks demo_config demo_env demo_fetched world0))
   \<and> trace (snd (processTracks demo_config demo_env demo_fetched world0)) =
     [PlaylistUpsert ''p'', ArtistUpsert ''A'', AlbumUpsert ''X'',
      AlbumArtistUpsert 2 1, TrackUpsert ''t1'', TrackArtistUpsert 4 1,
      Sleep 1000, ArtistUpsert ''A'', AlbumUpsert ''X'', AlbumArtistUpsert 2 1,
      TrackUpsert ''t2'', TrackArtistUpsert 6 1, Sleep 1000, ArtistUpsert ''B'',
      AlbumUpsert ''Y'', AlbumArtistUpsert 9 8, TrackUpsert ''t3'',
      TrackArtistUpsert 11 8, TrackFindUnique ''t1'', PlaylistTrackUpsert 0 4 1,
      TrackFindUnique ''t2'', PlaylistTrackUpsert 0 6 2, TrackFindUnique ''t3'',
      PlaylistTrackUpsert 0 11 3]
   \<and> db_media (db (snd (processTracks demo_config demo_env demo_fetched world0))) = []"
    by (simp add: demo_defs run_defs)
  moreover have "containerClient demo_config
   \<and> b_images (t_album (ti_track (demo_item ''t1'' ''A'' ''X''))) \<noteq> None
   \<and> b_images (t_album (ti_track (demo_item ''t3'' ''B'' ''Y''))) \<noteq> None"
    by (simp add: demo_defs containerClient_def truthy_def)
  ultimately show ?thesis by (simp only: simp_thms)
qed

theorem record_failure_policy_counterexample:
  "fst (processTracks demo_config env_bad_track demo_fetched world0) = Inl StoreError
   \<and> trace (snd (processTracks demo_config env_bad_track demo_fetched world0)) =
       [PlaylistUpsert ''p'', ArtistUpsert ''A'', AlbumUpsert ''X'', AlbumArtistUpsert 2 1,
        TrackUpsert ''t1'']
   \<and> errlog (snd (processTracks demo_config env_bad_track demo_fetched world0)) =
       [LogUpsertTrackError ''t1'' StoreError, LogProcessTracksError StoreError]
   \<and> db_tracks (db (snd (processTracks demo_config env_bad_track demo_fetched world0))) = []"
  by (simp add: demo_defs run_defs)


lemma tracks_loop_append:
  "tracks_loop cfg e n (pre @ rest) i pd w =
     (case tracks_loop cfg e n pre i pd w of
        (Inl err, w1) \<Rightarrow> (Inl err, w1)
      | (Inr pd1, w1) \<Rightarrow> tracks_loop cfg e n rest (i + length pre) pd1 w1)"
proof (induction pre arbitrary: i pd w)
  case Nil
  then show ?case by simp
next
  case (Cons it pre)
  obtain r1 w1 where p: "process_item cfg e n i it pd w = (r1, w1)"
    by (cases "process_item cfg e n i it pd w")
  show ?case
  proof (cases r1)
    case (Inl err)
    then show ?thesis using p by simp
  next
    case (Inr pd1)
    then show ?thesis using p Cons.IH[of "i + 1" pd1 w1] by (simp split: prod.splits sum.splits)
  qed
qed

lemma tracks_loop_stops:
  assumes "tracks_loop cfg e n pre 0 pd w = (Inr pd1, w1)"
      and "process_item cfg e n (length pre) item pd1 w1 = (Inl err, w2)"
  shows "tracks_loop cfg e n (pre @ item # rest) 0 pd w = (Inl err, w2)"
  using assms by (simp add: tracks_loop_append)


text \<open>
  C2, as amended. In \<^verbatim>\<open>SpotifySeeder.processTracks\<close> there is no \<^verbatim>\<open>try\<close> inside the loop: an
  error raised by a step of a record (artist upsert, album upsert, album-artist linking,
  track upsert, track-artist linking) is raised by the processing of that record; the loop
  stops there with the state as it is at that moment, so no later record is processed;
  \<^verbatim>\<open>processTracks\<close> logs the error and raises it again and so does \<^verbatim>\<open>seedDatabase\<close>. In
  \<^verbatim>\<open>AlbumCoverSeeder\<close>, an error raised while an album is processed is logged with the
  album's name, counted in \<^verbatim>\<open>stats.failed\<close> and recorded in \<^verbatim>\<open>stats.errors\<close>, and the loop goes
  on: it processes every album.
\<close>

theorem record_failure_policy:
  "(\<forall>err w1. artists_loop e (t_artists (ti_track item)) [] pd w = (Inl err, w1)
        \<longrightarrow> process_item cfg e n i item pd w = (Inl err, w1))
   \<and> (\<forall>artistIds pd1 w1 err w2.
          artists_loop e (t_artists (ti_track item)) [] pd w = (Inr (artistIds, pd1), w1)
          \<and> upsertAlbum e (t_album (ti_track item)) w1 = (Inl err, w2)
        \<longrightarrow> process_item cfg e n i item pd w = (Inl err, w2))
   \<and> (\<forall>artistIds pd1 w1 processedAlbum w2 err w3.
          artists_loop e (t_artists (ti_track item)) [] pd w = (Inr (artistIds, pd1), w1)
          \<and> upsertAlbum e (t_album (ti_track item)) w1 = (Inr processedAlbum, w2)
          \<and> createAlbumArtistRelations e (al_id processedAlbum) artistIds w2 = (Inl err, w3)
        \<longrightarrow> process_item cfg e n i item pd w = (Inl err, w3))
   \<and> (\<forall>artistIds pd1 w1 processedAlbum w2 u w3 err w4.
          artists_loop e (t_artists (ti_track item)) [] pd w = (Inr (artistIds, pd1), w1)
          \<and> upsertAlbum e (t_album (ti_track item)) w1 = (Inr processedAlbum, w2)
          \<and> createAlbumArtistRelations e (al_id processedAlbum) artistIds w2 = (Inr u, w3)
          \<and> upsertTrack e (ti_track item) (al_id processedAlbum) w3 = (Inl err, w4)
        \<longrightarrow> process_item cfg e n i item pd w = (Inl err, w4))
   \<and> (\<forall>artistIds pd1 w1 processedAlbum w2 u w3 processedTrack w4 err w5.
          artists_loop e (t_artists (ti_track item)) [] pd w = (Inr (artistIds, pd1), w1)
          \<and> upsertAlbum e (t_album (ti_track item)) w1 = (Inr processedAlbum, w2)
          \<and> createAlbumArtistRelations e (al_id processedAlbum) artistIds w2 = (Inr u, w3)
          \<and> upsertTrack e (ti_track item) (al_id processedAlbum) w3 = (Inr processedTrack, w4)
          \<and> createTrackArtistRelations e (tr_id processedTrack) artistIds w4 = (Inl err, w5)
        \<longrightarrow> process_item cfg e n i item pd w = (Inl err, w5))
   \<and> (\<forall>pl w0 pre rest pd1 w1 err w2.
          upsertPlaylist e playlist w = (Inr pl, w0)
          \<and> p_tracks_items playlist = pre @ item # rest
          \<and> tracks_loop cfg e (length (p_tracks_items playlist)) pre 0
                \<lparr>pd_artists = Map.empty, pd_albums = Map.empty, pd_tracks = [],
                 pd_playlist = Some pl\<rparr> w0 = (Inr pd1, w1)
          \<and> process_item cfg e (length (p_tracks_items playlist)) (length pre) item pd1 w1
                = (Inl err, w2)
        \<longrightarrow> processTracks cfg e playlist w = (Inl err, log_error (LogProcessTracksError err) w2))
   \<and> (\<forall>w1 err w2. fetchPlaylist e PLAYLIST_ID 100 w = Some (Inr playlist, w1)
          \<and> processTracks cfg e playlist w1 = (Inl err, w2)
        \<longrightarrow> seedDatabase cfg e w = Some (Inl err, log_error (LogSeedingError err) w2))
   \<and> (\<forall>err w1. processAlbum_try cfg e album w = (Inl err, w1)
        \<longrightarrow> processAlbum cfg e album w =
              (Inr (),
               w1\<lparr>errlog := errlog w1 @ [LogProcessAlbumError (al_name album) err],
                  seeder_stats :=
                    (seeder_stats w1)
                      \<lparr>st_failed := st_failed (seeder_stats w1) + 1,
                       st_errors := st_errors (seeder_stats w1) @ [Raised (al_name album) err]\<rparr>\<rparr>))
   \<and> (\<exists>w'. albums_loop cfg e m albums j w = (Inr (), w')
          \<and> st_processed (seeder_stats w') = st_processed (seeder_stats w) + length albums)"
proof (intro conjI allI impI)
  fix err w1
  assume "artists_loop e (t_artists (ti_track item)) [] pd w = (Inl err, w1)"
  then show "process_item cfg e n i item pd w = (Inl err, w1)"
    by (simp add: process_item_def)
next
  fix artistIds pd1 w1 err w2
  assume "artists_loop e (t_artists (ti_track item)) [] pd w = (Inr (artistIds, pd1), w1)
          \<and> upsertAlbum e (t_album (ti_track item)) w1 = (Inl err, w2)"
  then show "process_item cfg e n i item pd w = (Inl err, w2)"
    by (simp add: process_item_def)
next
  fix artistIds pd1 w1 processedAlbum w2 err w3
  assume "artists_loop e (t_artists (ti_track item)) [] pd w = (Inr (artistIds, pd1), w1)
          \<and> upsertAlbum e (t_album (ti_track item)) w1 = (Inr processedAlbum, w2)
          \<and> createAlbumArtistRelations e (al_id processedAlbum) artistIds w2 = (Inl err, w3)"
  then show "process_item cfg e n i item pd w = (Inl err, w3)"
    by (simp add: process_item_def Let_def)
next
  fix artistIds pd1 w1 processedAlbum w2 u w3 err w4
  assume "artists_loop e (t_artists (ti_track item)) [] pd w = (Inr (artistIds, pd1), w1)
          \<and> upsertAlbum e (t_album (ti_track item)) w1 = (Inr processedAlbum, w2)
          \<and> createAlbumArtistRelations e (al_id processedAlbum) artistIds w2 = (Inr u, w3)
          \<and> upsertTrack e (ti_track item) (al_id processedAlbum) w3 = (Inl err, w4)"
  then show "process_item cfg e n i item pd w = (Inl err, w4)"
    by (simp add: process_item_def Let_def)
next
  fix artistIds pd1 w1 processedAlbum w2 u w3 processedTrack w4 err w5
  assume "artists_loop e (t_artists (ti_track item)) [] pd w = (Inr (artistIds, pd1), w1)
          \<and> upsertAlbum e (t_album (ti_track item)) w1 = (Inr processedAlbum, w2)
          \<and> createAlbumArtistRelations e (al_id processedAlbum) artistIds w2 = (Inr u, w3)
          \<and> upsertTrack e (ti_track item) (al_id processedAlbum) w3 = (Inr processedTrack, w4)
          \<and> createTrackArtistRelations e (tr_id processedTrack) artistIds w4 = (Inl err, w5)"
  then show "process_item cfg e n i item pd w = (Inl err, w5)"
    by (simp add: process_item_def Let_def)
next
  fix pl w0 pre rest pd1 w1 err w2
  assume h: "upsertPlaylist e playlist w = (Inr pl, w0)
          \<and> p_tracks_items playlist = pre @ item # rest
          \<and> tracks_loop cfg e (length (p_tracks_items playlist)) pre 0
                \<lparr>pd_artists = Map.empty, pd_albums = Map.empty, pd_tracks = [],
                 pd_playlist = Some pl\<rparr> w0 = (Inr pd1, w1)
          \<and> process_item cfg e (length (p_tracks_items playlist)) (length pre) item pd1 w1
                = (Inl err, w2)"
  from h have tl: "tracks_loop cfg e (length (p_tracks_items playlist)) pre 0
                \<lparr>pd_artists = Map.empty, pd_albums = Map.empty, pd_tracks = [],
                 pd_playlist = Some pl\<rparr> w0 = (Inr pd1, w1)"
    and pi: "process_item cfg e (length (p_tracks_items playlist)) (length pre) item pd1 w1
                = (Inl err, w2)"
    by blast+
  have "tracks_loop cfg e (length (p_tracks_items playlist)) (pre @ item # rest) 0
                \<lparr>pd_artists = Map.empty, pd_albums = Map.empty, pd_tracks = [],
                 pd_playlist = Some pl\<rparr> w0 = (Inl err, w2)"
    by (rule tracks_loop_stops[OF tl pi])
  then show "processTracks cfg e playlist w = (Inl err, log_error (LogProcessTracksError err) w2)"
    using h by (simp add: processTracks_def processTracks_try_def Let_def)
next
  fix w1 err w2
  assume "fetchPlaylist e PLAYLIST_ID 100 w = Some (Inr playlist, w1)
          \<and> processTracks cfg e playlist w1 = (Inl err, w2)"
  then show "seedDatabase cfg e w = Some (Inl err, log_error (LogSeedingError err) w2)"
    by (simp add: seedDatabase_def)
next
  fix err w1
  assume "processAlbum_try cfg e album w = (Inl err, w1)"
  then show "processAlbum cfg e album w =
              (Inr (),
               w1\<lparr>errlog := errlog w1 @ [LogProcessAlbumError (al_name album) err],
                  seeder_stats :=
                    (seeder_stats w1)
                      \<lparr>st_failed := st_failed (seeder_stats w1) + 1,
                       st_errors := st_errors (seeder_stats w1) @ [Raised (al_name album) err]\<rparr>\<rparr>)"
    by (simp add: processAlbum_def record_failure_def log_error_def)
next
  show "\<exists>w'. albums_loop cfg e m albums j w = (Inr (), w')
          \<and> st_processed (seeder_stats w') = st_processed (seeder_stats w) + length albums"
    by (rule albums_loop_processed)
qed


theorem record_failure_policy_witness:
  "fst (processTracks demo_config env_bad_track demo_fetched world0) = Inl StoreError
   \<and> (\<exists>w'. albums_loop demo_config env_bad_track 2
               [demo_album_row 1 ''X'', demo_album_row 4 ''Y''] 0 world0 = (Inr (), w')
           \<and> st_processed (seeder_stats w') = 2)"
proof -
  note T = record_failure_policy
             [where e = env_bad_track and cfg = demo_config and playlist = demo_fetched
                and w = world0 and item = "demo_item ''t1'' ''A'' ''X''" and m = 2 and j = 0
                and albums = "[demo_album_row 1 ''X'', demo_album_row 4 ''Y'']"]
  have "\<exists>pl w0 w2. upsertPlaylist env_bad_track demo_fetched world0 = (Inr pl, w0)
          \<and> process_item demo_config env_bad_track (length (p_tracks_items demo_fetched))
                (length ([] :: track_item list)) (demo_item ''t1'' ''A'' ''X'')
                \<lparr>pd_artists = Map.empty, pd_albums = Map.empty, pd_tracks = [],
                 pd_playlist = Some pl\<rparr> w0 = (Inl StoreError, w2)"
    by (simp add: demo_defs run_defs)
  then obtain pl w0 w2 where
    up: "upsertPlaylist env_bad_track demo_fetched world0 = (Inr pl, w0)"
    and pi: "process_item demo_config env_bad_track (length (p_tracks_items demo_fetched))
                (length ([] :: track_item list)) (demo_item ''t1'' ''A'' ''X'')
                \<lparr>pd_artists = Map.empty, pd_albums = Map.empty, pd_tracks = [],
                 pd_playlist = Some pl\<rparr> w0 = (Inl StoreError, w2)"
    by blast
  have items: "p_tracks_items demo_fetched =
                 [] @ demo_item ''t1'' ''A'' ''X'' # [demo_item ''t2'' ''A'' ''X'', demo_item ''t3'' ''B'' ''Y'']"
    by (simp add: demo_fetched_def demo_items_def)
  have tl: "tracks_loop demo_config env_bad_track (length (p_tracks_items demo_fetched)) [] 0
              \<lparr>pd_artists = Map.empty, pd_albums = Map.empty, pd_tracks = [],
               pd_playlist = Some pl\<rparr> w0
            = (Inr \<lparr>pd_artists = Map.empty, pd_albums = Map.empty, pd_tracks = [],
                    pd_playlist = Some pl\<rparr>, w0)"
    by simp
  have "processTracks demo_config env_bad_track demo_fetched world0
          = (Inl StoreError, log_error (LogProcessTracksError StoreError) w2)"
    using T[THEN conjunct2, THEN conjunct2, THEN conjunct2, THEN conjunct2, THEN conjunct2,
            THEN conjunct1, rule_format,
            of pl w0 "[]" "[demo_item ''t2'' ''A'' ''X'', demo_item ''t3'' ''B'' ''Y'']" _ w0
               StoreError w2]
          up items tl pi
    by blast
  then have a: "fst (processTracks demo_config env_bad_track demo_fetched world0) = Inl StoreError"
    by simp
  have z: "st_processed (seeder_stats world0) = 0" by (simp add: world0_def)
  have b: "\<exists>w'. albums_loop demo_config env_bad_track 2
               [demo_album_row 1 ''X'', demo_album_row 4 ''Y''] 0 world0 = (Inr (), w')
           \<and> st_processed (seeder_stats w') = 2"
    using T[THEN conjunct2, THEN conjunct2, THEN conjunct2, THEN conjunct2, THEN conjunct2,
            THEN conjunct2, THEN conjunct2, THEN conjunct2]
    by (simp del: albums_loop.simps add: z numeral_2_eq_2)
  show ?thesis using a b by simp
qed

subsection \<open>Fatal errors of the run\<close>

lemma getAccessToken_quiet:
  "getAccessToken e w = (r, w')
     \<Longrightarrow> db w' = db w \<and> filter is_store_op (trace w') = filter is_store_op (trace w)"
  by (auto simp: getAccessToken_def perform_def log_error_def Let_def split: option.splits)

lemma getAccessToken_auth_fails:
  assumes "accessToken w = None" and "\<forall>n. fault e n TokenExchange \<noteq> None"
  shows "\<exists>err w'. getAccessToken e w = (Inl err, w')"
proof -
  have c: "cachedToken e w = None" using assms(1) by (simp add: cachedToken_def)
  have "fault e (length (trace w)) TokenExchange \<noteq> None" using assms(2) by blast
  then obtain err where "fault e (length (trace w)) TokenExchange = Some err"
    by blast
  then show ?thesis by (simp add: getAccessToken_def c perform_def)
qed

text \<open>With a positive page size the loop returns, whatever fails, and touches no table.\<close>

lemma fetch_loop_returns:
  assumes L: "0 < limit"
  shows "\<exists>r w'. fetch_loop e pid limit totalTracks offset acc w = Some (r, w')
           \<and> db w' = db w \<and> filter is_store_op (trace w') = filter is_store_op (trace w)"
proof (induction "totalTracks - offset" arbitrary: offset acc w rule: less_induct)
  case less
  show ?case
  proof (cases "offset < totalTracks")
    case False
    then show ?thesis by (subst fetch_loop.simps) simp
  next
    case True
    show ?thesis
    proof (cases "fault e (length (trace w)) (GetPlaylistTracks pid limit offset)")
      case (Some err)
      then show ?thesis using True
        by (subst fetch_loop.simps) (simp add: perform_def Let_def)
    next
      case None
      have lt: "totalTracks - (offset + limit) < totalTracks - offset" using L True by simp
      let ?w1 = "w\<lparr>trace := trace w @ [GetPlaylistTracks pid limit offset]\<rparr>"
      show ?thesis
      proof (cases "offset + limit < totalTracks")
        case more: True
        from less.hyps[OF lt, of "acc @ page_resp e pid limit offset" "sleep RATE_LIMIT_DELAY ?w1"]
        obtain r w' where
          "fetch_loop e pid limit totalTracks (offset + limit) (acc @ page_resp e pid limit offset)
             (sleep RATE_LIMIT_DELAY ?w1) = Some (r, w')"
          "db w' = db w" "filter is_store_op (trace w') = filter is_store_op (trace w)"
          by (auto simp: sleep_def)
        then show ?thesis using True None more
          by (subst fetch_loop.simps) (simp add: perform_def Let_def)
      next
        case last: False
        from less.hyps[OF lt, of "acc @ page_resp e pid limit offset" ?w1]
        obtain r w' where
          "fetch_loop e pid limit totalTracks (offset + limit) (acc @ page_resp e pid limit offset)
             ?w1 = Some (r, w')"
          "db w' = db w" "filter is_store_op (trace w') = filter is_store_op (trace w)"
          by auto
        then show ?thesis using True None last
          by (subst fetch_loop.simps) (simp add: perform_def Let_def)
      qed
    qed
  qed
qed

text \<open>When the request for a page that the loop would reach always fails, the loop throws.\<close>

lemma fetch_loop_page_fails:
  assumes L: "0 < limit"
      and bad: "\<forall>n. fault e n (GetPlaylistTracks pid limit (offset + k * limit)) \<noteq> None"
      and inside: "offset + k * limit < totalTracks"
  shows "\<exists>err w'. fetch_loop e pid limit totalTracks offset acc w = Some (Inl err, w')"
  using bad inside
proof (induction k arbitrary: offset acc w)
  case 0
  then have "fault e (length (trace w)) (GetPlaylistTracks pid limit offset) \<noteq> None"
    by simp
  then obtain err where "fault e (length (trace w)) (GetPlaylistTracks pid limit offset) = Some err"
    by blast
  then show ?case using 0
    by (subst fetch_loop.simps) (simp add: perform_def Let_def)
next
  case (Suc k)
  have lt: "offset < totalTracks" using Suc.prems(2) by simp
  show ?case
  proof (cases "fault e (length (trace w)) (GetPlaylistTracks pid limit offset)")
    case (Some err)
    then show ?thesis using lt
      by (subst fetch_loop.simps) (simp add: perform_def Let_def)
  next
    case None
    have eq: "offset + Suc k * limit = offset + limit + k * limit" by simp
    have b: "\<forall>n. fault e n (GetPlaylistTracks pid limit (offset + limit + k * limit)) \<noteq> None"
      using Suc.prems(1) unfolding eq .
    have i: "offset + limit + k * limit < totalTracks"
      using Suc.prems(2) unfolding eq .
    from Suc.IH[OF b i] show ?thesis using lt None
      by (subst fetch_loop.simps) (simp add: perform_def Let_def)
  qed
qed


lemma fetchPlaylist_returns:
  assumes L: "0 < limit"
  shows "\<exists>r w'. fetchPlaylist e pid limit w = Some (r, w')
           \<and> db w' = db w \<and> filter is_store_op (trace w') = filter is_store_op (trace w)"
proof -
  obtain r1 w1 where g: "getAccessToken e w = (r1, w1)" by (cases "getAccessToken e w")
  note q1 = getAccessToken_quiet[OF g]
  show ?thesis
  proof (cases r1)
    case (Inl err)
    then show ?thesis using g q1 by (simp add: fetchPlaylist_def log_error_def)
  next
    case (Inr token)
    show ?thesis
    proof (cases "fault e (length (trace w1)) (GetPlaylist pid)")
      case (Some err)
      then show ?thesis using g Inr q1
        by (simp add: fetchPlaylist_def perform_def log_error_def)
    next
      case None
      let ?w2 = "w1\<lparr>trace := trace w1 @ [GetPlaylist pid]\<rparr>"
      from fetch_loop_returns[OF L, of e pid "p_tracks_total (playlist_resp e pid)" 0 "[]" ?w2]
      obtain r w' where
        f: "fetch_loop e pid limit (p_tracks_total (playlist_resp e pid)) 0 [] ?w2 = Some (r, w')"
           "db w' = db ?w2" "filter is_store_op (trace w') = filter is_store_op (trace ?w2)"
        by blast
      show ?thesis using g Inr None f q1
        by (cases r) (simp_all add: fetchPlaylist_def perform_def log_error_def Let_def)
    qed
  qed
qed

lemma fetchPlaylist_auth_fails:
  assumes "accessToken w = None" and "\<forall>n. fault e n TokenExchange \<noteq> None"
  shows "\<exists>err w'. fetchPlaylist e pid limit w = Some (Inl err, w')"
proof -
  from getAccessToken_auth_fails[OF assms] obtain err w1 where
    "getAccessToken e w = (Inl err, w1)" by blast
  then show ?thesis by (simp add: fetchPlaylist_def)
qed

lemma fetchPlaylist_page_fails:
  assumes L: "0 < limit"
      and bad: "\<forall>n. fault e n (GetPlaylistTracks pid limit (k * limit)) \<noteq> None"
      and inside: "k * limit < p_tracks_total (playlist_resp e pid)"
  shows "\<exists>err w'. fetchPlaylist e pid limit w = Some (Inl err, w')"
proof -
  obtain r1 w1 where g: "getAccessToken e w = (r1, w1)" by (cases "getAccessToken e w")
  show ?thesis
  proof (cases r1)
    case (Inl err)
    then show ?thesis using g by (simp add: fetchPlaylist_def)
  next
    case (Inr token)
    show ?thesis
    proof (cases "fault e (length (trace w1)) (GetPlaylist pid)")
      case (Some err)
      then show ?thesis using g Inr by (simp add: fetchPlaylist_def perform_def)
    next
      case None
      let ?w2 = "w1\<lparr>trace := trace w1 @ [GetPlaylist pid]\<rparr>"
      have b: "\<forall>n. fault e n (GetPlaylistTracks pid limit (0 + k * limit)) \<noteq> None"
        using bad by simp
      have i: "0 + k * limit < p_tracks_total (playlist_resp e pid)" using inside by simp
      from fetch_loop_page_fails[OF L b i, of "[]" ?w2] obtain err w' where
        "fetch_loop e pid limit (p_tracks_total (playlist_resp e pid)) 0 [] ?w2 = Some (Inl err, w')"
        by blast
      then show ?thesis using g Inr None
        by (simp add: fetchPlaylist_def perform_def Let_def)
    qed
  qed
qed

lemma ensureContainerExists_quiet:
  "db (ensureContainerExists cfg e w) = db w
   \<and> filter is_store_op (trace (ensureContainerExists cfg e w)) = filter is_store_op (trace w)
   \<and> accessToken (ensureContainerExists cfg e w) = accessToken w"
  by (simp add: ensureContainerExists_def perform_def log_error_def split: option.splits)

text \<open>If fetching the playlist throws, the script exits with code 1 and has touched no table.\<close>

lemma main_fetch_fails:
  assumes cfg: "truthy (SPOTIFY_CLIENT_ID cfg)" "truthy (SPOTIFY_CLIENT_SECRET cfg)"
               "truthy (DATABASE_URL cfg)"
      and fails: "\<And>w1. accessToken w1 = None \<Longrightarrow> \<exists>err w2. fetchPlaylist e PLAYLIST_ID 100 w1 = Some (Inl err, w2)"
  shows "\<exists>w'. main cfg e w = Some (Exit 1, w') \<and> db w' = db w
           \<and> filter is_store_op (trace w') = filter is_store_op (trace w)"
proof (cases "fault e (length (trace w)) DbConnect")
  case (Some err)
  then show ?thesis using cfg
    by (simp add: main_def perform_def new_SpotifySeeder_def log_error_def)
next
  case None
  let ?w1 = "(new_SpotifySeeder w)\<lparr>trace := trace w @ [DbConnect]\<rparr>"
  let ?w2 = "ensureContainerExists cfg e ?w1"
  have a: "accessToken ?w2 = None"
    using ensureContainerExists_quiet[of cfg e ?w1] by (simp add: new_SpotifySeeder_def)
  from fails[OF a] obtain err w3 where f: "fetchPlaylist e PLAYLIST_ID 100 ?w2 = Some (Inl err, w3)"
    by blast
  from fetchPlaylist_returns[of 100 e PLAYLIST_ID ?w2] f
  have q: "db w3 = db ?w2" "filter is_store_op (trace w3) = filter is_store_op (trace ?w2)"
    by auto
  have q2: "db ?w2 = db w" "filter is_store_op (trace ?w2) = filter is_store_op (trace w)"
    using ensureContainerExists_quiet[of cfg e ?w1] by (simp_all add: new_SpotifySeeder_def)
  have "main cfg e w = Some (Exit 1, log_error (LogScriptError err) (log_error (LogSeedingError err) w3))"
    using cfg None f
    by (simp add: main_def perform_def seedDatabase_def new_SpotifySeeder_def)
  then show ?thesis using q q2 by (simp add: log_error_def)
qed


text \<open>
  C9. \<^verbatim>\<open>main\<close> of the Spotify seeder. (1) With the configuration present, if the token
  exchange fails, the script ends with \<^verbatim>\<open>process.exit(1)\<close>, the tables of the store are as
  they were and no operation on them was issued. (2) The same holds if the request for one
  of the pages that the paged fetch reaches (offset \<open>k * 100\<close> below the reported total)
  fails: the run ends before \<^verbatim>\<open>processTracks\<close> issues its first store operation. (3) If the
  client id, the client secret or the store's connection string is missing, the script
  ends with \<^verbatim>\<open>process.exit(1)\<close> after writing one error line, without having issued any
  operation at all.
\<close>

theorem main_fatal_abort:
  "(truthy (SPOTIFY_CLIENT_ID cfg) \<and> truthy (SPOTIFY_CLIENT_SECRET cfg) \<and> truthy (DATABASE_URL cfg)
      \<and> (\<forall>n. fault e n TokenExchange \<noteq> None)
     \<longrightarrow> (\<exists>w'. main cfg e w = Some (Exit 1, w') \<and> db w' = db w
              \<and> filter is_store_op (trace w') = filter is_store_op (trace w)))
   \<and> (truthy (SPOTIFY_CLIENT_ID cfg) \<and> truthy (SPOTIFY_CLIENT_SECRET cfg) \<and> truthy (DATABASE_URL cfg)
      \<and> k * 100 < p_tracks_total (playlist_resp e PLAYLIST_ID)
      \<and> (\<forall>n. fault e n (GetPlaylistTracks PLAYLIST_ID 100 (k * 100)) \<noteq> None)
     \<longrightarrow> (\<exists>w'. main cfg e w = Some (Exit 1, w') \<and> db w' = db w
              \<and> filter is_store_op (trace w') = filter is_store_op (trace w)))
   \<and> (\<not> truthy (SPOTIFY_CLIENT_ID cfg) \<or> \<not> truthy (SPOTIFY_CLIENT_SECRET cfg)
        \<or> \<not> truthy (DATABASE_URL cfg)
     \<longrightarrow> (\<exists>l. main cfg e w = Some (Exit 1, w\<lparr>errlog := errlog w @ [l]\<rparr>)))"
proof (intro conjI impI)
  assume h: "truthy (SPOTIFY_CLIENT_ID cfg) \<and> truthy (SPOTIFY_CLIENT_SECRET cfg)
      \<and> truthy (DATABASE_URL cfg) \<and> (\<forall>n. fault e n TokenExchange \<noteq> None)"
  then have bad: "\<forall>n. fault e n TokenExchange \<noteq> None" by blast
  show "\<exists>w'. main cfg e w = Some (Exit 1, w') \<and> db w' = db w
              \<and> filter is_store_op (trace w') = filter is_store_op (trace w)"
  proof (rule main_fetch_fails)
    show "truthy (SPOTIFY_CLIENT_ID cfg)" "truthy (SPOTIFY_CLIENT_SECRET cfg)"
      "truthy (DATABASE_URL cfg)" using h by blast+
  next
    fix w1 :: world
    assume "accessToken w1 = None"
    then show "\<exists>err w2. fetchPlaylist e PLAYLIST_ID 100 w1 = Some (Inl err, w2)"
      using bad by (rule fetchPlaylist_auth_fails)
  qed
next
  assume h: "truthy (SPOTIFY_CLIENT_ID cfg) \<and> truthy (SPOTIFY_CLIENT_SECRET cfg)
      \<and> truthy (DATABASE_URL cfg)
      \<and> k * 100 < p_tracks_total (playlist_resp e PLAYLIST_ID)
      \<and> (\<forall>n. fault e n (GetPlaylistTracks PLAYLIST_ID 100 (k * 100)) \<noteq> None)"
  then have bad: "\<forall>n. fault e n (GetPlaylistTracks PLAYLIST_ID 100 (k * 100)) \<noteq> None"
    and inside: "k * 100 < p_tracks_total (playlist_resp e PLAYLIST_ID)" by blast+
  show "\<exists>w'. main cfg e w = Some (Exit 1, w') \<and> db w' = db w
              \<and> filter is_store_op (trace w') = filter is_store_op (trace w)"
  proof (rule main_fetch_fails)
    show "truthy (SPOTIFY_CLIENT_ID cfg)" "truthy (SPOTIFY_CLIENT_SECRET cfg)"
      "truthy (DATABASE_URL cfg)" using h by blast+
  next
    fix w1 :: world
    have "(0::nat) < 100" by simp
    then show "\<exists>err w2. fetchPlaylist e PLAYLIST_ID 100 w1 = Some (Inl err, w2)"
      using bad inside by (rule fetchPlaylist_page_fails)
  qed
next
  assume "\<not> truthy (SPOTIFY_CLIENT_ID cfg) \<or> \<not> truthy (SPOTIFY_CLIENT_SECRET cfg)
        \<or> \<not> truthy (DATABASE_URL cfg)"
  then show "\<exists>l. main cfg e w = Some (Exit 1, w\<lparr>errlog := errlog w @ [l]\<rparr>)"
    by (auto simp: main_def log_error_def)
qed

theorem main_fatal_abort_witness:
  "(\<exists>w'. main demo_config env_no_auth world0 = Some (Exit 1, w') \<and> db w' = empty_store)
   \<and> (\<exists>w'. main demo_config env_bad_page world0 = Some (Exit 1, w') \<and> db w' = empty_store)
   \<and> (\<exists>l. main config_no_secret demo_env world0 = Some (Exit 1, world0\<lparr>errlog := [l]\<rparr>))"
proof -
  have c: "truthy (SPOTIFY_CLIENT_ID demo_config)" "truthy (SPOTIFY_CLIENT_SECRET demo_config)"
    "truthy (DATABASE_URL demo_config)"
    by (simp_all add: demo_config_def truthy_def)
  have d: "db world0 = empty_store" "errlog world0 = []" by (simp_all add: world0_def)
  have a1: "\<forall>n. fault env_no_auth n TokenExchange \<noteq> None" by (simp add: env_no_auth_def)
  have b1: "1 * 100 < p_tracks_total (playlist_resp env_bad_page PLAYLIST_ID)"
    "\<forall>n. fault env_bad_page n (GetPlaylistTracks PLAYLIST_ID 100 (1 * 100)) \<noteq> None"
    by (simp_all add: env_bad_page_def demo_playlist_def)
  have c1: "\<not> truthy (SPOTIFY_CLIENT_SECRET config_no_secret)"
    by (simp add: config_no_secret_def truthy_def)
  have x: "\<exists>w'. main demo_config env_no_auth world0 = Some (Exit 1, w') \<and> db w' = empty_store"
    using main_fatal_abort[of demo_config env_no_auth world0 0, THEN conjunct1] c a1 d by auto
  have y: "\<exists>w'. main demo_config env_bad_page world0 = Some (Exit 1, w') \<and> db w' = empty_store"
    using main_fatal_abort[of demo_config env_bad_page world0 1, THEN conjunct2, THEN conjunct1]
          c b1 d by auto
  have z: "\<exists>l. main config_no_secret demo_env world0 = Some (Exit 1, world0\<lparr>errlog := [l]\<rparr>)"
    using main_fatal_abort[of config_no_secret demo_env world0 0, THEN conjunct2, THEN conjunct2]
          c1 d by auto
  show ?thesis using x y z by blast
qed

end
